theory Spec2Isabelle
  imports Main "HOL-Library.Code_Target_Nat"
begin

section \<open>The element type \<open>T\<close>\<close>

text \<open>
  \<open>Vector<T>\<close> is generic in its element type. What the container can observe of
  \<open>T\<close> is collected in a record: the two type traits that \<open>if constexpr\<close> tests, which
  of \<open>T\<close>'s special member functions throw on which value, and the state a moved-from
  object is left in. A copy or a move that does not throw gives the new object the value
  of its source (the \<open>CopyConstructible\<close> and \<open>MoveConstructible\<close> requirements of the
  language); an element operation that throws leaves its operands as they were.
  \<open>sizeof_T\<close> is \<open>sizeof(T)\<close>, and \<open>operator_new_fails T n\<close> says whether the call
  \<open>operator new(n * sizeof(T))\<close> that \<open>Allocate(n)\<close> makes throws \<open>std::bad_alloc\<close>.

  \<open>size_t\<close> has 64 bits. Sizes, capacities and indices are modelled by \<open>nat\<close>. The
  product that wraps for an argument the caller chooses, the byte count
  \<open>n * sizeof(T)\<close> of \<open>Allocate\<close>, is computed modulo \<open>SIZE_MAX + 1\<close>. The doubling
  \<open>2 * size_\<close> and the increments of \<open>size_\<close> are computed in \<open>nat\<close>: the elements of
  a vector are in memory, fewer than \<open>2^63\<close> of them, so these do not wrap; the byte
  count of the doubled capacity is computed by \<open>Allocate\<close> like any other.
\<close>

record ('a, 'b) traits =
  is_nothrow_move_constructible :: bool
  is_copy_constructible :: bool
  construct_from :: "'b \<Rightarrow> 'a option"
  value_initialized :: "'a option"
  copy_ctor_throws :: "'a \<Rightarrow> bool"
  move_ctor_throws :: "'a \<Rightarrow> bool"
  moved_from :: "'a \<Rightarrow> 'a"
  copy_assign_throws :: "'a \<Rightarrow> bool"
  move_assign_throws :: "'a \<Rightarrow> bool"
  operator_new_fails :: "nat \<Rightarrow> bool"
  sizeof_T :: nat

definition SIZE_MAX :: nat where
  "SIZE_MAX = 2 ^ 64 - 1"

text \<open>
  Constructor arguments that do not refer to the vector: a \<open>const T&\<close> to an object
  outside the vector (copy construction), a \<open>T&&\<close> to such an object (move
  construction), or any other argument pack, of type \<open>'b\<close>.
\<close>

datatype ('a, 'b) args = ByCopy 'a | ByMove 'a | InPlace 'b

text \<open>
  The parameter \<open>Args&&... args\<close> of \<open>EmplaceBack\<close> and \<open>Emplace\<close> is a pack of
  references, forwarded to the constructor of \<open>T\<close> at the moment the new object is
  built. It may refer to an element of the vector itself, as in
  \<open>v.Insert(v.begin(), v[2])\<close>: then the object read is whatever the slot \<open>i\<close> of the
  vector's storage holds at that moment. \<open>Lvalue_element i\<close> is a \<open>const T&\<close> bound to
  \<open>(*this)[i]\<close>, \<open>Rvalue_element i\<close> a \<open>T&&\<close> bound to it.
\<close>

datatype ('a, 'b) forwarded = Outside "('a, 'b) args" | Lvalue_element nat | Rvalue_element nat

text \<open>The parameter \<open>value\<close> of \<open>PushBack\<close> and \<open>Insert\<close>, a \<open>const T&\<close> or a \<open>T&&\<close>: a
  reference to an object outside the vector, given by its value, or to the element
  \<open>(*this)[i]\<close>.\<close>

datatype 'a reference = Object 'a | Element nat

text \<open>Every call of a special member function of \<open>T\<close> is recorded, in order.\<close>

datatype 'a event =
    Constructed 'a
  | ValueConstructed 'a
  | CopyConstructed 'a
  | MoveConstructed 'a
  | CopyAssigned 'a
  | MoveAssigned 'a
  | Destroyed 'a

datatype exn = bad_alloc | element_exception

text \<open>
  An operation returns with a result, leaves by an exception with the state it had
  reached, or has undefined behaviour (a failed \<open>assert\<close>, an access outside a block or
  to a freed block, the use of a slot that holds no object, an iterator outside the
  vector).
\<close>

datatype ('r, 's) outcome = Returns 'r | Throws exn 's | Undefined

section \<open>Raw memory\<close>

text \<open>
  A slot of a block is uninitialised memory or holds a live object. \<open>RawMemory\<close> is
  move-only and its pointer is only ever swapped, so a block has one owner at a time and
  the pointer carries the block it designates. \<open>Dangling\<close> is a pointer whose block has
  been given to \<open>operator delete\<close>.
\<close>

datatype 'a slot = Raw | Obj 'a

datatype 'a ptr = Nullptr | Block "'a slot list" | Dangling

fun load :: "'a ptr \<Rightarrow> nat \<Rightarrow> 'a slot option" where
  "load (Block b) i = (if i < length b then Some (b ! i) else None)"
| "load Nullptr i = None"
| "load Dangling i = None"

fun store :: "'a ptr \<Rightarrow> nat \<Rightarrow> 'a slot \<Rightarrow> 'a ptr option" where
  "store (Block b) i s = (if i < length b then Some (Block (b[i := s])) else None)"
| "store Nullptr i s = None"
| "store Dangling i s = None"

subsection \<open>The algorithms of \<open><memory>\<close> and \<open><algorithm>\<close>\<close>

text \<open>\<open>T(std::forward<Args>(args)...)\<close> for arguments outside the vector: the new
  object and its event, or \<open>None\<close> when the constructor throws.\<close>

definition construct :: "('a, 'b) traits \<Rightarrow> ('a, 'b) args \<Rightarrow> ('a \<times> 'a event) option" where
  "construct T a =
     (case a of
        ByCopy x \<Rightarrow> if copy_ctor_throws T x then None else Some (x, CopyConstructed x)
      | ByMove x \<Rightarrow> if move_ctor_throws T x then None else Some (x, MoveConstructed x)
      | InPlace b \<Rightarrow> map_option (\<lambda>x. (x, Constructed x)) (construct_from T b))"

text \<open>
  \<open>T(std::forward<Args>(args)...)\<close> in a member function of the vector whose storage
  is \<open>p\<close> and whose size is \<open>n\<close> when the function is called: the new object, its event,
  and the storage afterwards (a move from an element leaves that element in its
  moved-from state). A reference to an element designates one of the \<open>n\<close> elements.
\<close>

definition construct_forwarded ::
  "('a, 'b) traits \<Rightarrow> ('a, 'b) forwarded \<Rightarrow> 'a ptr \<Rightarrow> nat \<Rightarrow>
   ('a \<times> 'a event \<times> 'a ptr, unit) outcome" where
  "construct_forwarded T a p n =
     (case a of
        Outside b \<Rightarrow>
          (case construct T b of
             None \<Rightarrow> Throws element_exception ()
           | Some (x, e) \<Rightarrow> Returns (x, e, p))
      | Lvalue_element i \<Rightarrow>
          (if i < n then
             (case load p i of
                Some (Obj y) \<Rightarrow>
                  if copy_ctor_throws T y then Throws element_exception ()
                  else Returns (y, CopyConstructed y, p)
              | _ \<Rightarrow> Undefined)
           else Undefined)
      | Rvalue_element i \<Rightarrow>
          (if i < n then
             (case load p i of
                Some (Obj y) \<Rightarrow>
                  if move_ctor_throws T y then Throws element_exception ()
                  else
                    (case store p i (Obj (moved_from T y)) of
                       Some p' \<Rightarrow> Returns (y, MoveConstructed y, p')
                     | None \<Rightarrow> Undefined)
              | _ \<Rightarrow> Undefined)
           else Undefined))"

text \<open>\<open>std::destroy_n(first, n)\<close>: destructors do not throw; \<open>None\<close> is undefined
  behaviour.\<close>

fun destroy_n :: "'a ptr \<Rightarrow> nat \<Rightarrow> nat \<Rightarrow> ('a ptr \<times> 'a event list) option" where
  "destroy_n p first 0 = Some (p, [])"
| "destroy_n p first (Suc n) =
     (case load p first of
        Some (Obj x) \<Rightarrow>
          (case store p first Raw of
             Some p' \<Rightarrow>
               (case destroy_n p' (Suc first) n of
                  Some (p'', ev) \<Rightarrow> Some (p'', Destroyed x # ev)
                | None \<Rightarrow> None)
           | None \<Rightarrow> None)
      | _ \<Rightarrow> None)"

text \<open>
  The loop of \<open>std::uninitialized_copy_n(first, count, d_first)\<close>. The state is the
  destination and the position \<open>current\<close> reached in it.
\<close>

fun copy_loop ::
  "('a, 'b) traits \<Rightarrow> 'a ptr \<Rightarrow> nat \<Rightarrow> nat \<Rightarrow> 'a ptr \<Rightarrow> nat \<Rightarrow>
   ('a ptr \<times> nat, 'a ptr \<times> nat) outcome \<times> 'a event list" where
  "copy_loop T src first 0 dst current = (Returns (dst, current), [])"
| "copy_loop T src first (Suc count) dst current =
     (case load src first of
        Some (Obj x) \<Rightarrow>
          if copy_ctor_throws T x then (Throws element_exception (dst, current), [])
          else
            (case store dst current (Obj x) of
               Some dst' \<Rightarrow>
                 (case copy_loop T src (Suc first) count dst' (Suc current) of
                    (r, ev) \<Rightarrow> (r, CopyConstructed x # ev))
             | None \<Rightarrow> (Undefined, []))
      | _ \<Rightarrow> (Undefined, []))"

text \<open>
  \<open>std::uninitialized_copy_n\<close>: when a copy throws, the objects already constructed in
  the destination are destroyed and the exception is rethrown. The state returned is
  the pair of source and destination.
\<close>

definition uninitialized_copy_n ::
  "('a, 'b) traits \<Rightarrow> 'a ptr \<Rightarrow> nat \<Rightarrow> nat \<Rightarrow> 'a ptr \<Rightarrow> nat \<Rightarrow>
   ('a ptr \<times> 'a ptr, 'a ptr \<times> 'a ptr) outcome \<times> 'a event list" where
  "uninitialized_copy_n T src first count dst d_first =
     (case copy_loop T src first count dst d_first of
        (Returns (dst', current), ev) \<Rightarrow> (Returns (src, dst'), ev)
      | (Throws e (dst', current), ev) \<Rightarrow>
          (case destroy_n dst' d_first (current - d_first) of
             Some (dst'', ev') \<Rightarrow> (Throws e (src, dst''), ev @ ev')
           | None \<Rightarrow> (Undefined, ev))
      | (Undefined, ev) \<Rightarrow> (Undefined, ev))"

text \<open>
  The loop of \<open>std::uninitialized_move_n\<close>: each source object is left in its
  moved-from state. The state is source, destination and \<open>current\<close>.
\<close>

fun move_loop ::
  "('a, 'b) traits \<Rightarrow> 'a ptr \<Rightarrow> nat \<Rightarrow> nat \<Rightarrow> 'a ptr \<Rightarrow> nat \<Rightarrow>
   ('a ptr \<times> 'a ptr \<times> nat, 'a ptr \<times> 'a ptr \<times> nat) outcome \<times> 'a event list" where
  "move_loop T src first 0 dst current = (Returns (src, dst, current), [])"
| "move_loop T src first (Suc count) dst current =
     (case load src first of
        Some (Obj x) \<Rightarrow>
          if move_ctor_throws T x then (Throws element_exception (src, dst, current), [])
          else
            (case (store src first (Obj (moved_from T x)), store dst current (Obj x)) of
               (Some src', Some dst') \<Rightarrow>
                 (case move_loop T src' (Suc first) count dst' (Suc current) of
                    (r, ev) \<Rightarrow> (r, MoveConstructed x # ev))
             | _ \<Rightarrow> (Undefined, []))
      | _ \<Rightarrow> (Undefined, []))"

definition uninitialized_move_n ::
  "('a, 'b) traits \<Rightarrow> 'a ptr \<Rightarrow> nat \<Rightarrow> nat \<Rightarrow> 'a ptr \<Rightarrow> nat \<Rightarrow>
   ('a ptr \<times> 'a ptr, 'a ptr \<times> 'a ptr) outcome \<times> 'a event list" where
  "uninitialized_move_n T src first count dst d_first =
     (case move_loop T src first count dst d_first of
        (Returns (src', dst', current), ev) \<Rightarrow> (Returns (src', dst'), ev)
      | (Throws e (src', dst', current), ev) \<Rightarrow>
          (case destroy_n dst' d_first (current - d_first) of
             Some (dst'', ev') \<Rightarrow> (Throws e (src', dst''), ev @ ev')
           | None \<Rightarrow> (Undefined, ev))
      | (Undefined, ev) \<Rightarrow> (Undefined, ev))"

text \<open>\<open>std::uninitialized_value_construct_n(first, n)\<close>, with the same rollback.\<close>

fun value_construct_loop ::
  "('a, 'b) traits \<Rightarrow> 'a ptr \<Rightarrow> nat \<Rightarrow> nat \<Rightarrow>
   ('a ptr \<times> nat, 'a ptr \<times> nat) outcome \<times> 'a event list" where
  "value_construct_loop T dst current 0 = (Returns (dst, current), [])"
| "value_construct_loop T dst current (Suc n) =
     (case value_initialized T of
        None \<Rightarrow> (Throws element_exception (dst, current), [])
      | Some x \<Rightarrow>
          (case store dst current (Obj x) of
             Some dst' \<Rightarrow>
               (case value_construct_loop T dst' (Suc current) n of
                  (r, ev) \<Rightarrow> (r, ValueConstructed x # ev))
           | None \<Rightarrow> (Undefined, [])))"

definition uninitialized_value_construct_n ::
  "('a, 'b) traits \<Rightarrow> 'a ptr \<Rightarrow> nat \<Rightarrow> nat \<Rightarrow> ('a ptr, 'a ptr) outcome \<times> 'a event list" where
  "uninitialized_value_construct_n T dst first n =
     (case value_construct_loop T dst first n of
        (Returns (dst', current), ev) \<Rightarrow> (Returns dst', ev)
      | (Throws e (dst', current), ev) \<Rightarrow>
          (case destroy_n dst' first (current - first) of
             Some (dst'', ev') \<Rightarrow> (Throws e dst'', ev @ ev')
           | None \<Rightarrow> (Undefined, ev))
      | (Undefined, ev) \<Rightarrow> (Undefined, ev))"

text \<open>
  \<open>std::move(first, last, d_first)\<close> inside one block:
  \<open>for (; first != last; ++first, ++d_first) *d_first = std::move(*first);\<close>
  The loop runs \<open>last - first\<close> times.
\<close>

fun move_forward_loop ::
  "('a, 'b) traits \<Rightarrow> 'a ptr \<Rightarrow> nat \<Rightarrow> nat \<Rightarrow> nat \<Rightarrow>
   ('a ptr, 'a ptr) outcome \<times> 'a event list" where
  "move_forward_loop T p first 0 d_first = (Returns p, [])"
| "move_forward_loop T p first (Suc n) d_first =
     (case (load p first, load p d_first) of
        (Some (Obj x), Some (Obj d)) \<Rightarrow>
          if move_assign_throws T x then (Throws element_exception p, [])
          else
            (case store p d_first (Obj x) of
               Some p1 \<Rightarrow>
                 (case store p1 first (Obj (moved_from T x)) of
                    Some p2 \<Rightarrow>
                      (case move_forward_loop T p2 (Suc first) n (Suc d_first) of
                         (r, ev) \<Rightarrow> (r, MoveAssigned x # ev))
                  | None \<Rightarrow> (Undefined, []))
             | None \<Rightarrow> (Undefined, []))
      | _ \<Rightarrow> (Undefined, []))"

definition std_move ::
  "('a, 'b) traits \<Rightarrow> 'a ptr \<Rightarrow> nat \<Rightarrow> nat \<Rightarrow> nat \<Rightarrow>
   ('a ptr, 'a ptr) outcome \<times> 'a event list" where
  "std_move T p first lst d_first =
     (if first \<le> lst then move_forward_loop T p first (lst - first) d_first
      else (Undefined, []))"

text \<open>
  \<open>std::move_backward(first, last, d_last)\<close> inside one block:
  \<open>while (first != last) *(--d_last) = std::move(*(--last));\<close>
\<close>

fun move_backward_loop ::
  "('a, 'b) traits \<Rightarrow> 'a ptr \<Rightarrow> nat \<Rightarrow> nat \<Rightarrow> nat \<Rightarrow>
   ('a ptr, 'a ptr) outcome \<times> 'a event list" where
  "move_backward_loop T p 0 lst d_last = (Returns p, [])"
| "move_backward_loop T p (Suc n) lst d_last =
     (if lst = 0 \<or> d_last = 0 then (Undefined, [])
      else
        (case (load p (lst - 1), load p (d_last - 1)) of
           (Some (Obj x), Some (Obj d)) \<Rightarrow>
             if move_assign_throws T x then (Throws element_exception p, [])
             else
               (case store p (d_last - 1) (Obj x) of
                  Some p1 \<Rightarrow>
                    (case store p1 (lst - 1) (Obj (moved_from T x)) of
                       Some p2 \<Rightarrow>
                         (case move_backward_loop T p2 n (lst - 1) (d_last - 1) of
                            (r, ev) \<Rightarrow> (r, MoveAssigned x # ev))
                     | None \<Rightarrow> (Undefined, []))
                | None \<Rightarrow> (Undefined, []))
         | _ \<Rightarrow> (Undefined, [])))"

definition std_move_backward ::
  "('a, 'b) traits \<Rightarrow> 'a ptr \<Rightarrow> nat \<Rightarrow> nat \<Rightarrow> nat \<Rightarrow>
   ('a ptr, 'a ptr) outcome \<times> 'a event list" where
  "std_move_backward T p first lst d_last =
     (if first \<le> lst then move_backward_loop T p (lst - first) lst d_last
      else (Undefined, []))"

subsection \<open>\<open>class RawMemory\<close>\<close>

text \<open>The members \<open>buffer_\<close> and \<open>capacity_\<close> (a field name here cannot end with an
  underscore).\<close>

record 'a RawMemory =
  m_buffer :: "'a ptr"
  m_capacity :: nat

text \<open>
  \<open>Allocate\<close>: \<open>None\<close> is \<open>std::bad_alloc\<close>. The byte count \<open>n * sizeof(T)\<close> is a
  \<open>size_t\<close> and there is no check that it fits: the block that \<open>operator new\<close> returns
  has the wrapped number of bytes, so it holds \<open>n\<close> objects only when the product does
  not wrap.
\<close>

definition Allocate :: "('a, 'b) traits \<Rightarrow> nat \<Rightarrow> 'a ptr option" where
  "Allocate T n =
     (if n \<noteq> 0 then
        (if operator_new_fails T n then None
         else Some (Block (replicate ((n * sizeof_T T) mod (SIZE_MAX + 1) div sizeof_T T) Raw)))
      else Some Nullptr)"

text \<open>\<open>Deallocate\<close>: the value of the pointer afterwards; \<open>None\<close> is a double free.\<close>

fun Deallocate :: "'a ptr \<Rightarrow> 'a ptr option" where
  "Deallocate Nullptr = Some Nullptr"
| "Deallocate (Block b) = Some Dangling"
| "Deallocate Dangling = None"

definition RawMemory_default :: "'a RawMemory" where
  "RawMemory_default = \<lparr>m_buffer = Nullptr, m_capacity = 0\<rparr>"

definition RawMemory_new :: "('a, 'b) traits \<Rightarrow> nat \<Rightarrow> 'a RawMemory option" where
  "RawMemory_new T capacity =
     (case Allocate T capacity of
        Some p \<Rightarrow> Some \<lparr>m_buffer = p, m_capacity = capacity\<rparr>
      | None \<Rightarrow> None)"

definition RawMemory_dtor :: "'a RawMemory \<Rightarrow> 'a RawMemory option" where
  "RawMemory_dtor m =
     (case Deallocate (m_buffer m) of
        Some p \<Rightarrow> Some (m\<lparr>m_buffer := p\<rparr>)
      | None \<Rightarrow> None)"

definition RawMemory_Swap :: "'a RawMemory \<Rightarrow> 'a RawMemory \<Rightarrow> 'a RawMemory \<times> 'a RawMemory" where
  "RawMemory_Swap m other =
     (m\<lparr>m_buffer := m_buffer other, m_capacity := m_capacity other\<rparr>,
      other\<lparr>m_buffer := m_buffer m, m_capacity := m_capacity m\<rparr>)"

text \<open>The end of the scope of a local \<open>RawMemory\<close>: its destructor runs, on the normal
  path and when an exception unwinds the stack.\<close>

definition leave_scope ::
  "'a RawMemory \<Rightarrow> ('r, 's) outcome \<times> 'a event list \<Rightarrow>
   ('r, 's) outcome \<times> 'a event list" where
  "leave_scope local r =
     (case RawMemory_dtor local of Some m \<Rightarrow> r | None \<Rightarrow> (Undefined, snd r))"

text \<open>\<open>RawMemory::operator[]\<close>, with its \<open>assert(index < capacity_)\<close>.\<close>

definition RawMemory_at :: "'a RawMemory \<Rightarrow> nat \<Rightarrow> 'a slot option" where
  "RawMemory_at m index = (if index < m_capacity m then load (m_buffer m) index else None)"

section \<open>\<open>class Vector\<close>\<close>

text \<open>The members \<open>data_\<close> and \<open>size_\<close>.\<close>

record 'a Vector =
  m_data :: "'a RawMemory"
  m_size :: nat

definition Vector_default :: "'a Vector" where
  "Vector_default = \<lparr>m_data = RawMemory_default, m_size = 0\<rparr>"

text \<open>\<open>explicit Vector(size_t size)\<close>. A constructor that throws leaves no object.\<close>

definition Vector_sized ::
  "('a, 'b) traits \<Rightarrow> nat \<Rightarrow> ('a Vector, unit) outcome \<times> 'a event list" where
  "Vector_sized T n =
     (case RawMemory_new T n of
        None \<Rightarrow> (Throws bad_alloc (), [])
      | Some d \<Rightarrow>
          (case uninitialized_value_construct_n T (m_buffer d) 0 n of
             (Returns p, ev) \<Rightarrow> (Returns \<lparr>m_data = d\<lparr>m_buffer := p\<rparr>, m_size = n\<rparr>, ev)
           | (Throws e p, ev) \<Rightarrow> leave_scope (d\<lparr>m_buffer := p\<rparr>) (Throws e (), ev)
           | (Undefined, ev) \<Rightarrow> (Undefined, ev)))"

text \<open>\<open>Vector(const Vector& other)\<close>.\<close>

definition Vector_copy ::
  "('a, 'b) traits \<Rightarrow> 'a Vector \<Rightarrow> ('a Vector, unit) outcome \<times> 'a event list" where
  "Vector_copy T other =
     (case RawMemory_new T (m_size other) of
        None \<Rightarrow> (Throws bad_alloc (), [])
      | Some d \<Rightarrow>
          (case uninitialized_copy_n T (m_buffer (m_data other)) 0 (m_size other)
                  (m_buffer d) 0 of
             (Returns (src, p), ev) \<Rightarrow>
               (Returns \<lparr>m_data = d\<lparr>m_buffer := p\<rparr>, m_size = m_size other\<rparr>, ev)
           | (Throws e (src, p), ev) \<Rightarrow> leave_scope (d\<lparr>m_buffer := p\<rparr>) (Throws e (), ev)
           | (Undefined, ev) \<Rightarrow> (Undefined, ev)))"

text \<open>\<open>~Vector()\<close>: the elements are destroyed, then the member \<open>data_\<close>.\<close>

definition Vector_dtor :: "'a Vector \<Rightarrow> 'a event list option" where
  "Vector_dtor v =
     (case destroy_n (m_buffer (m_data v)) 0 (m_size v) of
        Some (p, ev) \<Rightarrow>
          (case RawMemory_dtor ((m_data v)\<lparr>m_buffer := p\<rparr>) of
             Some m \<Rightarrow> Some ev
           | None \<Rightarrow> None)
      | None \<Rightarrow> None)"

text \<open>\<open>Swap(Vector& other)\<close>, for two different objects.\<close>

definition Swap :: "'a Vector \<Rightarrow> 'a Vector \<Rightarrow> 'a Vector \<times> 'a Vector" where
  "Swap v other =
     (case RawMemory_Swap (m_data v) (m_data other) of
        (d, od) \<Rightarrow> (\<lparr>m_data = d, m_size = m_size other\<rparr>, \<lparr>m_data = od, m_size = m_size v\<rparr>))"

text \<open>The loop \<open>for (size_t i = 0; i < n; ++i) data_[i] = rhs.data_[i];\<close> of the copy
  assignment, at index \<open>i\<close> with \<open>n - i\<close> iterations to go.\<close>

fun assign_loop ::
  "('a, 'b) traits \<Rightarrow> 'a RawMemory \<Rightarrow> 'a RawMemory \<Rightarrow> nat \<Rightarrow> nat \<Rightarrow>
   ('a RawMemory, 'a RawMemory) outcome \<times> 'a event list" where
  "assign_loop T d rd i 0 = (Returns d, [])"
| "assign_loop T d rd i (Suc n) =
     (case (RawMemory_at d i, RawMemory_at rd i) of
        (Some (Obj y), Some (Obj x)) \<Rightarrow>
          if copy_assign_throws T x then (Throws element_exception d, [])
          else
            (case store (m_buffer d) i (Obj x) of
               Some p \<Rightarrow>
                 (case assign_loop T (d\<lparr>m_buffer := p\<rparr>) rd (Suc i) n of
                    (r, ev) \<Rightarrow> (r, CopyAssigned x # ev))
             | None \<Rightarrow> (Undefined, []))
      | _ \<Rightarrow> (Undefined, []))"

text \<open>
  \<open>Vector& operator=(const Vector& rhs)\<close>. The test \<open>this != &rhs\<close> compares the
  addresses of two objects, so the operator is modelled on a store, a function from
  addresses to vector objects; \<open>this\<close> and \<open>rhs\<close> are addresses.
\<close>

definition copy_assign ::
  "('a, 'b) traits \<Rightarrow> nat \<Rightarrow> nat \<Rightarrow> (nat \<Rightarrow> 'a Vector) \<Rightarrow>
   (nat \<Rightarrow> 'a Vector, nat \<Rightarrow> 'a Vector) outcome \<times> 'a event list" where
  "copy_assign T this rhs s =
     (if this \<noteq> rhs then
        (if m_size (s rhs) > m_capacity (m_data (s this)) then
           (case Vector_copy T (s rhs) of
              (Returns rhs_copy, ev) \<Rightarrow>
                (case Swap (s this) rhs_copy of
                   (v, rhs_copy') \<Rightarrow>
                     (case Vector_dtor rhs_copy' of
                        Some ev' \<Rightarrow> (Returns (s(this := v)), ev @ ev')
                      | None \<Rightarrow> (Undefined, ev)))
            | (Throws e u, ev) \<Rightarrow> (Throws e s, ev)
            | (Undefined, ev) \<Rightarrow> (Undefined, ev))
         else
           (if m_size (s rhs) < m_size (s this) then
              (case assign_loop T (m_data (s this)) (m_data (s rhs)) 0 (m_size (s rhs)) of
                 (Returns d, ev) \<Rightarrow>
                   (case destroy_n (m_buffer d) (m_size (s rhs))
                           (m_size (s this) - m_size (s rhs)) of
                      Some (p, ev') \<Rightarrow>
                        (Returns (s(this := \<lparr>m_data = d\<lparr>m_buffer := p\<rparr>,
                                             m_size = m_size (s rhs)\<rparr>)), ev @ ev')
                    | None \<Rightarrow> (Undefined, ev))
               | (Throws e d, ev) \<Rightarrow> (Throws e (s(this := (s this)\<lparr>m_data := d\<rparr>)), ev)
               | (Undefined, ev) \<Rightarrow> (Undefined, ev))
            else
              (case assign_loop T (m_data (s this)) (m_data (s rhs)) 0 (m_size (s this)) of
                 (Returns d, ev) \<Rightarrow>
                   (case uninitialized_copy_n T (m_buffer (m_data (s rhs))) (m_size (s this))
                           (m_size (s rhs) - m_size (s this)) (m_buffer d) (m_size (s this)) of
                      (Returns (src, p), ev') \<Rightarrow>
                        (Returns (s(this := \<lparr>m_data = d\<lparr>m_buffer := p\<rparr>,
                                             m_size = m_size (s rhs)\<rparr>)), ev @ ev')
                    | (Throws e (src, p), ev') \<Rightarrow>
                        (Throws e (s(this := (s this)\<lparr>m_data := d\<lparr>m_buffer := p\<rparr>\<rparr>)),
                         ev @ ev')
                    | (Undefined, ev') \<Rightarrow> (Undefined, ev @ ev'))
               | (Throws e d, ev) \<Rightarrow> (Throws e (s(this := (s this)\<lparr>m_data := d\<rparr>)), ev)
               | (Undefined, ev) \<Rightarrow> (Undefined, ev))))
      else (Returns s, []))"

text \<open>\<open>Vector(Vector&& other)\<close>: the new object and the source afterwards. The member
  initialiser \<open>data_(other.size_)\<close> allocates.\<close>

definition Vector_move ::
  "('a, 'b) traits \<Rightarrow> 'a Vector \<Rightarrow> ('a Vector \<times> 'a Vector, 'a Vector) outcome" where
  "Vector_move T other =
     (case RawMemory_new T (m_size other) of
        None \<Rightarrow> Throws bad_alloc other
      | Some d \<Rightarrow>
          (case RawMemory_Swap d (m_data other) of
             (d', od) \<Rightarrow>
               Returns (\<lparr>m_data = d', m_size = m_size other\<rparr>,
                        other\<lparr>m_data := od, m_size := 0\<rparr>)))"

text \<open>\<open>Vector& operator=(Vector&& rhs)\<close>, on the store: \<open>data_.Swap(rhs.data_)\<close>, then
  \<open>rhs.size_ = 0\<close>.\<close>

definition move_assign :: "nat \<Rightarrow> nat \<Rightarrow> (nat \<Rightarrow> 'a Vector) \<Rightarrow> (nat \<Rightarrow> 'a Vector)" where
  "move_assign this rhs s =
     (case RawMemory_Swap (m_data (s this)) (m_data (s rhs)) of
        (d, rd) \<Rightarrow>
          (let s1 = s(this := (s this)\<lparr>m_data := d\<rparr>);
               s2 = s1(rhs := (s1 rhs)\<lparr>m_data := (if this = rhs then d else rd)\<rparr>)
           in s2(rhs := (s2 rhs)\<lparr>m_size := 0\<rparr>)))"

definition Size :: "'a Vector \<Rightarrow> nat" where
  "Size v = m_size v"

definition Capacity :: "'a Vector \<Rightarrow> nat" where
  "Capacity v = m_capacity (m_data v)"

text \<open>\<open>Vector::operator[]\<close>, with its \<open>assert(index < size_)\<close>.\<close>

definition subscript :: "'a Vector \<Rightarrow> nat \<Rightarrow> 'a slot option" where
  "subscript v index = (if index < m_size v then RawMemory_at (m_data v) index else None)"

definition Reserve ::
  "('a, 'b) traits \<Rightarrow> nat \<Rightarrow> 'a Vector \<Rightarrow>
   ('a Vector, 'a Vector) outcome \<times> 'a event list" where
  "Reserve T new_capacity v =
     (if new_capacity \<le> m_capacity (m_data v) then (Returns v, [])
      else
        (case RawMemory_new T new_capacity of
           None \<Rightarrow> (Throws bad_alloc v, [])
         | Some new_data \<Rightarrow>
             (case (if is_nothrow_move_constructible T \<or> \<not> is_copy_constructible T
                    then uninitialized_move_n T (m_buffer (m_data v)) 0 (m_size v)
                           (m_buffer new_data) 0
                    else uninitialized_copy_n T (m_buffer (m_data v)) 0 (m_size v)
                           (m_buffer new_data) 0) of
                (Undefined, ev) \<Rightarrow> (Undefined, ev)
              | (Throws e (old, new), ev) \<Rightarrow>
                  leave_scope (new_data\<lparr>m_buffer := new\<rparr>)
                    (Throws e (v\<lparr>m_data := (m_data v)\<lparr>m_buffer := old\<rparr>\<rparr>), ev)
              | (Returns (old, new), ev) \<Rightarrow>
                  (case destroy_n old 0 (m_size v) of
                     None \<Rightarrow> (Undefined, ev)
                   | Some (old', ev') \<Rightarrow>
                       (case RawMemory_Swap ((m_data v)\<lparr>m_buffer := old'\<rparr>)
                               (new_data\<lparr>m_buffer := new\<rparr>) of
                          (d, local) \<Rightarrow>
                            leave_scope local (Returns (v\<lparr>m_data := d\<rparr>), ev @ ev'))))))"

definition Resize ::
  "('a, 'b) traits \<Rightarrow> nat \<Rightarrow> 'a Vector \<Rightarrow>
   ('a Vector, 'a Vector) outcome \<times> 'a event list" where
  "Resize T new_size v =
     (case Reserve T new_size v of
        (Returns v1, ev) \<Rightarrow>
          (if m_size v1 < new_size then
             (case uninitialized_value_construct_n T (m_buffer (m_data v1)) (m_size v1)
                     (new_size - m_size v1) of
                (Returns p, ev') \<Rightarrow>
                  (Returns (v1\<lparr>m_data := (m_data v1)\<lparr>m_buffer := p\<rparr>, m_size := new_size\<rparr>),
                   ev @ ev')
              | (Throws e p, ev') \<Rightarrow>
                  (Throws e (v1\<lparr>m_data := (m_data v1)\<lparr>m_buffer := p\<rparr>\<rparr>), ev @ ev')
              | (Undefined, ev') \<Rightarrow> (Undefined, ev @ ev'))
           else if new_size < m_size v1 then
             (case destroy_n (m_buffer (m_data v1)) new_size (m_size v1 - new_size) of
                Some (p, ev') \<Rightarrow>
                  (Returns (v1\<lparr>m_data := (m_data v1)\<lparr>m_buffer := p\<rparr>, m_size := new_size\<rparr>),
                   ev @ ev')
              | None \<Rightarrow> (Undefined, ev))
           else (Returns (v1\<lparr>m_size := new_size\<rparr>), ev))
      | r \<Rightarrow> r)"

text \<open>\<open>EmplaceBack(Args&&... args)\<close>. The reference it returns is to the last element
  of the vector returned here. The arguments are read when the new object is built, in
  both branches from the storage the vector has when the function is called.\<close>

definition EmplaceBack ::
  "('a, 'b) traits \<Rightarrow> ('a, 'b) forwarded \<Rightarrow> 'a Vector \<Rightarrow>
   ('a Vector, 'a Vector) outcome \<times> 'a event list" where
  "EmplaceBack T a v =
     (if m_size v = m_capacity (m_data v) then
        (case RawMemory_new T (if m_size v = 0 then 1 else 2 * m_size v) of
           None \<Rightarrow> (Throws bad_alloc v, [])
         | Some new_data \<Rightarrow>
             (case construct_forwarded T a (m_buffer (m_data v)) (m_size v) of
                Undefined \<Rightarrow> (Undefined, [])
              | Throws e u \<Rightarrow> leave_scope new_data (Throws e v, [])
              | Returns (x, e0, src) \<Rightarrow>
                  (case store (m_buffer new_data) (m_size v) (Obj x) of
                     None \<Rightarrow> (Undefined, [e0])
                   | Some p0 \<Rightarrow>
                       (case (if is_nothrow_move_constructible T \<or> \<not> is_copy_constructible T
                              then uninitialized_move_n T src 0 (m_size v) p0 0
                              else uninitialized_copy_n T src 0 (m_size v) p0 0) of
                          (Undefined, ev) \<Rightarrow> (Undefined, e0 # ev)
                        | (Throws e (old, new), ev) \<Rightarrow>
                            leave_scope (new_data\<lparr>m_buffer := new\<rparr>)
                              (Throws e (v\<lparr>m_data := (m_data v)\<lparr>m_buffer := old\<rparr>\<rparr>), e0 # ev)
                        | (Returns (old, new), ev) \<Rightarrow>
                            (case destroy_n old 0 (m_size v) of
                               None \<Rightarrow> (Undefined, e0 # ev)
                             | Some (old', ev') \<Rightarrow>
                                 (case RawMemory_Swap ((m_data v)\<lparr>m_buffer := old'\<rparr>)
                                         (new_data\<lparr>m_buffer := new\<rparr>) of
                                    (d, local) \<Rightarrow>
                                      leave_scope local
                                        (Returns (v\<lparr>m_data := d, m_size := Suc (m_size v)\<rparr>),
                                         e0 # ev @ ev')))))))
      else
        (case construct_forwarded T a (m_buffer (m_data v)) (m_size v) of
           Undefined \<Rightarrow> (Undefined, [])
         | Throws e u \<Rightarrow> (Throws e v, [])
         | Returns (x, e0, src) \<Rightarrow>
             (case store src (m_size v) (Obj x) of
                None \<Rightarrow> (Undefined, [e0])
              | Some p \<Rightarrow>
                  (Returns (v\<lparr>m_data := (m_data v)\<lparr>m_buffer := p\<rparr>, m_size := Suc (m_size v)\<rparr>),
                   [e0]))))"

text \<open>\<open>PushBack(const T& value)\<close> and \<open>PushBack(T&& value)\<close>.\<close>

definition PushBack ::
  "('a, 'b) traits \<Rightarrow> 'a reference \<Rightarrow> 'a Vector \<Rightarrow>
   ('a Vector, 'a Vector) outcome \<times> 'a event list" where
  "PushBack T val v =
     EmplaceBack T (case val of Object x \<Rightarrow> Outside (ByCopy x) | Element i \<Rightarrow> Lvalue_element i) v"

definition PushBack_rvalue ::
  "('a, 'b) traits \<Rightarrow> 'a reference \<Rightarrow> 'a Vector \<Rightarrow>
   ('a Vector, 'a Vector) outcome \<times> 'a event list" where
  "PushBack_rvalue T val v =
     EmplaceBack T (case val of Object x \<Rightarrow> Outside (ByMove x) | Element i \<Rightarrow> Rvalue_element i) v"

text \<open>
  The two transfers of the reallocating \<open>Emplace\<close>, inside its \<open>try\<close> block: the second
  runs when the first has returned.
\<close>

definition transfer_around ::
  "('a, 'b) traits \<Rightarrow> 'a ptr \<Rightarrow> nat \<Rightarrow> nat \<Rightarrow> 'a ptr \<Rightarrow>
   ('a ptr \<times> 'a ptr, 'a ptr \<times> 'a ptr) outcome \<times> 'a event list" where
  "transfer_around T old pos count new =
     (if is_nothrow_move_constructible T \<or> \<not> is_copy_constructible T then
        (case uninitialized_move_n T old 0 pos new 0 of
           (Returns (old1, new1), ev1) \<Rightarrow>
             (case uninitialized_move_n T old1 pos count new1 (pos + 1) of
                (r, ev2) \<Rightarrow> (r, ev1 @ ev2))
         | r \<Rightarrow> r)
      else
        (case uninitialized_copy_n T old 0 pos new 0 of
           (Returns (old1, new1), ev1) \<Rightarrow>
             (case uninitialized_copy_n T old1 pos count new1 (pos + 1) of
                (r, ev2) \<Rightarrow> (r, ev1 @ ev2))
         | r \<Rightarrow> r))"

text \<open>
  \<open>Emplace(const_iterator position, Args&&... args)\<close>. The iterator is given by its
  offset \<open>pos = position - begin()\<close>, and so is the iterator returned. An iterator
  outside \<open>[begin(), end()]\<close> is a broken caller contract. In the \<open>catch (...)\<close> clause
  the destructor of \<open>new_data\<close> is called and the exception is not rethrown: the
  statements after the \<open>try\<close> block run on both paths. On the path that does not
  reallocate and inserts before the end, \<open>T(std::forward<Args>(args)...)\<close> is built
  after \<open>std::move_backward\<close> has shifted the tail, so an argument that refers to an
  element is read from the shifted storage.
\<close>

definition Emplace ::
  "('a, 'b) traits \<Rightarrow> nat \<Rightarrow> ('a, 'b) forwarded \<Rightarrow> 'a Vector \<Rightarrow>
   ('a Vector \<times> nat, 'a Vector) outcome \<times> 'a event list" where
  "Emplace T pos a v =
     (if m_size v < pos then (Undefined, [])
      else if m_size v = m_capacity (m_data v) then
        (let count = m_size v - pos in
         case RawMemory_new T (if m_size v = 0 then 1 else 2 * m_size v) of
           None \<Rightarrow> (Throws bad_alloc v, [])
         | Some new_data \<Rightarrow>
             (case construct_forwarded T a (m_buffer (m_data v)) (m_size v) of
                Undefined \<Rightarrow> (Undefined, [])
              | Throws e u \<Rightarrow> leave_scope new_data (Throws e v, [])
              | Returns (x, e0, src) \<Rightarrow>
                  (case store (m_buffer new_data) pos (Obj x) of
                     None \<Rightarrow> (Undefined, [e0])
                   | Some p0 \<Rightarrow>
                       (case (case transfer_around T src pos count p0 of
                                (Returns (old, new), ev) \<Rightarrow>
                                  Some (old, new_data\<lparr>m_buffer := new\<rparr>, ev)
                              | (Throws e (old, new), ev) \<Rightarrow>
                                  (case RawMemory_dtor (new_data\<lparr>m_buffer := new\<rparr>) of
                                     Some freed \<Rightarrow> Some (old, freed, ev)
                                   | None \<Rightarrow> None)
                              | (Undefined, ev) \<Rightarrow> None) of
                          None \<Rightarrow> (Undefined, [e0])
                        | Some (old, new_data', ev) \<Rightarrow>
                            (case destroy_n old 0 (m_size v) of
                               None \<Rightarrow> (Undefined, e0 # ev)
                             | Some (old', ev') \<Rightarrow>
                                 (case RawMemory_Swap ((m_data v)\<lparr>m_buffer := old'\<rparr>) new_data' of
                                    (d, local) \<Rightarrow>
                                      leave_scope local
                                        (Returns (v\<lparr>m_data := d, m_size := Suc (m_size v)\<rparr>, pos),
                                         e0 # ev @ ev')))))))
      else if m_size v \<noteq> pos then
        (case RawMemory_at (m_data v) (m_size v - 1) of
           Some (Obj l) \<Rightarrow>
             if move_ctor_throws T l then (Throws element_exception v, [])
             else
               (case store (m_buffer (m_data v)) (m_size v - 1) (Obj (moved_from T l)) of
                  None \<Rightarrow> (Undefined, [])
                | Some p1 \<Rightarrow>
                    (case store p1 (m_size v) (Obj l) of
                       None \<Rightarrow> (Undefined, [])
                     | Some p2 \<Rightarrow>
                         (case std_move_backward T p2 pos (m_size v - 1) (m_size v) of
                            (Undefined, ev) \<Rightarrow> (Undefined, MoveConstructed l # ev)
                          | (Throws e p3, ev) \<Rightarrow>
                              (Throws e (v\<lparr>m_data := (m_data v)\<lparr>m_buffer := p3\<rparr>\<rparr>),
                               MoveConstructed l # ev)
                          | (Returns p3, ev) \<Rightarrow>
                              (case construct_forwarded T a p3 (m_size v) of
                                 Undefined \<Rightarrow> (Undefined, MoveConstructed l # ev)
                               | Throws e u \<Rightarrow>
                                   (Throws e (v\<lparr>m_data := (m_data v)\<lparr>m_buffer := p3\<rparr>\<rparr>),
                                    MoveConstructed l # ev)
                               | Returns (x, e0, p3') \<Rightarrow>
                                   (case RawMemory_at ((m_data v)\<lparr>m_buffer := p3'\<rparr>) pos of
                                      Some (Obj y) \<Rightarrow>
                                        if move_assign_throws T x then
                                          (Throws element_exception
                                             (v\<lparr>m_data := (m_data v)\<lparr>m_buffer := p3'\<rparr>\<rparr>),
                                           MoveConstructed l # ev @ [e0, Destroyed x])
                                        else
                                          (case store p3' pos (Obj x) of
                                             None \<Rightarrow> (Undefined, MoveConstructed l # ev @ [e0])
                                           | Some p4 \<Rightarrow>
                                               (Returns
                                                  (v\<lparr>m_data := (m_data v)\<lparr>m_buffer := p4\<rparr>,
                                                     m_size := Suc (m_size v)\<rparr>, pos),
                                                MoveConstructed l # ev @
                                                  [e0, MoveAssigned x, Destroyed (moved_from T x)]))
                                    | _ \<Rightarrow> (Undefined, MoveConstructed l # ev @ [e0]))))))
         | _ \<Rightarrow> (Undefined, []))
      else
        (case construct_forwarded T a (m_buffer (m_data v)) (m_size v) of
           Undefined \<Rightarrow> (Undefined, [])
         | Throws e u \<Rightarrow> (Throws e v, [])
         | Returns (x, e0, src) \<Rightarrow>
             (case store src pos (Obj x) of
                None \<Rightarrow> (Undefined, [e0])
              | Some p \<Rightarrow>
                  (Returns (v\<lparr>m_data := (m_data v)\<lparr>m_buffer := p\<rparr>, m_size := Suc (m_size v)\<rparr>,
                            pos),
                   [e0]))))"

text \<open>\<open>Insert(position, const T& value)\<close> and \<open>Insert(position, T&& value)\<close>.\<close>

definition Insert ::
  "('a, 'b) traits \<Rightarrow> nat \<Rightarrow> 'a reference \<Rightarrow> 'a Vector \<Rightarrow>
   ('a Vector \<times> nat, 'a Vector) outcome \<times> 'a event list" where
  "Insert T pos val v =
     Emplace T pos (case val of Object x \<Rightarrow> Outside (ByCopy x) | Element i \<Rightarrow> Lvalue_element i) v"

definition Insert_rvalue ::
  "('a, 'b) traits \<Rightarrow> nat \<Rightarrow> 'a reference \<Rightarrow> 'a Vector \<Rightarrow>
   ('a Vector \<times> nat, 'a Vector) outcome \<times> 'a event list" where
  "Insert_rvalue T pos val v =
     Emplace T pos (case val of Object x \<Rightarrow> Outside (ByMove x) | Element i \<Rightarrow> Rvalue_element i) v"

text \<open>\<open>PopBack()\<close>, with its \<open>assert(size_ > 0)\<close>.\<close>

definition PopBack :: "'a Vector \<Rightarrow> ('a Vector \<times> 'a event list) option" where
  "PopBack v =
     (if m_size v > 0 then
        (case RawMemory_at (m_data v) (m_size v - 1) of
           Some (Obj x) \<Rightarrow>
             (case store (m_buffer (m_data v)) (m_size v - 1) Raw of
                Some p \<Rightarrow>
                  Some (v\<lparr>m_data := (m_data v)\<lparr>m_buffer := p\<rparr>, m_size := m_size v - 1\<rparr>,
                        [Destroyed x])
              | None \<Rightarrow> None)
         | _ \<Rightarrow> None)
      else None)"

text \<open>
  \<open>Erase(const_iterator position)\<close>, the iterator given by its offset. The iterator
  must point to an element: with \<open>pos \<ge> size_\<close> the range \<open>[begin() + pos + 1, end())\<close>
  is not a range.
\<close>

definition Erase ::
  "('a, 'b) traits \<Rightarrow> nat \<Rightarrow> 'a Vector \<Rightarrow>
   ('a Vector \<times> nat, 'a Vector) outcome \<times> 'a event list" where
  "Erase T pos v =
     (if m_size v \<le> pos then (Undefined, [])
      else
        (case std_move T (m_buffer (m_data v)) (pos + 1) (m_size v) pos of
           (Undefined, ev) \<Rightarrow> (Undefined, ev)
         | (Throws e p, ev) \<Rightarrow> (Throws e (v\<lparr>m_data := (m_data v)\<lparr>m_buffer := p\<rparr>\<rparr>), ev)
         | (Returns p, ev) \<Rightarrow>
             (case destroy_n p (m_size v - 1) 1 of
                None \<Rightarrow> (Undefined, ev)
              | Some (p', ev') \<Rightarrow>
                  (Returns (v\<lparr>m_data := (m_data v)\<lparr>m_buffer := p'\<rparr>, m_size := m_size v - 1\<rparr>,
                            pos),
                   ev @ ev'))))"

section \<open>Observing a vector\<close>

text \<open>The values of the objects held by a sequence of slots, in order.\<close>

fun objects :: "'a slot list \<Rightarrow> 'a list" where
  "objects [] = []"
| "objects (Raw # ss) = objects ss"
| "objects (Obj x # ss) = x # objects ss"

text \<open>The sequence of element values \<open>v[0], ..., v[Size - 1]\<close>.\<close>

definition elements :: "'a Vector \<Rightarrow> 'a list" where
  "elements v =
     (case m_buffer (m_data v) of
        Block b \<Rightarrow> objects (take (m_size v) b)
      | _ \<Rightarrow> [])"

text \<open>
  The invariant of the class: \<open>size_ \<le> capacity\<close>, the storage is a block of \<open>capacity\<close>
  slots (no block when the capacity is 0), the slots \<open>[0, size_)\<close> hold objects and the
  slots \<open>[size_, capacity)\<close> are uninitialised.
\<close>

definition valid :: "'a Vector \<Rightarrow> bool" where
  "valid v =
     (m_size v \<le> m_capacity (m_data v) \<and>
      (case m_buffer (m_data v) of
         Nullptr \<Rightarrow> m_capacity (m_data v) = 0
       | Block b \<Rightarrow>
           m_capacity (m_data v) \<noteq> 0 \<and> length b = m_capacity (m_data v) \<and>
           list_all (\<lambda>s. s \<noteq> Raw) (take (m_size v) b) \<and>
           list_all (\<lambda>s. s = Raw) (drop (m_size v) b)
       | Dangling \<Rightarrow> False))"

text \<open>The valid vector with the elements \<open>xs\<close> and the capacity \<open>c\<close>.\<close>

definition vector_of :: "'a list \<Rightarrow> nat \<Rightarrow> 'a Vector" where
  "vector_of xs c =
     \<lparr>m_data = \<lparr>m_buffer = (if c = 0 then Nullptr
                            else Block (map Obj xs @ replicate (c - length xs) Raw)),
               m_capacity = c\<rparr>,
      m_size = length xs\<rparr>"

text \<open>
  A caller that appends the elements constructed from a list of arguments outside the
  vector, one call of \<open>EmplaceBack\<close> after the other, and stops at the first call that
  does not return.
\<close>

fun append_all ::
  "('a, 'b) traits \<Rightarrow> ('a, 'b) args list \<Rightarrow> 'a Vector \<Rightarrow>
   ('a Vector, 'a Vector) outcome \<times> 'a event list" where
  "append_all T [] v = (Returns v, [])"
| "append_all T (a # as) v =
     (case EmplaceBack T (Outside a) v of
        (Returns v', ev) \<Rightarrow>
          (case append_all T as v' of (r, ev') \<Rightarrow> (r, ev @ ev'))
      | (r, ev) \<Rightarrow> (r, ev))"

section \<open>Two element types\<close>

text \<open>\<open>int\<close>, of 4 bytes: no operation throws, a moved-from \<open>int\<close> keeps its value,
  and \<open>operator new\<close> succeeds.\<close>

definition T_int :: "(int, int) traits" where
  "T_int =
     \<lparr>is_nothrow_move_constructible = True,
      is_copy_constructible = True,
      construct_from = (\<lambda>i. Some i),
      value_initialized = Some 0,
      copy_ctor_throws = (\<lambda>x. False),
      move_ctor_throws = (\<lambda>x. False),
      moved_from = (\<lambda>x. x),
      copy_assign_throws = (\<lambda>x. False),
      move_assign_throws = (\<lambda>x. False),
      operator_new_fails = (\<lambda>n. False),
      sizeof_T = 4\<rparr>"

text \<open>
  A class of 4 bytes holding an \<open>int\<close> whose move constructor is not declared \<open>noexcept\<close> and
  whose copy constructor throws when the value copied is negative; a moved-from object
  holds 0.
\<close>

definition T_throwing :: "(int, int) traits" where
  "T_throwing =
     \<lparr>is_nothrow_move_constructible = False,
      is_copy_constructible = True,
      construct_from = (\<lambda>i. Some i),
      value_initialized = Some 0,
      copy_ctor_throws = (\<lambda>x. x < 0),
      move_ctor_throws = (\<lambda>x. False),
      moved_from = (\<lambda>x. 0),
      copy_assign_throws = (\<lambda>x. x < 0),
      move_assign_throws = (\<lambda>x. False),
      operator_new_fails = (\<lambda>n. False),
      sizeof_T = 4\<rparr>"

section \<open>The library algorithms on a block\<close>


lemma destroy_n_block:
  "destroy_n (Block (pre @ map Obj xs @ post)) (length pre) (length xs) =
     Some (Block (pre @ replicate (length xs) Raw @ post), map Destroyed xs)"
proof (induction xs arbitrary: pre)
  case Nil
  then show ?case by simp
next
  case (Cons x xs)
  have "destroy_n (Block ((pre @ [Raw]) @ map Obj xs @ post)) (length (pre @ [Raw])) (length xs) =
     Some (Block ((pre @ [Raw]) @ replicate (length xs) Raw @ post), map Destroyed xs)"
    by (rule Cons.IH)
  then show ?case by (simp add: replicate_app_Cons_same)
qed

lemma copy_loop_block:
  assumes "\<forall>x\<in>set xs. \<not> copy_ctor_throws T x" "length hole = length xs"
  shows "copy_loop T (Block (spre @ map Obj xs @ spost)) (length spre) (length xs)
           (Block (dpre @ hole @ dpost)) (length dpre) =
         (Returns (Block (dpre @ map Obj xs @ dpost), length dpre + length xs),
          map CopyConstructed xs)"
  using assms
proof (induction xs arbitrary: spre dpre hole)
  case Nil
  then show ?case by simp
next
  case (Cons x xs)
  then obtain h hole' where h: "hole = h # hole'" "length hole' = length xs"
    by (cases hole) auto
  have IH: "copy_loop T (Block ((spre @ [Obj x]) @ map Obj xs @ spost)) (length (spre @ [Obj x])) (length xs)
           (Block ((dpre @ [Obj x]) @ hole' @ dpost)) (length (dpre @ [Obj x])) =
         (Returns (Block ((dpre @ [Obj x]) @ map Obj xs @ dpost), length (dpre @ [Obj x]) + length xs),
          map CopyConstructed xs)"
    using Cons.prems h by (intro Cons.IH) auto
  show ?case using Cons.prems IH by (simp add: h)
qed

lemma uninitialized_copy_n_block:
  assumes "\<forall>x\<in>set xs. \<not> copy_ctor_throws T x" "length hole = length xs"
  shows "uninitialized_copy_n T (Block (spre @ map Obj xs @ spost)) (length spre) (length xs)
           (Block (dpre @ hole @ dpost)) (length dpre) =
         (Returns (Block (spre @ map Obj xs @ spost), Block (dpre @ map Obj xs @ dpost)),
          map CopyConstructed xs)"
  by (simp add: uninitialized_copy_n_def copy_loop_block [OF assms])

lemma move_loop_block:
  assumes "\<forall>x\<in>set xs. \<not> move_ctor_throws T x" "length hole = length xs"
  shows "move_loop T (Block (spre @ map Obj xs @ spost)) (length spre) (length xs)
           (Block (dpre @ hole @ dpost)) (length dpre) =
         (Returns (Block (spre @ map (\<lambda>x. Obj (moved_from T x)) xs @ spost),
                   Block (dpre @ map Obj xs @ dpost), length dpre + length xs),
          map MoveConstructed xs)"
  using assms
proof (induction xs arbitrary: spre dpre hole)
  case Nil
  then show ?case by simp
next
  case (Cons x xs)
  then obtain h hole' where h: "hole = h # hole'" "length hole' = length xs"
    by (cases hole) auto
  have IH: "move_loop T (Block ((spre @ [Obj (moved_from T x)]) @ map Obj xs @ spost))
           (length (spre @ [Obj (moved_from T x)])) (length xs)
           (Block ((dpre @ [Obj x]) @ hole' @ dpost)) (length (dpre @ [Obj x])) =
         (Returns (Block ((spre @ [Obj (moved_from T x)]) @ map (\<lambda>x. Obj (moved_from T x)) xs @ spost),
                   Block ((dpre @ [Obj x]) @ map Obj xs @ dpost),
                   length (dpre @ [Obj x]) + length xs),
          map MoveConstructed xs)"
    using Cons.prems h by (intro Cons.IH) auto
  show ?case using Cons.prems IH by (simp add: h)
qed

lemma uninitialized_move_n_block:
  assumes "\<forall>x\<in>set xs. \<not> move_ctor_throws T x" "length hole = length xs"
  shows "uninitialized_move_n T (Block (spre @ map Obj xs @ spost)) (length spre) (length xs)
           (Block (dpre @ hole @ dpost)) (length dpre) =
         (Returns (Block (spre @ map (\<lambda>x. Obj (moved_from T x)) xs @ spost),
                   Block (dpre @ map Obj xs @ dpost)),
          map MoveConstructed xs)"
  by (simp add: uninitialized_move_n_def move_loop_block [OF assms])

lemma move_forward_loop_block:
  assumes "\<forall>x\<in>set xs. \<not> move_assign_throws T x"
  shows "move_forward_loop T (Block (pre @ Obj d # map Obj xs @ post)) (Suc (length pre))
           (length xs) (length pre) =
         (Returns (Block (pre @ map Obj xs @
                     Obj (if xs = [] then d else moved_from T (last xs)) # post)),
          map MoveAssigned xs)"
  using assms
proof (induction xs arbitrary: pre d)
  case Nil
  then show ?case by simp
next
  case (Cons x xs)
  have IH: "move_forward_loop T (Block ((pre @ [Obj x]) @ Obj (moved_from T x) # map Obj xs @ post))
           (Suc (length (pre @ [Obj x]))) (length xs) (length (pre @ [Obj x])) =
         (Returns (Block ((pre @ [Obj x]) @ map Obj xs @
                     Obj (if xs = [] then moved_from T x else moved_from T (last xs)) # post)),
          map MoveAssigned xs)"
    using Cons.prems by (intro Cons.IH) auto
  show ?case using Cons.prems IH by (simp add: nth_append list_update_append)
qed

lemma move_backward_loop_block:
  assumes "\<forall>x\<in>set xs. \<not> move_assign_throws T x"
  shows "move_backward_loop T (Block (pre @ map Obj xs @ Obj d # post)) (length xs)
           (length pre + length xs) (Suc (length pre + length xs)) =
         (Returns (Block (pre @ Obj (if xs = [] then d else moved_from T (hd xs)) #
                     map Obj xs @ post)),
          map MoveAssigned (rev xs))"
  using assms
proof (induction xs arbitrary: d post rule: rev_induct)
  case Nil
  then show ?case by simp
next
  case (snoc x xs)
  have IH: "move_backward_loop T (Block (pre @ map Obj xs @ Obj (moved_from T x) # (Obj x # post)))
           (length xs) (length pre + length xs) (Suc (length pre + length xs)) =
         (Returns (Block (pre @ Obj (if xs = [] then moved_from T x else moved_from T (hd xs)) #
                     map Obj xs @ (Obj x # post))),
          map MoveAssigned (rev xs))"
    using snoc.prems by (intro snoc.IH) auto
  have l1: "(pre @ map Obj xs @ Obj x # Obj d # post) ! (length pre + length xs) = Obj x"
    by (simp add: nth_append)
  have l2: "(pre @ map Obj xs @ Obj x # Obj d # post) ! Suc (length pre + length xs) = Obj d"
    by (simp add: nth_append)
  have u: "(pre @ map Obj xs @ Obj x # Obj d # post)
             [Suc (length pre + length xs) := Obj x, length pre + length xs := Obj (moved_from T x)]
           = pre @ map Obj xs @ Obj (moved_from T x) # Obj x # post"
    by (simp add: list_update_append)
  show ?case using snoc.prems IH l1 l2 u by (simp add: hd_append)
qed

lemma Allocate_delivers:
  assumes "0 < sizeof_T T" "n * sizeof_T T \<le> SIZE_MAX" "\<not> operator_new_fails T n" "n \<noteq> 0"
  shows "Allocate T n = Some (Block (replicate n Raw))"
proof -
  have "(n * sizeof_T T) mod (SIZE_MAX + 1) = n * sizeof_T T"
    using assms(2) by simp
  then have "(n * sizeof_T T) mod (SIZE_MAX + 1) div sizeof_T T = n"
    using assms(1) by simp
  then show ?thesis using assms(3,4) by (simp add: Allocate_def)
qed

lemma RawMemory_new_delivers:
  assumes "0 < sizeof_T T" "n * sizeof_T T \<le> SIZE_MAX" "\<not> operator_new_fails T n" "n \<noteq> 0"
  shows "RawMemory_new T n = Some \<lparr>m_buffer = Block (replicate n Raw), m_capacity = n\<rparr>"
  by (simp add: RawMemory_new_def Allocate_delivers [OF assms])

lemma construct_forwarded_Outside:
  "construct T a = Some (x, e0) \<Longrightarrow> construct_forwarded T (Outside a) p n = Returns (x, e0, p)"
  by (simp add: construct_forwarded_def)

lemma construct_forwarded_Outside_throws:
  "construct T a = None \<Longrightarrow> construct_forwarded T (Outside a) p n = Throws element_exception ()"
  by (simp add: construct_forwarded_def)

lemma replicate_update_split:
  "k < m \<Longrightarrow> (replicate m Raw)[k := s] = replicate k Raw @ s # replicate (m - Suc k) (Raw :: 'a slot)"
proof -
  assume k: "k < m"
  then have "replicate m (Raw :: 'a slot) = replicate k Raw @ Raw # replicate (m - Suc k) Raw"
    by (metis Suc_diff_Suc add_Suc_right diff_Suc_Suc le_add_diff_inverse less_imp_le_nat
        replicate_Suc replicate_add)
  then show ?thesis by (simp add: list_update_append)
qed

lemma replicate_split:
  "k \<le> m \<Longrightarrow> replicate m (Raw :: 'a slot) = replicate k Raw @ replicate (m - k) Raw"
  by (metis le_add_diff_inverse replicate_add)

lemma assign_loop_block:
  assumes "\<forall>x\<in>set xs. \<not> copy_assign_throws T x" "length ys = length xs"
    "length rpre = length pre" "length pre + length xs \<le> c" "length pre + length xs \<le> rc"
  shows "assign_loop T \<lparr>m_buffer = Block (pre @ map Obj ys @ post), m_capacity = c\<rparr>
           \<lparr>m_buffer = Block (rpre @ map Obj xs @ rpost), m_capacity = rc\<rparr>
           (length pre) (length xs) =
         (Returns \<lparr>m_buffer = Block (pre @ map Obj xs @ post), m_capacity = c\<rparr>,
          map CopyAssigned xs)"
  using assms
proof (induction xs arbitrary: ys pre rpre)
  case Nil
  then show ?case by simp
next
  case (Cons x xs)
  then obtain y ys' where y: "ys = y # ys'" "length ys' = length xs"
    by (cases ys) auto
  have IH: "assign_loop T \<lparr>m_buffer = Block ((pre @ [Obj x]) @ map Obj ys' @ post), m_capacity = c\<rparr>
           \<lparr>m_buffer = Block ((rpre @ [Obj x]) @ map Obj xs @ rpost), m_capacity = rc\<rparr>
           (length (pre @ [Obj x])) (length xs) =
         (Returns \<lparr>m_buffer = Block ((pre @ [Obj x]) @ map Obj xs @ post), m_capacity = c\<rparr>,
          map CopyAssigned xs)"
    using Cons.prems y by (intro Cons.IH) auto
  have r: "(rpre @ Obj x # map Obj xs @ rpost) ! length pre = Obj x"
    using Cons.prems(3) by (metis nth_append_length)
  show ?case using Cons.prems IH r by (simp add: y RawMemory_at_def)
qed

lemma elements_vector_of: "length xs \<le> c \<Longrightarrow> elements (vector_of xs c) = xs"
proof -
  have o: "\<And>xs :: 'a list. objects (map Obj xs) = xs"
  proof -
    fix xs :: "'a list" show "objects (map Obj xs) = xs" by (induction xs) auto
  qed
  assume "length xs \<le> c"
  then show ?thesis by (auto simp: elements_def vector_of_def o)
qed

lemma valid_vector_of: "length xs \<le> c \<Longrightarrow> valid (vector_of xs c)"
  by (auto simp: valid_def vector_of_def list_all_iff)

lemma objects_all_Raw: "list_all (\<lambda>s. s = Raw) ss \<Longrightarrow> ss = replicate (length ss) Raw"
  by (induction ss) auto

lemma objects_no_Raw: "list_all (\<lambda>s. s \<noteq> Raw) ss \<Longrightarrow> ss = map Obj (objects ss)"
proof (induction ss)
  case Nil
  then show ?case by simp
next
  case (Cons s ss)
  then show ?case by (cases s) auto
qed

lemma valid_is_vector_of:
  assumes "valid v"
  shows "v = vector_of (elements v) (Capacity v) \<and> length (elements v) = Size v \<and> Size v \<le> Capacity v"
proof (cases "m_buffer (m_data v)")
  case Nullptr
  with assms show ?thesis
    by (cases v, cases "m_data v") (auto simp: valid_def vector_of_def elements_def Capacity_def Size_def)
next
  case (Block b)
  with assms have a: "m_size v \<le> m_capacity (m_data v)" "m_capacity (m_data v) \<noteq> 0"
    "length b = m_capacity (m_data v)"
    "list_all (\<lambda>s. s \<noteq> Raw) (take (m_size v) b)" "list_all (\<lambda>s. s = Raw) (drop (m_size v) b)"
    by (auto simp: valid_def)
  have e: "elements v = objects (take (m_size v) b)"
    using Block by (simp add: elements_def)
  have t: "take (m_size v) b = map Obj (elements v)"
    using objects_no_Raw [OF a(4)] e by simp
  have d: "drop (m_size v) b = replicate (m_capacity (m_data v) - m_size v) Raw"
    using objects_all_Raw [OF a(5)] a(3) by simp
  have len: "length (elements v) = m_size v"
    using t a(1) a(3) by (metis length_map length_take min.absorb2)
  have "b = map Obj (elements v) @ replicate (m_capacity (m_data v) - m_size v) Raw"
    using t d by (metis append_take_drop_id)
  then show ?thesis using Block a len
    by (cases v, cases "m_data v") (auto simp: vector_of_def Capacity_def Size_def)
next
  case Dangling
  with assms show ?thesis by (simp add: valid_def)
qed

section \<open>Reallocation\<close>


lemma move_nothing: "uninitialized_move_n T p i 0 q j = (Returns (p, q), [])"
  by (simp add: uninitialized_move_n_def)

lemma copy_nothing: "uninitialized_copy_n T p i 0 q j = (Returns (p, q), [])"
  by (simp add: uninitialized_copy_n_def)

lemma move_into_fresh:
  assumes "\<forall>x\<in>set xs. \<not> move_ctor_throws T x"
  shows "uninitialized_move_n T (Block (map Obj xs @ spost)) 0 (length xs)
           (Block (replicate (length xs) Raw @ dpost)) 0 =
         (Returns (Block (map (\<lambda>x. Obj (moved_from T x)) xs @ spost),
                   Block (map Obj xs @ dpost)),
          map MoveConstructed xs)"
  using uninitialized_move_n_block [of xs T "replicate (length xs) Raw" "[]" spost "[]" dpost]
    assms by simp

lemma copy_into_fresh:
  assumes "\<forall>x\<in>set xs. \<not> copy_ctor_throws T x"
  shows "uninitialized_copy_n T (Block (map Obj xs @ spost)) 0 (length xs)
           (Block (replicate (length xs) Raw @ dpost)) 0 =
         (Returns (Block (map Obj xs @ spost), Block (map Obj xs @ dpost)),
          map CopyConstructed xs)"
  using uninitialized_copy_n_block [of xs T "replicate (length xs) Raw" "[]" spost "[]" dpost]
    assms by simp

lemma destroy_prefix:
  "destroy_n (Block (map Obj xs @ post)) 0 (length xs) =
     Some (Block (replicate (length xs) Raw @ post), map Destroyed xs)"
  using destroy_n_block [of "[]" xs post] by simp

lemma destroy_prefix_moved:
  "destroy_n (Block (map (\<lambda>x. Obj (f x)) xs @ post)) 0 (length xs) =
     Some (Block (replicate (length xs) Raw @ post), map (\<lambda>x. Destroyed (f x)) xs)"
  using destroy_prefix [of "map f xs" post] by (simp add: comp_def)

lemma Reserve_grow:
  assumes len: "length xs \<le> c" and grow: "c < n"
    and sz: "0 < sizeof_T T" and fit: "n * sizeof_T T \<le> SIZE_MAX"
    and alloc: "\<not> operator_new_fails T n"
    and nothrow: "\<forall>x\<in>set xs. \<not> (if is_nothrow_move_constructible T \<or> \<not> is_copy_constructible T
                                    then move_ctor_throws T x else copy_ctor_throws T x)"
  shows "Reserve T n (vector_of xs c) =
           (Returns (vector_of xs n),
            if is_nothrow_move_constructible T \<or> \<not> is_copy_constructible T
            then map MoveConstructed xs @ map Destroyed (map (moved_from T) xs)
            else map CopyConstructed xs @ map Destroyed xs)"
proof -
  have n0: "n \<noteq> 0" using grow by simp
  have lenn: "length xs \<le> n" using len grow by simp
  have new: "RawMemory_new T n =
      Some \<lparr>m_buffer = Block (replicate (length xs) Raw @ replicate (n - length xs) Raw),
            m_capacity = n\<rparr>"
    using RawMemory_new_delivers [OF sz fit alloc n0] replicate_split [OF lenn] by simp
  show ?thesis
  proof (cases "c = 0")
    case True
    then have xs: "xs = []" using len by simp
    show ?thesis
      unfolding Reserve_def
      using True grow n0 new
      by (simp add: xs vector_of_def move_nothing copy_nothing leave_scope_def
          RawMemory_dtor_def RawMemory_Swap_def)
  next
    case False
    show ?thesis
    proof (cases "is_nothrow_move_constructible T \<or> \<not> is_copy_constructible T")
      case True
      with nothrow have nt: "\<forall>x\<in>set xs. \<not> move_ctor_throws T x" by simp
      show ?thesis
        unfolding Reserve_def
        using \<open>c \<noteq> 0\<close> grow n0 True
        by (simp add: vector_of_def new move_into_fresh [OF nt] destroy_prefix_moved
            leave_scope_def RawMemory_dtor_def RawMemory_Swap_def comp_def)
    next
      case False
      with nothrow have nt: "\<forall>x\<in>set xs. \<not> copy_ctor_throws T x" by simp
      show ?thesis
        unfolding Reserve_def
        using \<open>c \<noteq> 0\<close> grow n0 False
        by (simp add: vector_of_def new copy_into_fresh [OF nt] destroy_prefix
            leave_scope_def RawMemory_dtor_def RawMemory_Swap_def)
    qed
  qed
qed

section \<open>Reserve within the capacity\<close>

text \<open>
  Claim C7. For every vector and every \<open>k\<close> with \<open>k \<le> Capacity\<close>, \<open>Reserve(k)\<close> is a
  no-op: it returns with the same vector (the same storage, so the same capacity, size
  and element values, and no reallocation), and no special member function of \<open>T\<close> is
  called.
\<close>

theorem Reserve_within_capacity:
  "k \<le> Capacity v \<Longrightarrow> Reserve T k v = (Returns v, [])"
  by (simp add: Reserve_def Capacity_def)

theorem Reserve_within_capacity_witness:
  "2 \<le> Capacity (vector_of [1, 2, 3 :: int] 4) \<and>
   Reserve T_int 2 (vector_of [1, 2, 3] 4) = (Returns (vector_of [1, 2, 3] 4), [])"
  using Reserve_within_capacity [of 2 "vector_of [1, 2, 3 :: int] 4" T_int]
  by (simp add: Capacity_def vector_of_def)

section \<open>Self-assignment\<close>

text \<open>
  Claim C10. For every vector, the copy assignment of the object at address \<open>a\<close> to itself
  is a no-op: the store is returned as it was, so the size, the capacity and all element
  values are unchanged, and no special member function of \<open>T\<close> is called.
\<close>

theorem self_copy_assign: "copy_assign T a a s = (Returns s, [])"
  by (simp add: copy_assign_def)

section \<open>Move construction\<close>

text \<open>
  Claim C8. For every vector \<open>w\<close>, move-constructing a vector \<open>v\<close> from \<open>w\<close> yields \<open>v\<close>
  with the size and the element values that \<open>w\<close> had, in order (\<open>v\<close> owns the storage
  that \<open>w\<close> owned), and leaves \<open>w\<close> with size 0. The member initialiser
  \<open>data_(other.size_)\<close> allocates a block of \<open>w.Size\<close> slots, so the constructor
  completes when that allocation does.
\<close>

theorem move_construct:
  "Size w = 0 \<or> \<not> operator_new_fails T (Size w) \<Longrightarrow>
   \<exists>v w'. Vector_move T w = Returns (v, w') \<and>
     Size v = Size w \<and> elements v = elements w \<and> m_data v = m_data w \<and> Size w' = 0"
proof -
  assume "Size w = 0 \<or> \<not> operator_new_fails T (Size w)"
  then have "\<exists>p. RawMemory_new T (m_size w) = Some \<lparr>m_buffer = p, m_capacity = m_size w\<rparr>"
    by (auto simp: RawMemory_new_def Allocate_def Size_def)
  then obtain p where
    "RawMemory_new T (m_size w) = Some \<lparr>m_buffer = p, m_capacity = m_size w\<rparr>" ..
  then show ?thesis
    by (simp add: Vector_move_def RawMemory_Swap_def Size_def elements_def split: ptr.split)
qed

theorem move_construct_witness:
  "(Size (vector_of [1, 2, 3 :: int] 4) = 0 \<or>
      \<not> operator_new_fails T_int (Size (vector_of [1, 2, 3 :: int] 4))) \<and>
   (\<exists>v w'. Vector_move T_int (vector_of [1, 2, 3] 4) = Returns (v, w') \<and>
      Size v = 3 \<and> elements v = [1, 2, 3] \<and> Size w' = 0)"
proof -
  have h: "Size (vector_of [1, 2, 3 :: int] 4) = 0 \<or>
      \<not> operator_new_fails T_int (Size (vector_of [1, 2, 3 :: int] 4))"
    by (simp add: T_int_def)
  have e: "elements (vector_of [1, 2, 3 :: int] 4) = [1, 2, 3]"
    by (simp add: elements_vector_of)
  have z: "Size (vector_of [1, 2, 3 :: int] 4) = 3"
    by (simp add: Size_def vector_of_def)
  from move_construct [OF h] obtain v w' where
    "Vector_move T_int (vector_of [1, 2, 3] 4) = Returns (v, w') \<and>
      Size v = Size (vector_of [1, 2, 3 :: int] 4) \<and>
      elements v = elements (vector_of [1, 2, 3 :: int] 4) \<and> Size w' = 0"
    by blast
  with e z have "\<exists>v w'. Vector_move T_int (vector_of [1, 2, 3] 4) = Returns (v, w') \<and>
      Size v = 3 \<and> elements v = [1, 2, 3] \<and> Size w' = 0"
    by auto
  with h show ?thesis by blast
qed

section \<open>The scope of a local block\<close>

lemma snd_leave_scope: "snd (leave_scope l r) = snd r"
  by (simp add: leave_scope_def split: option.split)

lemma leave_scope_allocated:
  "RawMemory_new T n = Some nd \<Longrightarrow> leave_scope nd r = r"
  by (auto simp: leave_scope_def RawMemory_new_def Allocate_def RawMemory_dtor_def
      split: if_splits)

section \<open>Append\<close>


lemma EmplaceBack_room:
  assumes c: "construct_forwarded T a (m_buffer (m_data (vector_of xs c))) (length xs) =
                Returns (x, e0, m_buffer (m_data (vector_of xs c)))"
    and room: "length xs < c"
  shows "EmplaceBack T a (vector_of xs c) = (Returns (vector_of (xs @ [x]) c), [e0])"
proof -
  have "replicate (c - length xs) (Raw :: 'a slot) = Raw # replicate (c - Suc (length xs)) Raw"
    using room by (metis Suc_diff_Suc replicate_Suc)
  then have u: "(map Obj xs @ replicate (c - length xs) Raw)[length xs := Obj x] =
      map Obj xs @ Obj x # replicate (c - Suc (length xs)) Raw"
    by (simp add: list_update_append)
  show ?thesis
    using c room u by (simp add: EmplaceBack_def vector_of_def)
qed

lemma EmplaceBack_grow:
  assumes c: "construct_forwarded T a (m_buffer (m_data (vector_of xs (length xs)))) (length xs) =
                Returns (x, e0, m_buffer (m_data (vector_of xs (length xs))))"
    and sz: "0 < sizeof_T T"
    and fit: "(if length xs = 0 then 1 else 2 * length xs) * sizeof_T T \<le> SIZE_MAX"
    and alloc: "\<not> operator_new_fails T (if length xs = 0 then 1 else 2 * length xs)"
    and nothrow: "\<forall>x\<in>set xs. \<not> (if is_nothrow_move_constructible T \<or> \<not> is_copy_constructible T
                                    then move_ctor_throws T x else copy_ctor_throws T x)"
  shows "EmplaceBack T a (vector_of xs (length xs)) =
           (Returns (vector_of (xs @ [x]) (if length xs = 0 then 1 else 2 * length xs)),
            e0 # (if is_nothrow_move_constructible T \<or> \<not> is_copy_constructible T
                  then map MoveConstructed xs @ map Destroyed (map (moved_from T) xs)
                  else map CopyConstructed xs @ map Destroyed xs))"
proof (cases "xs = []")
  case True
  have new: "RawMemory_new T (Suc 0) = Some \<lparr>m_buffer = Block [Raw], m_capacity = Suc 0\<rparr>"
    using RawMemory_new_delivers [OF sz, of "Suc 0"] fit alloc True by simp
  show ?thesis
    using c True new
    by (simp add: EmplaceBack_def vector_of_def move_nothing copy_nothing leave_scope_def
        RawMemory_dtor_def RawMemory_Swap_def)
next
  case False
  let ?n = "length xs"
  let ?k = "2 * length xs"
  have n0: "?n \<noteq> 0" using False by simp
  have new: "RawMemory_new T ?k = Some \<lparr>m_buffer = Block (replicate ?k Raw), m_capacity = ?k\<rparr>"
    using RawMemory_new_delivers [OF sz, of ?k] fit alloc n0 by simp
  have lt: "?n < ?k" using n0 by simp
  have u: "(replicate ?k Raw)[?n := Obj x] = replicate ?n Raw @ Obj x # replicate (?k - Suc ?n) Raw"
    by (rule replicate_update_split [OF lt])
  have k1: "?k - Suc ?n = ?n - 1" by simp
  show ?thesis
  proof (cases "is_nothrow_move_constructible T \<or> \<not> is_copy_constructible T")
    case True
    with nothrow have nt: "\<forall>x\<in>set xs. \<not> move_ctor_throws T x" by simp
    show ?thesis
      using c n0 True lt
      by (simp add: EmplaceBack_def vector_of_def new u
          move_into_fresh [OF nt, where spost = "[]", simplified]
          destroy_prefix_moved [where post = "[]", simplified]
          leave_scope_def RawMemory_dtor_def RawMemory_Swap_def comp_def
          del: replicate_Suc)
  next
    case False
    with nothrow have nt: "\<forall>x\<in>set xs. \<not> copy_ctor_throws T x" by simp
    show ?thesis
      using c n0 False lt
      by (simp add: EmplaceBack_def vector_of_def new u
          copy_into_fresh [OF nt, where spost = "[]", simplified]
          destroy_prefix [where post = "[]", simplified]
          leave_scope_def RawMemory_dtor_def RawMemory_Swap_def
          del: replicate_Suc)
  qed
qed

lemma EmplaceBack_returns_shape:
  assumes "EmplaceBack T a v = (Returns v', ev)"
  shows "Size v' = Size v + 1 \<and>
         Capacity v' = (if Size v = Capacity v then (if Size v = 0 then 1 else 2 * Size v)
                        else Capacity v)"
proof (cases "m_size v = m_capacity (m_data v)")
  case False
  then show ?thesis
    using assms
    by (auto simp: EmplaceBack_def Size_def Capacity_def split: option.splits outcome.splits)
next
  case True
  let ?k = "if m_size v = 0 then 1 else 2 * m_size v"
  from assms True obtain nd where nd: "RawMemory_new T ?k = Some nd"
    by (cases "RawMemory_new T ?k") (auto simp: EmplaceBack_def)
  then have cap: "m_capacity nd = ?k"
    by (auto simp: RawMemory_new_def split: option.splits)
  from assms True nd obtain x e0 src where
    c: "construct_forwarded T a (m_buffer (m_data v)) (m_size v) = Returns (x, e0, src)"
    by (cases "construct_forwarded T a (m_buffer (m_data v)) (m_size v)")
      (auto simp: EmplaceBack_def leave_scope_def split: option.splits)
  from assms True nd c obtain p0 where p0: "store (m_buffer nd) (m_size v) (Obj x) = Some p0"
    by (cases "store (m_buffer nd) (m_size v) (Obj x)") (auto simp: EmplaceBack_def)
  let ?tr = "if is_nothrow_move_constructible T \<or> \<not> is_copy_constructible T
             then uninitialized_move_n T src 0 (m_size v) p0 0
             else uninitialized_copy_n T src 0 (m_size v) p0 0"
  obtain r tev where tr: "?tr = (r, tev)" by (cases ?tr)
  have eb: "EmplaceBack T a v =
     (case (r, tev) of
        (Undefined, ev) \<Rightarrow> (Undefined, e0 # ev)
      | (Throws e (old, new), ev) \<Rightarrow>
          leave_scope (nd\<lparr>m_buffer := new\<rparr>)
            (Throws e (v\<lparr>m_data := (m_data v)\<lparr>m_buffer := old\<rparr>\<rparr>), e0 # ev)
      | (Returns (old, new), ev) \<Rightarrow>
          (case destroy_n old 0 (m_size v) of
             None \<Rightarrow> (Undefined, e0 # ev)
           | Some (old', ev') \<Rightarrow>
               (case RawMemory_Swap ((m_data v)\<lparr>m_buffer := old'\<rparr>) (nd\<lparr>m_buffer := new\<rparr>) of
                  (d, local) \<Rightarrow>
                    leave_scope local
                      (Returns (v\<lparr>m_data := d, m_size := Suc (m_size v)\<rparr>), e0 # ev @ ev'))))"
    using True nd c p0 tr unfolding EmplaceBack_def by (simp del: One_nat_def)
  have ls: "\<And>l (q :: ('a Vector, 'a Vector) outcome \<times> 'a event list).
      leave_scope l q = (Returns v', ev) \<Longrightarrow> q = (Returns v', ev)"
    by (auto simp: leave_scope_def split: option.splits)
  show ?thesis
  proof (cases r)
    case (Returns on)
    obtain old new where on: "on = (old, new)" by (cases on)
    show ?thesis
    proof (cases "destroy_n old 0 (m_size v)")
      case None
      with eb Returns on assms show ?thesis by simp
    next
      case (Some q)
      obtain old' ev' where q: "q = (old', ev')" by (cases q)
      from eb Returns on Some q
      have e2: "EmplaceBack T a v =
            leave_scope (nd\<lparr>m_buffer := old', m_capacity := m_capacity (m_data v)\<rparr>)
              (Returns (v\<lparr>m_data := (m_data v)\<lparr>m_buffer := new, m_capacity := m_capacity nd\<rparr>,
                          m_size := Suc (m_size v)\<rparr>), e0 # tev @ ev')"
        by (simp add: RawMemory_Swap_def)
      from ls [OF trans [OF e2 [symmetric] assms]] have "v' = v\<lparr>m_data := (m_data v)\<lparr>m_buffer := new, m_capacity := m_capacity nd\<rparr>,
                          m_size := Suc (m_size v)\<rparr>"
        by simp
      then show ?thesis using True cap by (simp add: Size_def Capacity_def)
    qed
  next
    case (Throws e st)
    obtain old new where "st = (old, new)" by (cases st)
    with eb Throws assms show ?thesis
      by (auto simp: leave_scope_def split: option.splits)
  next
    case Undefined
    with eb assms show ?thesis by simp
  qed
qed

lemma Vector_default_vector_of: "Vector_default = vector_of [] 0"
  by (simp add: Vector_default_def RawMemory_default_def vector_of_def)

lemma doubling_step:
  fixes s c :: nat
  assumes "(s = 0 \<and> c = 0) \<or> (\<exists>k. c = 2 ^ k \<and> s \<le> c \<and> c < 2 * s)"
  shows "\<exists>k. (if s = c then (if s = 0 then 1 else 2 * s) else c) = 2 ^ k \<and>
             Suc s \<le> (if s = c then (if s = 0 then 1 else 2 * s) else c) \<and>
             (if s = c then (if s = 0 then 1 else 2 * s) else c) < 2 * Suc s"
  using assms
proof
  assume "s = 0 \<and> c = 0"
  then have "(if s = c then (if s = 0 then 1 else 2 * s) else c) = 2 ^ 0" by simp
  then show ?thesis using \<open>s = 0 \<and> c = 0\<close> by (intro exI [of _ 0]) simp
next
  assume "\<exists>k. c = 2 ^ k \<and> s \<le> c \<and> c < 2 * s"
  then obtain k where k: "c = 2 ^ k" "s \<le> c" "c < 2 * s" by blast
  show ?thesis
  proof (cases "s = c")
    case True
    then have "2 * s = 2 ^ Suc k" using k by simp
    then show ?thesis using True k by (intro exI [of _ "Suc k"]) auto
  next
    case False
    then show ?thesis using k by (intro exI [of _ k]) auto
  qed
qed

lemma append_all_returns:
  assumes "append_all T as v0 = (Returns v, ev)"
    and "(Size v0 = 0 \<and> Capacity v0 = 0) \<or>
         (\<exists>k. Capacity v0 = 2 ^ k \<and> Size v0 \<le> Capacity v0 \<and> Capacity v0 < 2 * Size v0)"
  shows "Size v = Size v0 + length as \<and>
         ((Size v = 0 \<and> Capacity v = 0) \<or>
          (\<exists>k. Capacity v = 2 ^ k \<and> Size v \<le> Capacity v \<and> Capacity v < 2 * Size v))"
  using assms
proof (induction as arbitrary: v0 ev)
  case Nil
  then show ?case by simp
next
  case (Cons a as)
  obtain r1 ev1 where e: "EmplaceBack T (Outside a) v0 = (r1, ev1)"
    by (cases "EmplaceBack T (Outside a) v0")
  show ?case
  proof (cases r1)
    case (Returns v1)
    obtain r2 ev2 where r2: "append_all T as v1 = (r2, ev2)" by (cases "append_all T as v1")
    with Cons.prems(1) e Returns have r: "append_all T as v1 = (Returns v, ev2)" by simp
    from EmplaceBack_returns_shape [OF e [unfolded Returns]]
    have sh: "Size v1 = Size v0 + 1"
      "Capacity v1 = (if Size v0 = Capacity v0 then (if Size v0 = 0 then 1 else 2 * Size v0)
                      else Capacity v0)"
      by simp_all
    from doubling_step [OF Cons.prems(2)] sh
    have "\<exists>k. Capacity v1 = 2 ^ k \<and> Size v1 \<le> Capacity v1 \<and> Capacity v1 < 2 * Size v1"
      by simp
    then have "(Size v1 = 0 \<and> Capacity v1 = 0) \<or>
         (\<exists>k. Capacity v1 = 2 ^ k \<and> Size v1 \<le> Capacity v1 \<and> Capacity v1 < 2 * Size v1)"
      by blast
    from Cons.IH [OF r this] sh show ?thesis by auto
  next
    case (Throws e' st)
    with Cons.prems(1) e show ?thesis by simp
  next
    case Undefined
    with Cons.prems(1) e show ?thesis by simp
  qed
qed

lemma smallest_power:
  fixes n c :: nat
  assumes "c = 2 ^ k" "c < 2 * n" "n \<le> 2 ^ j"
  shows "c \<le> 2 ^ j"
proof -
  have "(2::nat) ^ k < 2 ^ Suc j" using assms by simp
  then have "k < Suc j" using power_less_imp_less_exp [of 2 k "Suc j"] by simp
  then have "k \<le> j" by simp
  then show ?thesis using assms(1) by (simp add: power_increasing)
qed

lemma append_all_total:
  assumes alloc: "\<forall>n. \<not> operator_new_fails T n"
    and nothrow: "\<forall>x. \<not> copy_ctor_throws T x \<and> \<not> move_ctor_throws T x"
    and cons: "\<forall>a\<in>set as. construct T a \<noteq> None"
    and sz: "0 < sizeof_T T"
    and fit: "2 * (length xs + length as) * sizeof_T T \<le> SIZE_MAX"
    and len: "length xs \<le> c"
  shows "\<exists>c' ev. append_all T as (vector_of xs c) =
           (Returns (vector_of (xs @ map (\<lambda>a. fst (the (construct T a))) as) c'), ev) \<and>
           length xs + length as \<le> c'"
  using cons fit len
proof (induction as arbitrary: xs c)
  case Nil
  then show ?case by (auto intro: exI [of _ c])
next
  case (Cons a as)
  then obtain x e0 where c: "construct T a = Some (x, e0)" by fastforce
  note cf = construct_forwarded_Outside [OF c]
  have "\<exists>c1. EmplaceBack T (Outside a) (vector_of xs c) = (Returns (vector_of (xs @ [x]) c1),
            snd (EmplaceBack T (Outside a) (vector_of xs c))) \<and> length (xs @ [x]) \<le> c1"
  proof (cases "length xs = c")
    case True
    have nt: "\<forall>x\<in>set xs. \<not> (if is_nothrow_move_constructible T \<or> \<not> is_copy_constructible T
                                    then move_ctor_throws T x else copy_ctor_throws T x)"
      using nothrow by simp
    have al: "\<not> operator_new_fails T (if length xs = 0 then 1 else 2 * length xs)"
      using alloc by simp
    have "(if length xs = 0 then 1 else 2 * length xs) \<le> 2 * (length xs + length (a # as))"
      by simp
    then have "(if length xs = 0 then 1 else 2 * length xs) * sizeof_T T \<le>
        2 * (length xs + length (a # as)) * sizeof_T T"
      by (rule mult_le_mono1)
    then have ft: "(if length xs = 0 then 1 else 2 * length xs) * sizeof_T T \<le> SIZE_MAX"
      using Cons.prems(2) by (rule le_trans)
    from EmplaceBack_grow [OF cf sz ft al nt] True show ?thesis
      by (intro exI [of _ "if length xs = 0 then 1 else 2 * length xs"]) auto
  next
    case False
    with Cons.prems have "length xs < c" by simp
    from EmplaceBack_room [OF cf this] this show ?thesis
      by (intro exI [of _ c]) auto
  qed
  then obtain c1 where s1: "EmplaceBack T (Outside a) (vector_of xs c) =
      (Returns (vector_of (xs @ [x]) c1), snd (EmplaceBack T (Outside a) (vector_of xs c)))"
    and l1: "length (xs @ [x]) \<le> c1" by blast
  from Cons.prems have ca: "\<forall>a\<in>set as. construct T a \<noteq> None" by simp
  from Cons.prems(2) have f1: "2 * (length (xs @ [x]) + length as) * sizeof_T T \<le> SIZE_MAX"
    by simp
  from Cons.IH [OF ca f1 l1] obtain c' ev where
    r: "append_all T as (vector_of (xs @ [x]) c1) =
           (Returns (vector_of ((xs @ [x]) @ map (\<lambda>a. fst (the (construct T a))) as) c'), ev)"
    and l: "length (xs @ [x]) + length as \<le> c'" by blast
  have "append_all T (a # as) (vector_of xs c) =
      (Returns (vector_of (xs @ map (\<lambda>a. fst (the (construct T a))) (a # as)) c'),
       snd (EmplaceBack T (Outside a) (vector_of xs c)) @ ev)"
    using r c by (subst append_all.simps, subst s1) simp
  then show ?case using l by auto
qed

section \<open>Insertion and removal\<close>


lemma transfer_around_block:
  assumes nothrow: "\<forall>x\<in>set (ys @ zs).
      \<not> (if is_nothrow_move_constructible T \<or> \<not> is_copy_constructible T
         then move_ctor_throws T x else copy_ctor_throws T x)"
  shows "transfer_around T (Block (map Obj ys @ map Obj zs @ spost)) (length ys) (length zs)
           (Block (replicate (length ys) Raw @ s # replicate (length zs) Raw @ dpost)) =
         (Returns
            (Block (map Obj (if is_nothrow_move_constructible T \<or> \<not> is_copy_constructible T
                             then map (moved_from T) (ys @ zs) else ys @ zs) @ spost),
             Block (map Obj ys @ s # map Obj zs @ dpost)),
          if is_nothrow_move_constructible T \<or> \<not> is_copy_constructible T
          then map MoveConstructed (ys @ zs) else map CopyConstructed (ys @ zs))"
proof (cases "is_nothrow_move_constructible T \<or> \<not> is_copy_constructible T")
  case True
  with nothrow have ny: "\<forall>x\<in>set ys. \<not> move_ctor_throws T x"
    and nz: "\<forall>x\<in>set zs. \<not> move_ctor_throws T x" by auto
  have one: "uninitialized_move_n T (Block (map Obj ys @ map Obj zs @ spost)) 0 (length ys)
           (Block (replicate (length ys) Raw @ s # replicate (length zs) Raw @ dpost)) 0 =
         (Returns (Block (map (\<lambda>x. Obj (moved_from T x)) ys @ map Obj zs @ spost),
                   Block (map Obj ys @ s # replicate (length zs) Raw @ dpost)),
          map MoveConstructed ys)"
    by (rule move_into_fresh [OF ny])
  have two: "uninitialized_move_n T (Block (map (\<lambda>x. Obj (moved_from T x)) ys @ map Obj zs @ spost))
           (length ys) (length zs)
           (Block (map Obj ys @ s # replicate (length zs) Raw @ dpost)) (Suc (length ys)) =
         (Returns (Block (map (\<lambda>x. Obj (moved_from T x)) ys @
                          map (\<lambda>x. Obj (moved_from T x)) zs @ spost),
                   Block (map Obj ys @ s # map Obj zs @ dpost)),
          map MoveConstructed zs)"
    using uninitialized_move_n_block [of zs T "replicate (length zs) Raw"
        "map (\<lambda>x. Obj (moved_from T x)) ys" spost "map Obj ys @ [s]" dpost, OF nz]
    by simp
  show ?thesis
    unfolding transfer_around_def using True by (simp add: one two comp_def)
next
  case False
  with nothrow have ny: "\<forall>x\<in>set ys. \<not> copy_ctor_throws T x"
    and nz: "\<forall>x\<in>set zs. \<not> copy_ctor_throws T x" by auto
  have one: "uninitialized_copy_n T (Block (map Obj ys @ map Obj zs @ spost)) 0 (length ys)
           (Block (replicate (length ys) Raw @ s # replicate (length zs) Raw @ dpost)) 0 =
         (Returns (Block (map Obj ys @ map Obj zs @ spost),
                   Block (map Obj ys @ s # replicate (length zs) Raw @ dpost)),
          map CopyConstructed ys)"
    by (rule copy_into_fresh [OF ny])
  have two: "uninitialized_copy_n T (Block (map Obj ys @ map Obj zs @ spost))
           (length ys) (length zs)
           (Block (map Obj ys @ s # replicate (length zs) Raw @ dpost)) (Suc (length ys)) =
         (Returns (Block (map Obj ys @ map Obj zs @ spost),
                   Block (map Obj ys @ s # map Obj zs @ dpost)),
          map CopyConstructed zs)"
    using uninitialized_copy_n_block [of zs T "replicate (length zs) Raw"
        "map Obj ys" spost "map Obj ys @ [s]" dpost, OF nz]
    by simp
  show ?thesis
    unfolding transfer_around_def using False by (simp add: one two)
qed

lemma transfer_around_nothing:
  "transfer_around T p 0 0 q = (Returns (p, q), [])"
  by (simp add: transfer_around_def move_nothing copy_nothing)

lemma Emplace_grow_steps:
  assumes "pos \<le> m_size v" "m_size v = m_capacity (m_data v)"
    "RawMemory_new T (if m_size v = 0 then 1 else 2 * m_size v) = Some nd"
    "construct_forwarded T a (m_buffer (m_data v)) (m_size v) = Returns (x, e0, src)"
    "store (m_buffer nd) pos (Obj x) = Some p0"
    "transfer_around T src pos (m_size v - pos) p0 = (Returns (old, new), ev)"
    "destroy_n old 0 (m_size v) = Some (old', ev')"
    "old' \<noteq> Dangling"
  shows "Emplace T pos a v =
           (Returns (v\<lparr>m_data := \<lparr>m_buffer = new, m_capacity = m_capacity nd\<rparr>,
                       m_size := Suc (m_size v)\<rparr>, pos),
            e0 # ev @ ev')"
proof -
  have d: "RawMemory_dtor (nd\<lparr>m_buffer := old', m_capacity := m_capacity (m_data v)\<rparr>) \<noteq> None"
    using assms(8) by (cases old') (simp_all add: RawMemory_dtor_def)
  show ?thesis
    unfolding Emplace_def Let_def
    using assms(1-7) d
    by (cases nd) (auto simp add: leave_scope_def RawMemory_Swap_def simp del: One_nat_def)
qed

lemma Emplace_grow:
  assumes c: "construct_forwarded T a (m_buffer (m_data (vector_of (ys @ zs) (length (ys @ zs)))))
                (length (ys @ zs)) =
              Returns (x, e0, m_buffer (m_data (vector_of (ys @ zs) (length (ys @ zs)))))"
    and sz: "0 < sizeof_T T"
    and fit: "(if length (ys @ zs) = 0 then 1 else 2 * length (ys @ zs)) * sizeof_T T \<le> SIZE_MAX"
    and alloc: "\<not> operator_new_fails T (if length (ys @ zs) = 0 then 1 else 2 * length (ys @ zs))"
    and nothrow: "\<forall>x\<in>set (ys @ zs).
      \<not> (if is_nothrow_move_constructible T \<or> \<not> is_copy_constructible T
         then move_ctor_throws T x else copy_ctor_throws T x)"
  shows "Emplace T (length ys) a (vector_of (ys @ zs) (length (ys @ zs))) =
           (Returns (vector_of (ys @ x # zs)
                       (if length (ys @ zs) = 0 then 1 else 2 * length (ys @ zs)),
                     length ys),
            e0 # (if is_nothrow_move_constructible T \<or> \<not> is_copy_constructible T
                  then map MoveConstructed (ys @ zs) @
                       map Destroyed (map (moved_from T) (ys @ zs))
                  else map CopyConstructed (ys @ zs) @ map Destroyed (ys @ zs)))"
proof (cases "ys @ zs = []")
  case True
  have new: "RawMemory_new T (Suc 0) = Some \<lparr>m_buffer = Block [Raw], m_capacity = Suc 0\<rparr>"
    using RawMemory_new_delivers [OF sz, of "Suc 0"] fit alloc True by simp
  show ?thesis
    using c True new
    by (simp add: Emplace_def vector_of_def transfer_around_nothing leave_scope_def
        RawMemory_dtor_def RawMemory_Swap_def)
next
  case False
  let ?n = "length ys + length zs"
  let ?k = "2 * ?n"
  let ?cond = "is_nothrow_move_constructible T \<or> \<not> is_copy_constructible T"
  let ?left = "if ?cond then map (moved_from T) (ys @ zs) else ys @ zs"
  let ?v = "vector_of (ys @ zs) (length (ys @ zs))"
  let ?rest = "replicate (?k - Suc ?n) (Raw :: 'a slot)"
  let ?nd = "\<lparr>m_buffer = Block (replicate ?k Raw), m_capacity = ?k\<rparr> :: 'a RawMemory"
  have n0: "?n \<noteq> 0" using False by simp
  have msz: "m_size ?v = ?n" by (simp add: vector_of_def)
  have cap: "m_capacity (m_data ?v) = ?n" by (simp add: vector_of_def)
  have buf: "m_buffer (m_data ?v) = Block (map Obj ys @ map Obj zs)"
    using n0 by (simp add: vector_of_def)
  have al: "\<not> operator_new_fails T ?k"
    using alloc False by (auto split: if_splits)
  have ft: "?k * sizeof_T T \<le> SIZE_MAX"
    using fit False by (auto split: if_splits)
  have k: "(if m_size ?v = 0 then 1 else 2 * m_size ?v) = ?k"
    using n0 by (simp only: msz if_False)
  have k0: "?k \<noteq> 0" using n0 by simp
  have new: "RawMemory_new T (if m_size ?v = 0 then 1 else 2 * m_size ?v) = Some ?nd"
    unfolding k by (rule RawMemory_new_delivers [OF sz ft al k0])
  have c': "construct_forwarded T a (m_buffer (m_data ?v)) (m_size ?v) =
      Returns (x, e0, m_buffer (m_data ?v))"
    using c by (simp add: vector_of_def)
  have lt: "length ys < ?k" using n0 by simp
  have r2: "replicate (?k - Suc (length ys)) (Raw :: 'a slot) = replicate (length zs) Raw @ ?rest"
  proof -
    have "?k - Suc (length ys) = length zs + (?k - Suc ?n)" using n0 by arith
    then show ?thesis by (simp only: replicate_add)
  qed
  have u: "(replicate ?k Raw)[length ys := Obj x] =
      replicate (length ys) Raw @ Obj x # replicate (length zs) Raw @ ?rest"
    using replicate_update_split [OF lt, of "Obj x"] r2 by simp
  have st: "store (m_buffer ?nd) (length ys) (Obj x) =
      Some (Block (replicate (length ys) Raw @ Obj x # replicate (length zs) Raw @ ?rest))"
    using lt u by simp
  have tr: "transfer_around T (m_buffer (m_data ?v)) (length ys) (m_size ?v - length ys)
           (Block (replicate (length ys) Raw @ Obj x # replicate (length zs) Raw @ ?rest)) =
         (Returns (Block (map Obj ?left), Block (map Obj ys @ Obj x # map Obj zs @ ?rest)),
          if ?cond then map MoveConstructed (ys @ zs) else map CopyConstructed (ys @ zs))"
    unfolding buf msz
    using transfer_around_block [OF nothrow, of "[]" "Obj x" ?rest]
    by simp
  have ll: "length ?left = ?n" by simp
  have de: "destroy_n (Block (map Obj ?left)) 0 (m_size ?v) =
      Some (Block (replicate ?n Raw), map Destroyed ?left)"
    unfolding msz
    using destroy_prefix [of ?left "[]"] by (simp only: ll append_Nil2)
  have pos: "length ys \<le> m_size ?v" unfolding msz by simp
  have full: "m_size ?v = m_capacity (m_data ?v)" unfolding msz cap ..
  have eq: "Emplace T (length ys) a ?v =
      (Returns (?v\<lparr>m_data := \<lparr>m_buffer = Block (map Obj ys @ Obj x # map Obj zs @ ?rest),
                                m_capacity = m_capacity ?nd\<rparr>,
                    m_size := Suc (m_size ?v)\<rparr>, length ys),
       e0 # (if ?cond then map MoveConstructed (ys @ zs) else map CopyConstructed (ys @ zs)) @
            map Destroyed ?left)"
    by (rule Emplace_grow_steps [OF pos full new c' st tr de]) simp
  show ?thesis
    unfolding eq using n0 by (simp add: vector_of_def)
qed

lemma Emplace_end:
  assumes c: "construct_forwarded T a (m_buffer (m_data (vector_of xs c))) (length xs) =
                Returns (x, e0, m_buffer (m_data (vector_of xs c)))"
    and room: "length xs < c"
  shows "Emplace T (length xs) a (vector_of xs c) =
           (Returns (vector_of (xs @ [x]) c, length xs), [e0])"
proof -
  have "replicate (c - length xs) (Raw :: 'a slot) = Raw # replicate (c - Suc (length xs)) Raw"
    using room by (metis Suc_diff_Suc replicate_Suc)
  then have u: "(map Obj xs @ replicate (c - length xs) Raw)[length xs := Obj x] =
      map Obj xs @ Obj x # replicate (c - Suc (length xs)) Raw"
    by (simp add: list_update_append)
  show ?thesis
    using c room u by (simp add: Emplace_def vector_of_def)
qed

lemma Emplace_room_steps:
  assumes "pos < m_size v" "m_size v \<noteq> m_capacity (m_data v)"
    "RawMemory_at (m_data v) (m_size v - 1) = Some (Obj l)" "\<not> move_ctor_throws T l"
    "store (m_buffer (m_data v)) (m_size v - 1) (Obj (moved_from T l)) = Some p1"
    "store p1 (m_size v) (Obj l) = Some p2"
    "std_move_backward T p2 pos (m_size v - 1) (m_size v) = (Returns p3, ev)"
    "construct_forwarded T a p3 (m_size v) = Returns (x, e0, p3')"
    "RawMemory_at ((m_data v)\<lparr>m_buffer := p3'\<rparr>) pos = Some (Obj y)"
    "\<not> move_assign_throws T x"
    "store p3' pos (Obj x) = Some p4"
  shows "Emplace T pos a v =
           (Returns (v\<lparr>m_data := (m_data v)\<lparr>m_buffer := p4\<rparr>, m_size := Suc (m_size v)\<rparr>, pos),
            MoveConstructed l # ev @ [e0, MoveAssigned x, Destroyed (moved_from T x)])"
  unfolding Emplace_def Let_def
  using assms by (simp del: One_nat_def)

lemma Emplace_room:
  assumes c: "construct T a = Some (x, e0)"
    and room: "length (ys @ zs @ [l]) < c"
    and nothrow: "\<not> move_ctor_throws T l" "\<forall>z\<in>set zs. \<not> move_assign_throws T z"
      "\<not> move_assign_throws T x"
  shows "Emplace T (length ys) (Outside a) (vector_of (ys @ zs @ [l]) c) =
           (Returns (vector_of (ys @ x # zs @ [l]) c, length ys),
            MoveConstructed l # map MoveAssigned (rev zs) @
              [e0, MoveAssigned x, Destroyed (moved_from T x)])"
proof -
  let ?n = "Suc (length ys + length zs)"
  let ?v = "vector_of (ys @ zs @ [l]) c"
  let ?rest = "replicate (c - Suc ?n) (Raw :: 'a slot)"
  let ?y = "if zs = [] then moved_from T l else moved_from T (hd zs)"
  have c0: "c \<noteq> 0" and lt: "?n < c" using room by simp_all
  have sz: "m_size ?v = ?n" by (simp add: vector_of_def)
  have cap: "m_capacity (m_data ?v) = c" by (simp add: vector_of_def)
  have r: "replicate (c - ?n) (Raw :: 'a slot) = Raw # ?rest"
    using lt by (metis Suc_diff_Suc replicate_Suc)
  have buf: "m_buffer (m_data ?v) = Block ((map Obj ys @ map Obj zs) @ Obj l # Raw # ?rest)"
    using c0 r by (simp add: vector_of_def)
  have len: "length (map Obj ys @ map Obj zs) = ?n - 1" by simp
  have a1: "RawMemory_at (m_data ?v) (m_size ?v - 1) = Some (Obj l)"
    unfolding RawMemory_at_def sz cap buf using lt
    by (simp only: load.simps len [symmetric] nth_append_length) simp
  have s1: "store (m_buffer (m_data ?v)) (m_size ?v - 1) (Obj (moved_from T l)) =
      Some (Block ((map Obj ys @ map Obj zs) @ Obj (moved_from T l) # Raw # ?rest))"
    unfolding sz buf
    by (simp only: len [symmetric] store.simps list_update_length) simp
  have s2: "store (Block ((map Obj ys @ map Obj zs) @ Obj (moved_from T l) # Raw # ?rest))
      (m_size ?v) (Obj l) =
      Some (Block (map Obj ys @ map Obj zs @ Obj (moved_from T l) # Obj l # ?rest))"
    unfolding sz by (simp add: list_update_append)
  have mb: "std_move_backward T
      (Block (map Obj ys @ map Obj zs @ Obj (moved_from T l) # Obj l # ?rest))
      (length ys) (m_size ?v - 1) (m_size ?v) =
      (Returns (Block (map Obj ys @ Obj ?y # map Obj zs @ Obj l # ?rest)),
       map MoveAssigned (rev zs))"
    unfolding sz std_move_backward_def
    using move_backward_loop_block [OF nothrow(2), of "map Obj ys" "moved_from T l" "Obj l # ?rest"]
    by simp
  have a2: "RawMemory_at ((m_data ?v)\<lparr>m_buffer :=
        Block (map Obj ys @ Obj ?y # map Obj zs @ Obj l # ?rest)\<rparr>) (length ys) = Some (Obj ?y)"
  proof -
    have "length ys < c" using lt by simp
    then show ?thesis
      unfolding RawMemory_at_def by (simp add: vector_of_def nth_append)
  qed
  have s4: "store (Block (map Obj ys @ Obj ?y # map Obj zs @ Obj l # ?rest)) (length ys) (Obj x) =
      Some (Block (map Obj ys @ Obj x # map Obj zs @ Obj l # ?rest))"
    by (simp add: list_update_append)
  have pos: "length ys < m_size ?v" unfolding sz by simp
  have nf: "m_size ?v \<noteq> m_capacity (m_data ?v)" unfolding sz cap using lt by simp
  note cf = construct_forwarded_Outside [OF c]
  have eq: "Emplace T (length ys) (Outside a) ?v =
      (Returns (?v\<lparr>m_data := (m_data ?v)\<lparr>m_buffer :=
                   Block (map Obj ys @ Obj x # map Obj zs @ Obj l # ?rest)\<rparr>,
                   m_size := Suc (m_size ?v)\<rparr>, length ys),
       MoveConstructed l # map MoveAssigned (rev zs) @
         [e0, MoveAssigned x, Destroyed (moved_from T x)])"
    by (rule Emplace_room_steps [OF pos nf a1 nothrow(1) s1 s2 mb cf a2 nothrow(3) s4])
  show ?thesis
    unfolding eq using c0 by (simp add: vector_of_def)
qed

lemma Erase_steps:
  assumes "pos < m_size v"
    "std_move T (m_buffer (m_data v)) (pos + 1) (m_size v) pos = (Returns p, ev)"
    "destroy_n p (m_size v - 1) 1 = Some (p', ev')"
  shows "Erase T pos v =
           (Returns (v\<lparr>m_data := (m_data v)\<lparr>m_buffer := p'\<rparr>, m_size := m_size v - 1\<rparr>, pos),
            ev @ ev')"
  unfolding Erase_def
  using assms by (simp del: One_nat_def destroy_n.simps)

lemma Erase_vector_of:
  assumes len: "length (ys @ x # zs) \<le> c"
    and nothrow: "\<forall>z\<in>set zs. \<not> move_assign_throws T z"
  shows "Erase T (length ys) (vector_of (ys @ x # zs) c) =
           (Returns (vector_of (ys @ zs) c, length ys),
            map MoveAssigned zs @ [Destroyed (if zs = [] then x else moved_from T (last zs))])"
proof -
  let ?n = "Suc (length ys + length zs)"
  let ?v = "vector_of (ys @ x # zs) c"
  let ?rest = "replicate (c - ?n) (Raw :: 'a slot)"
  let ?w = "if zs = [] then x else moved_from T (last zs)"
  have c0: "c \<noteq> 0" and le: "?n \<le> c" using len by simp_all
  have sz: "m_size ?v = ?n" by (simp add: vector_of_def)
  have buf: "m_buffer (m_data ?v) = Block (map Obj ys @ Obj x # map Obj zs @ ?rest)"
    using c0 by (simp add: vector_of_def)
  have mv: "std_move T (m_buffer (m_data ?v)) (length ys + 1) (m_size ?v) (length ys) =
      (Returns (Block ((map Obj ys @ map Obj zs) @ map Obj [?w] @ ?rest)), map MoveAssigned zs)"
    unfolding sz buf std_move_def
    using move_forward_loop_block [OF nothrow, of "map Obj ys" x ?rest]
    by simp
  have len2: "length (map Obj ys @ map Obj zs) = m_size ?v - 1" unfolding sz by simp
  have de: "destroy_n (Block ((map Obj ys @ map Obj zs) @ map Obj [?w] @ ?rest)) (m_size ?v - 1) 1 =
      Some (Block ((map Obj ys @ map Obj zs) @ replicate (length [?w]) Raw @ ?rest),
            map Destroyed [?w])"
    unfolding len2 [symmetric]
    using destroy_n_block [of "map Obj ys @ map Obj zs" "[?w]" ?rest] by simp
  have pos: "length ys < m_size ?v" unfolding sz by simp
  have eq: "Erase T (length ys) ?v =
      (Returns (?v\<lparr>m_data := (m_data ?v)\<lparr>m_buffer :=
                   Block ((map Obj ys @ map Obj zs) @ replicate (length [?w]) Raw @ ?rest)\<rparr>,
                   m_size := m_size ?v - 1\<rparr>, length ys),
       map MoveAssigned zs @ map Destroyed [?w])"
    by (rule Erase_steps [OF pos mv de])
  have r: "Raw # ?rest = replicate (c - (length ys + length zs)) Raw"
    using le by (metis Suc_diff_le diff_Suc_Suc replicate_Suc)
  show ?thesis
    unfolding eq using c0 r by (simp add: vector_of_def)
qed

lemma valid_cases:
  assumes "valid v"
  obtains xs c where "v = vector_of xs c" "length xs \<le> c" "elements v = xs" "Size v = length xs"
    "Capacity v = c"
proof -
  from valid_is_vector_of [OF assms]
  have "v = vector_of (elements v) (Capacity v)" "length (elements v) \<le> Capacity v"
    "Size v = length (elements v)"
    by simp_all
  then show ?thesis using that by blast
qed

lemma Capacity_vector_of: "Capacity (vector_of xs c) = c"
  by (simp add: Capacity_def vector_of_def)

lemma Size_vector_of: "Size (vector_of xs c) = length xs"
  by (simp add: Size_def vector_of_def)

section \<open>The constructors called by a transfer\<close>

text \<open>
  Whatever the outcome, \<open>std::uninitialized_move_n\<close> calls no constructor but the move
  constructor, and \<open>std::uninitialized_copy_n\<close> none but the copy constructor; both
  call destructors when they roll back.
\<close>

lemma destroy_n_events:
  "destroy_n p first n = Some (q, ev) \<Longrightarrow> set ev \<subseteq> range Destroyed"
proof (induction n arbitrary: p first q ev)
  case 0
  then show ?case by simp
next
  case (Suc n)
  from Suc.prems obtain x p' ev' where "ev = Destroyed x # ev'"
    "destroy_n p' (Suc first) n = Some (q, ev')"
    by (auto split: option.splits slot.splits)
  with Suc.IH [of p' "Suc first" q ev'] show ?case by auto
qed

lemma copy_loop_events:
  "set (snd (copy_loop T src first n dst current)) \<subseteq> range CopyConstructed"
proof (induction n arbitrary: first dst current)
  case 0
  then show ?case by simp
next
  case (Suc n)
  show ?case
  proof (cases "load src first")
    case None
    then show ?thesis by simp
  next
    case (Some s)
    show ?thesis
    proof (cases s)
      case Raw
      with Some show ?thesis by simp
    next
      case (Obj x)
      show ?thesis
      proof (cases "store dst current (Obj x)")
        case None
        with Some Obj show ?thesis by simp
      next
        case (Some dst')
        obtain r ev where l: "copy_loop T src (Suc first) n dst' (Suc current) = (r, ev)"
          by (cases "copy_loop T src (Suc first) n dst' (Suc current)")
        from Suc.IH [of "Suc first" dst' "Suc current"] l
        have "set ev \<subseteq> range CopyConstructed" by simp
        with \<open>load src first = Some s\<close> Obj Some l show ?thesis by auto
      qed
    qed
  qed
qed

lemma move_loop_events:
  "set (snd (move_loop T src first n dst current)) \<subseteq> range MoveConstructed"
proof (induction n arbitrary: src first dst current)
  case 0
  then show ?case by simp
next
  case (Suc n)
  show ?case
  proof (cases "load src first")
    case None
    then show ?thesis by simp
  next
    case (Some s)
    show ?thesis
    proof (cases s)
      case Raw
      with Some show ?thesis by simp
    next
      case (Obj x)
      show ?thesis
      proof (cases "store src first (Obj (moved_from T x))")
        case None
        with Some Obj show ?thesis by simp
      next
        case src': (Some src')
        show ?thesis
        proof (cases "store dst current (Obj x)")
          case None
          with Some Obj src' show ?thesis by simp
        next
          case dst': (Some dst')
          obtain r ev where l: "move_loop T src' (Suc first) n dst' (Suc current) = (r, ev)"
            by (cases "move_loop T src' (Suc first) n dst' (Suc current)")
          from Suc.IH [of src' "Suc first" dst' "Suc current"] l
          have "set ev \<subseteq> range MoveConstructed" by simp
          with Some Obj src' dst' l show ?thesis by auto
        qed
      qed
    qed
  qed
qed

lemma uninitialized_copy_n_events:
  "set (snd (uninitialized_copy_n T src first n dst d_first)) \<subseteq>
     range CopyConstructed \<union> range Destroyed"
proof -
  obtain r ev where l: "copy_loop T src first n dst d_first = (r, ev)"
    by (cases "copy_loop T src first n dst d_first")
  from copy_loop_events [of T src first n dst d_first] l
  have e: "set ev \<subseteq> range CopyConstructed" by simp
  show ?thesis
  proof (cases r)
    case (Returns st)
    with l e show ?thesis
      by (cases st) (auto simp: uninitialized_copy_n_def)
  next
    case (Throws x st)
    obtain dst' current where st: "st = (dst', current)" by (cases st)
    show ?thesis
    proof (cases "destroy_n dst' d_first (current - d_first)")
      case None
      with l e Throws st show ?thesis by (auto simp: uninitialized_copy_n_def)
    next
      case (Some q)
      obtain dst'' ev' where q: "q = (dst'', ev')" by (cases q)
      from destroy_n_events [OF Some [unfolded q]] have "set ev' \<subseteq> range Destroyed" .
      with l e Throws st Some q show ?thesis by (auto simp: uninitialized_copy_n_def)
    qed
  next
    case Undefined
    with l e show ?thesis by (auto simp: uninitialized_copy_n_def)
  qed
qed

lemma uninitialized_move_n_events:
  "set (snd (uninitialized_move_n T src first n dst d_first)) \<subseteq>
     range MoveConstructed \<union> range Destroyed"
proof -
  obtain r ev where l: "move_loop T src first n dst d_first = (r, ev)"
    by (cases "move_loop T src first n dst d_first")
  from move_loop_events [of T src first n dst d_first] l
  have e: "set ev \<subseteq> range MoveConstructed" by simp
  show ?thesis
  proof (cases r)
    case (Returns st)
    with l e show ?thesis
      by (cases st) (auto simp: uninitialized_move_n_def)
  next
    case (Throws x st)
    obtain src' dst' current where st: "st = (src', dst', current)" by (cases st)
    show ?thesis
    proof (cases "destroy_n dst' d_first (current - d_first)")
      case None
      with l e Throws st show ?thesis by (auto simp: uninitialized_move_n_def)
    next
      case (Some q)
      obtain dst'' ev' where q: "q = (dst'', ev')" by (cases q)
      from destroy_n_events [OF Some [unfolded q]] have "set ev' \<subseteq> range Destroyed" .
      with l e Throws st Some q show ?thesis by (auto simp: uninitialized_move_n_def)
    qed
  next
    case Undefined
    with l e show ?thesis by (auto simp: uninitialized_move_n_def)
  qed
qed

lemma transfer_events:
  "set (snd (if b then uninitialized_move_n T src first n dst d_first
             else uninitialized_copy_n T src first n dst d_first)) \<subseteq>
     (if b then range MoveConstructed else range CopyConstructed) \<union> range Destroyed"
  using uninitialized_move_n_events [of T src first n dst d_first]
    uninitialized_copy_n_events [of T src first n dst d_first]
  by (cases b) simp_all

lemma transfer_around_events:
  "set (snd (transfer_around T old pos count new)) \<subseteq>
     (if is_nothrow_move_constructible T \<or> \<not> is_copy_constructible T
      then range MoveConstructed else range CopyConstructed) \<union> range Destroyed"
proof (cases "is_nothrow_move_constructible T \<or> \<not> is_copy_constructible T")
  case True
  obtain r1 ev1 where one: "uninitialized_move_n T old 0 pos new 0 = (r1, ev1)"
    by (cases "uninitialized_move_n T old 0 pos new 0")
  from uninitialized_move_n_events [of T old 0 pos new 0] one
  have k1: "set ev1 \<subseteq> range MoveConstructed \<union> range Destroyed" by simp
  show ?thesis
  proof (cases r1)
    case (Returns on)
    obtain old1 new1 where on: "on = (old1, new1)" by (cases on)
    obtain r2 ev2 where two: "uninitialized_move_n T old1 pos count new1 (pos + 1) = (r2, ev2)"
      by (cases "uninitialized_move_n T old1 pos count new1 (pos + 1)")
    from uninitialized_move_n_events [of T old1 pos count new1 "pos + 1"] two
    have k2: "set ev2 \<subseteq> range MoveConstructed \<union> range Destroyed" by simp
    have "transfer_around T old pos count new = (r2, ev1 @ ev2)"
      using True one Returns on two by (simp add: transfer_around_def)
    with k1 k2 True show ?thesis by auto
  next
    case (Throws e st)
    have "transfer_around T old pos count new = (r1, ev1)"
      using True one Throws by (simp add: transfer_around_def)
    with k1 True show ?thesis by auto
  next
    case Undefined
    have "transfer_around T old pos count new = (r1, ev1)"
      using True one Undefined by (simp add: transfer_around_def)
    with k1 True show ?thesis by auto
  qed
next
  case False
  obtain r1 ev1 where one: "uninitialized_copy_n T old 0 pos new 0 = (r1, ev1)"
    by (cases "uninitialized_copy_n T old 0 pos new 0")
  from uninitialized_copy_n_events [of T old 0 pos new 0] one
  have k1: "set ev1 \<subseteq> range CopyConstructed \<union> range Destroyed" by simp
  show ?thesis
  proof (cases r1)
    case (Returns on)
    obtain old1 new1 where on: "on = (old1, new1)" by (cases on)
    obtain r2 ev2 where two: "uninitialized_copy_n T old1 pos count new1 (pos + 1) = (r2, ev2)"
      by (cases "uninitialized_copy_n T old1 pos count new1 (pos + 1)")
    from uninitialized_copy_n_events [of T old1 pos count new1 "pos + 1"] two
    have k2: "set ev2 \<subseteq> range CopyConstructed \<union> range Destroyed" by simp
    have "transfer_around T old pos count new = (r2, ev1 @ ev2)"
      using False one Returns on two by (simp add: transfer_around_def)
    with k1 k2 False show ?thesis by auto
  next
    case (Throws e st)
    have "transfer_around T old pos count new = (r1, ev1)"
      using False one Throws by (simp add: transfer_around_def)
    with k1 False show ?thesis by auto
  next
    case Undefined
    have "transfer_around T old pos count new = (r1, ev1)"
      using False one Undefined by (simp add: transfer_around_def)
    with k1 False show ?thesis by auto
  qed
qed

lemma Reserve_events:
  "set (snd (Reserve T n v)) \<subseteq>
     (if is_nothrow_move_constructible T \<or> \<not> is_copy_constructible T
      then range MoveConstructed else range CopyConstructed) \<union> range Destroyed"
proof (cases "n \<le> m_capacity (m_data v)")
  case True
  then show ?thesis by (simp add: Reserve_def)
next
  case False
  let ?K = "(if is_nothrow_move_constructible T \<or> \<not> is_copy_constructible T
      then range MoveConstructed else range CopyConstructed) \<union> range Destroyed"
  show ?thesis
  proof (cases "RawMemory_new T n")
    case None
    with False show ?thesis by (simp add: Reserve_def)
  next
    case (Some nd)
    let ?tr = "if is_nothrow_move_constructible T \<or> \<not> is_copy_constructible T
               then uninitialized_move_n T (m_buffer (m_data v)) 0 (m_size v) (m_buffer nd) 0
               else uninitialized_copy_n T (m_buffer (m_data v)) 0 (m_size v) (m_buffer nd) 0"
    obtain r tev where tr: "?tr = (r, tev)" by (cases ?tr)
    from transfer_events [of "is_nothrow_move_constructible T \<or> \<not> is_copy_constructible T"
        T "m_buffer (m_data v)" 0 "m_size v" "m_buffer nd" 0] tr
    have k: "set tev \<subseteq> ?K" by simp
    have d: "range Destroyed \<subseteq> ?K" by auto
    have R: "Reserve T n v =
      (case (r, tev) of
         (Undefined, ev) \<Rightarrow> (Undefined, ev)
       | (Throws e (old, new), ev) \<Rightarrow>
           leave_scope (nd\<lparr>m_buffer := new\<rparr>)
             (Throws e (v\<lparr>m_data := (m_data v)\<lparr>m_buffer := old\<rparr>\<rparr>), ev)
       | (Returns (old, new), ev) \<Rightarrow>
           (case destroy_n old 0 (m_size v) of
              None \<Rightarrow> (Undefined, ev)
            | Some (old', ev') \<Rightarrow>
                (case RawMemory_Swap ((m_data v)\<lparr>m_buffer := old'\<rparr>) (nd\<lparr>m_buffer := new\<rparr>) of
                   (d, local) \<Rightarrow> leave_scope local (Returns (v\<lparr>m_data := d\<rparr>), ev @ ev'))))"
      using False Some tr unfolding Reserve_def by simp
    show ?thesis
    proof (cases r)
      case (Returns on)
      obtain old new where on: "on = (old, new)" by (cases on)
      show ?thesis
      proof (cases "destroy_n old 0 (m_size v)")
        case None
        with R Returns on k show ?thesis by simp
      next
        case (Some q)
        obtain old' ev' where q: "q = (old', ev')" by (cases q)
        from destroy_n_events [OF Some [unfolded q]] d have "set ev' \<subseteq> ?K" by blast
        with R Returns on Some q k show ?thesis
          by (simp add: snd_leave_scope RawMemory_Swap_def)
      qed
    next
      case (Throws e st)
      obtain old new where "st = (old, new)" by (cases st)
      with R Throws k show ?thesis by (simp add: snd_leave_scope)
    next
      case Undefined
      with R k show ?thesis by simp
    qed
  qed
qed

lemma EmplaceBack_events:
  assumes full: "m_size v = m_capacity (m_data v)"
  shows "set (tl (snd (EmplaceBack T a v))) \<subseteq>
     (if is_nothrow_move_constructible T \<or> \<not> is_copy_constructible T
      then range MoveConstructed else range CopyConstructed) \<union> range Destroyed"
proof -
  let ?K = "(if is_nothrow_move_constructible T \<or> \<not> is_copy_constructible T
      then range MoveConstructed else range CopyConstructed) \<union> range Destroyed"
  let ?k = "if m_size v = 0 then 1 else 2 * m_size v"
  have d: "range Destroyed \<subseteq> ?K" by auto
  show ?thesis
  proof (cases "RawMemory_new T ?k")
    case None
    with full show ?thesis by (simp add: EmplaceBack_def)
  next
    case (Some nd)
    show ?thesis
    proof (cases "construct_forwarded T a (m_buffer (m_data v)) (m_size v)")
      case Undefined
      with full Some show ?thesis by (simp add: EmplaceBack_def)
    next
      case (Throws e u)
      with full Some show ?thesis by (simp add: EmplaceBack_def snd_leave_scope)
    next
      case (Returns c)
      obtain x e0 src where c: "c = (x, e0, src)" by (cases c)
      show ?thesis
      proof (cases "store (m_buffer nd) (m_size v) (Obj x)")
        case None
        with full Some Returns c show ?thesis by (simp add: EmplaceBack_def)
      next
        case p0: (Some p0)
        let ?tr = "if is_nothrow_move_constructible T \<or> \<not> is_copy_constructible T
                   then uninitialized_move_n T src 0 (m_size v) p0 0
                   else uninitialized_copy_n T src 0 (m_size v) p0 0"
        obtain r tev where tr: "?tr = (r, tev)" by (cases ?tr)
        from transfer_events [of "is_nothrow_move_constructible T \<or> \<not> is_copy_constructible T"
            T src 0 "m_size v" p0 0] tr
        have k: "set tev \<subseteq> ?K" by simp
        have eb: "EmplaceBack T a v =
           (case (r, tev) of
              (Undefined, ev) \<Rightarrow> (Undefined, e0 # ev)
            | (Throws e (old, new), ev) \<Rightarrow>
                leave_scope (nd\<lparr>m_buffer := new\<rparr>)
                  (Throws e (v\<lparr>m_data := (m_data v)\<lparr>m_buffer := old\<rparr>\<rparr>), e0 # ev)
            | (Returns (old, new), ev) \<Rightarrow>
                (case destroy_n old 0 (m_size v) of
                   None \<Rightarrow> (Undefined, e0 # ev)
                 | Some (old', ev') \<Rightarrow>
                     (case RawMemory_Swap ((m_data v)\<lparr>m_buffer := old'\<rparr>)
                             (nd\<lparr>m_buffer := new\<rparr>) of
                        (d, local) \<Rightarrow>
                          leave_scope local
                            (Returns (v\<lparr>m_data := d, m_size := Suc (m_size v)\<rparr>),
                             e0 # ev @ ev'))))"
          using full Some Returns c p0 tr unfolding EmplaceBack_def by (simp del: One_nat_def)
        show ?thesis
        proof (cases r)
          case Returns': (Returns on)
          obtain old new where on: "on = (old, new)" by (cases on)
          show ?thesis
          proof (cases "destroy_n old 0 (m_size v)")
            case None
            with eb Returns' on k show ?thesis by simp
          next
            case q: (Some q)
            obtain old' ev' where q': "q = (old', ev')" by (cases q)
            from destroy_n_events [OF q [unfolded q']] d have "set ev' \<subseteq> ?K" by blast
            with eb Returns' on q q' k show ?thesis
              by (simp add: snd_leave_scope RawMemory_Swap_def)
          qed
        next
          case (Throws e st)
          obtain old new where "st = (old, new)" by (cases st)
          with eb Throws k show ?thesis by (simp add: snd_leave_scope)
        next
          case Undefined
          with eb k show ?thesis by simp
        qed
      qed
    qed
  qed
qed

lemma Emplace_finish_events:
  assumes k: "set tev \<subseteq> K" and d: "range Destroyed \<subseteq> K"
  shows "set (tl (snd (case destroy_n old 0 n of
                   None \<Rightarrow> (Undefined, e # tev)
                 | Some (old', ev') \<Rightarrow>
                     (case RawMemory_Swap ((m_data v)\<lparr>m_buffer := old'\<rparr>) fresh of
                        (d, local) \<Rightarrow>
                          leave_scope local
                            (Returns (v\<lparr>m_data := d, m_size := Suc n\<rparr>, pos),
                             e # tev @ ev'))))) \<subseteq> K"
proof (cases "destroy_n old 0 n")
  case None
  with k show ?thesis by simp
next
  case q: (Some q)
  obtain old' ev' where q': "q = (old', ev')" by (cases q)
  from destroy_n_events [OF q [unfolded q']] d have "set ev' \<subseteq> K" by blast
  with q q' k show ?thesis by (simp add: snd_leave_scope RawMemory_Swap_def)
qed

lemma Emplace_events:
  assumes full: "m_size v = m_capacity (m_data v)"
  shows "set (tl (snd (Emplace T pos a v))) \<subseteq>
     (if is_nothrow_move_constructible T \<or> \<not> is_copy_constructible T
      then range MoveConstructed else range CopyConstructed) \<union> range Destroyed"
proof (cases "m_size v < pos")
  case True
  then show ?thesis by (simp add: Emplace_def)
next
  case inside: False
  let ?K = "(if is_nothrow_move_constructible T \<or> \<not> is_copy_constructible T
      then range MoveConstructed else range CopyConstructed) \<union> range Destroyed"
  let ?k = "if m_size v = 0 then 1 else 2 * m_size v"
  have d: "range Destroyed \<subseteq> ?K" by auto
  show ?thesis
  proof (cases "RawMemory_new T ?k")
    case None
    with full inside show ?thesis by (simp add: Emplace_def)
  next
    case (Some nd)
    show ?thesis
    proof (cases "construct_forwarded T a (m_buffer (m_data v)) (m_size v)")
      case Undefined
      with full inside Some show ?thesis by (simp add: Emplace_def)
    next
      case (Throws e u)
      with full inside Some show ?thesis by (simp add: Emplace_def snd_leave_scope)
    next
      case (Returns c)
      obtain x e0 src where c: "c = (x, e0, src)" by (cases c)
      show ?thesis
      proof (cases "store (m_buffer nd) pos (Obj x)")
        case None
        with full inside Some Returns c show ?thesis by (simp add: Emplace_def)
      next
        case p0: (Some p0)
        obtain r tev where tr: "transfer_around T src pos (m_size v - pos) p0 = (r, tev)"
          by (cases "transfer_around T src pos (m_size v - pos) p0")
        from transfer_around_events [of T src pos "m_size v - pos" p0] tr
        have k: "set tev \<subseteq> ?K" by simp
        have em: "Emplace T pos a v =
           (case (case (r, tev) of
                    (Returns (old, new), ev) \<Rightarrow> Some (old, nd\<lparr>m_buffer := new\<rparr>, ev)
                  | (Throws e (old, new), ev) \<Rightarrow>
                      (case RawMemory_dtor (nd\<lparr>m_buffer := new\<rparr>) of
                         Some freed \<Rightarrow> Some (old, freed, ev)
                       | None \<Rightarrow> None)
                  | (Undefined, ev) \<Rightarrow> None) of
              None \<Rightarrow> (Undefined, [e0])
            | Some (old, new_data', ev) \<Rightarrow>
                (case destroy_n old 0 (m_size v) of
                   None \<Rightarrow> (Undefined, e0 # ev)
                 | Some (old', ev') \<Rightarrow>
                     (case RawMemory_Swap ((m_data v)\<lparr>m_buffer := old'\<rparr>) new_data' of
                        (d, local) \<Rightarrow>
                          leave_scope local
                            (Returns (v\<lparr>m_data := d, m_size := Suc (m_size v)\<rparr>, pos),
                             e0 # ev @ ev'))))"
          using full inside Some Returns c p0 tr unfolding Emplace_def Let_def
          by (simp del: One_nat_def)
        note fin = Emplace_finish_events [OF k d, where n = "m_size v" and e = e0 and v = v
            and pos = pos]
        show ?thesis
        proof (cases r)
          case Returns': (Returns on)
          obtain old new where on: "on = (old, new)" by (cases on)
          from em Returns' on fin [where old = old and fresh = "nd\<lparr>m_buffer := new\<rparr>"] show ?thesis by simp
        next
          case (Throws e st)
          obtain old new where st: "st = (old, new)" by (cases st)
          show ?thesis
          proof (cases "RawMemory_dtor (nd\<lparr>m_buffer := new\<rparr>)")
            case None
            with em Throws st show ?thesis by simp
          next
            case (Some freed)
            with em Throws st fin [where old = old and fresh = freed] show ?thesis by simp
          qed
        next
          case Undefined
          with em show ?thesis by simp
        qed
      qed
    qed
  qed
qed

section \<open>The doubling policy\<close>

text \<open>
  Claim C4. An \<open>EmplaceBack\<close> that returns increases the size by one, and changes the
  capacity only when the size was equal to the capacity: the new capacity is then 1 if
  the vector was empty and twice the size otherwise. Starting from a default-constructed
  vector, when \<open>n\<close> appends have returned, the size is \<open>n\<close> and the capacity is the
  smallest power of two that is at least \<open>n\<close> (0 when \<open>n = 0\<close>). When no allocation
  fails and no constructor throws, the \<open>n\<close> appends do return, and the elements are the
  values constructed, in order; the byte count of the largest block requested, of at most
  \<open>2 * n\<close> elements, has to fit \<open>size_t\<close>.
\<close>

theorem append_doubling:
  "(\<forall>v a v' ev. EmplaceBack T a v = (Returns v', ev) \<longrightarrow>
      Size v' = Size v + 1 \<and>
      Capacity v' = (if Size v = Capacity v then (if Size v = 0 then 1 else 2 * Size v)
                     else Capacity v)) \<and>
   (\<forall>v ev. append_all T as Vector_default = (Returns v, ev) \<longrightarrow>
      Size v = length as \<and>
      (length as = 0 \<longrightarrow> Capacity v = 0) \<and>
      (0 < length as \<longrightarrow>
         (\<exists>k. Capacity v = 2 ^ k) \<and> length as \<le> Capacity v \<and>
         (\<forall>j. length as \<le> 2 ^ j \<longrightarrow> Capacity v \<le> 2 ^ j))) \<and>
   ((\<forall>n. \<not> operator_new_fails T n) \<and>
    (\<forall>x. \<not> copy_ctor_throws T x \<and> \<not> move_ctor_throws T x) \<and>
    (\<forall>a\<in>set as. construct T a \<noteq> None) \<and>
    0 < sizeof_T T \<and> 2 * length as * sizeof_T T \<le> SIZE_MAX \<longrightarrow>
      (\<exists>v ev. append_all T as Vector_default = (Returns v, ev) \<and>
         elements v = map (\<lambda>a. fst (the (construct T a))) as))"
proof (intro conjI allI impI)
  fix v a v' ev
  assume "EmplaceBack T a v = (Returns v', ev)"
  from EmplaceBack_returns_shape [OF this]
  show "Size v' = Size v + 1"
    and "Capacity v' = (if Size v = Capacity v then (if Size v = 0 then 1 else 2 * Size v)
                     else Capacity v)"
    by simp_all
next
  fix v ev
  assume r: "append_all T as Vector_default = (Returns v, ev)"
  have i0: "(Size (Vector_default :: 'a Vector) = 0 \<and> Capacity (Vector_default :: 'a Vector) = 0) \<or>
         (\<exists>k. Capacity (Vector_default :: 'a Vector) = 2 ^ k \<and>
              Size (Vector_default :: 'a Vector) \<le> Capacity (Vector_default :: 'a Vector) \<and>
              Capacity (Vector_default :: 'a Vector) < 2 * Size (Vector_default :: 'a Vector))"
    by (simp add: Vector_default_def RawMemory_default_def Size_def Capacity_def)
  have z: "Size (Vector_default :: 'a Vector) = 0"
    by (simp add: Vector_default_def Size_def)
  note ar = append_all_returns [OF r i0]
  from ar z have s: "Size v = length as" by simp
  from ar have i: "(Size v = 0 \<and> Capacity v = 0) \<or>
          (\<exists>k. Capacity v = 2 ^ k \<and> Size v \<le> Capacity v \<and> Capacity v < 2 * Size v)"
    by blast
  show "Size v = length as" by (rule s)
  show "Capacity v = 0" if "length as = 0" using that s i by auto
  show "\<exists>k. Capacity v = 2 ^ k" if "0 < length as" using that s i by auto
  show "length as \<le> Capacity v" if "0 < length as" using that s i by auto
  show "Capacity v \<le> 2 ^ j" if "0 < length as" "length as \<le> 2 ^ j" for j
  proof -
    from that(1) s i obtain k where "Capacity v = 2 ^ k" "Capacity v < 2 * length as" by auto
    then show ?thesis using that(2) by (rule smallest_power)
  qed
next
  assume a: "(\<forall>n. \<not> operator_new_fails T n) \<and>
    (\<forall>x. \<not> copy_ctor_throws T x \<and> \<not> move_ctor_throws T x) \<and>
    (\<forall>a\<in>set as. construct T a \<noteq> None) \<and>
    0 < sizeof_T T \<and> 2 * length as * sizeof_T T \<le> SIZE_MAX"
  then have a1: "\<forall>n. \<not> operator_new_fails T n"
    and a2: "\<forall>x. \<not> copy_ctor_throws T x \<and> \<not> move_ctor_throws T x"
    and a3: "\<forall>a\<in>set as. construct T a \<noteq> None"
    and a4: "0 < sizeof_T T"
    and a5: "2 * (length ([] :: 'a list) + length as) * sizeof_T T \<le> SIZE_MAX"
    by simp_all
  have l: "length ([] :: 'a list) \<le> 0" by simp
  from append_all_total [OF a1 a2 a3 a4 a5 l] obtain c' ev where
    r: "append_all T as (vector_of [] 0) =
          (Returns (vector_of ([] @ map (\<lambda>a. fst (the (construct T a))) as) c'), ev)"
    and l': "length ([] :: 'a list) + length as \<le> c'"
    by blast
  have "elements (vector_of (map (\<lambda>a. fst (the (construct T a))) as) c') =
      map (\<lambda>a. fst (the (construct T a))) as"
    using l' by (intro elements_vector_of) simp
  with r show "\<exists>v ev. append_all T as Vector_default = (Returns v, ev) \<and>
         elements v = map (\<lambda>a. fst (the (construct T a))) as"
    unfolding Vector_default_vector_of by auto
qed

theorem append_doubling_witness:
  "(\<forall>n. \<not> operator_new_fails T_int n) \<and>
   (\<forall>x. \<not> copy_ctor_throws T_int x \<and> \<not> move_ctor_throws T_int x) \<and>
   construct T_int (InPlace 1) = Some (1, Constructed 1) \<and>
   construct T_int (InPlace 2) = Some (2, Constructed 2) \<and>
   construct T_int (InPlace 3) = Some (3, Constructed 3) \<and>
   0 < sizeof_T T_int \<and>
   2 * length [InPlace 1, InPlace 2, InPlace 3 :: (int, int) args] * sizeof_T T_int \<le> SIZE_MAX \<and>
   (\<exists>v ev. append_all T_int [InPlace 1, InPlace 2, InPlace 3] Vector_default = (Returns v, ev) \<and>
      elements v = [1, 2, 3] \<and> Size v = 3 \<and> Capacity v = 4) \<and>
   (\<exists>v ev. append_all T_int [] Vector_default = (Returns v, ev) \<and>
      Size v = 0 \<and> Capacity v = 0) \<and>
   (\<exists>v' ev. EmplaceBack T_int (Outside (InPlace 5)) (vector_of [1, 2, 3, 4] 4) = (Returns v', ev) \<and>
      Size v' = 5 \<and> Capacity v' = 8) \<and>
   (\<exists>v' ev. EmplaceBack T_int (Outside (InPlace 4)) (vector_of [1, 2, 3] 4) = (Returns v', ev) \<and>
      Size v' = 4 \<and> Capacity v' = 4)"
proof -
  let ?as = "[InPlace 1, InPlace 2, InPlace 3] :: (int, int) args list"
  have h: "(\<forall>n. \<not> operator_new_fails T_int n) \<and>
    (\<forall>x. \<not> copy_ctor_throws T_int x \<and> \<not> move_ctor_throws T_int x) \<and>
    (\<forall>a\<in>set ?as. construct T_int a \<noteq> None) \<and>
    0 < sizeof_T T_int \<and> 2 * length ?as * sizeof_T T_int \<le> SIZE_MAX"
    by (simp add: T_int_def construct_def SIZE_MAX_def)
  have hs: "0 < sizeof_T T_int \<and> 2 * length ?as * sizeof_T T_int \<le> SIZE_MAX"
    using h by blast
  have h0: "(\<forall>n. \<not> operator_new_fails T_int n) \<and>
    (\<forall>x. \<not> copy_ctor_throws T_int x \<and> \<not> move_ctor_throws T_int x)"
    using h by blast
  note t = append_doubling [of T_int ?as]
  from t h obtain v ev where r: "append_all T_int ?as Vector_default = (Returns v, ev)"
    and e: "elements v = map (\<lambda>a. fst (the (construct T_int a))) ?as"
    by blast
  from t r have s: "Size v = length ?as"
    and p: "0 < length ?as \<longrightarrow>
         (\<exists>k. Capacity v = 2 ^ k) \<and> length ?as \<le> Capacity v \<and>
         (\<forall>j. length ?as \<le> 2 ^ j \<longrightarrow> Capacity v \<le> 2 ^ j)"
    by blast+
  have pos: "0 < length ?as" by simp
  from p pos have q: "(\<exists>k. Capacity v = 2 ^ k) \<and> length ?as \<le> Capacity v \<and>
         (\<forall>j. length ?as \<le> 2 ^ j \<longrightarrow> Capacity v \<le> 2 ^ j)"
    by blast
  have "length ?as \<le> 2 ^ (2 :: nat)" by simp
  with q have up: "Capacity v \<le> 2 ^ (2 :: nat)" by blast
  from q have lo: "3 \<le> Capacity v" by simp
  from q obtain k where k: "Capacity v = 2 ^ k" by blast
  have "k = 2"
  proof -
    from k up have "(2::nat) ^ k \<le> 2 ^ 2" by simp
    then have "k \<le> 2" using power_le_imp_le_exp [of 2 k 2] by simp
    moreover have "k \<noteq> 0"
    proof
      assume "k = 0"
      with k lo show False by simp
    qed
    moreover have "k \<noteq> 1"
    proof
      assume "k = 1"
      with k lo show False by simp
    qed
    ultimately show ?thesis by arith
  qed
  with k have c: "Capacity v = 4" by simp
  have e': "elements v = [1, 2, 3]"
    using e by (simp add: construct_def T_int_def)
  have cs: "construct T_int (InPlace 1) = Some (1, Constructed 1)"
    "construct T_int (InPlace 2) = Some (2, Constructed 2)"
    "construct T_int (InPlace 3) = Some (3, Constructed 3)"
    by (simp_all add: construct_def T_int_def)
  have r0: "\<exists>v ev. append_all T_int [] Vector_default = (Returns v, ev) \<and>
      Size v = 0 \<and> Capacity v = 0"
  proof -
    have e0: "append_all T_int [] (Vector_default :: int Vector) = (Returns Vector_default, [])"
      by simp
    from append_doubling [of T_int "[]"] e0
    have "Size (Vector_default :: int Vector) = 0 \<and> Capacity (Vector_default :: int Vector) = 0"
      by simp
    with e0 show ?thesis by blast
  qed
  have cn: "construct T_int (InPlace 5) = Some (5, Constructed 5)"
    "construct T_int (InPlace 4) = Some (4, Constructed 4)"
    by (simp_all add: construct_def T_int_def)
  have g: "\<exists>v' ev. EmplaceBack T_int (Outside (InPlace 5)) (vector_of [1, 2, 3, 4] 4) = (Returns v', ev) \<and>
      Size v' = 5 \<and> Capacity v' = 8"
  proof -
    have al: "\<not> operator_new_fails T_int (if length [1, 2, 3, 4 :: int] = 0 then 1
            else 2 * length [1, 2, 3, 4 :: int])"
      by (simp add: T_int_def)
    have nt: "\<forall>x\<in>set [1, 2, 3, 4 :: int].
        \<not> (if is_nothrow_move_constructible T_int \<or> \<not> is_copy_constructible T_int
           then move_ctor_throws T_int x else copy_ctor_throws T_int x)"
      by (simp add: T_int_def)
    have sz: "0 < sizeof_T T_int" by (simp add: T_int_def)
    have ft: "(if length [1, 2, 3, 4 :: int] = 0 then 1 else 2 * length [1, 2, 3, 4 :: int]) *
        sizeof_T T_int \<le> SIZE_MAX"
      by (simp add: T_int_def SIZE_MAX_def)
    have l4: "length [1, 2, 3, 4 :: int] = 4" by simp
    have "\<exists>v' ev. EmplaceBack T_int (Outside (InPlace 5))
        (vector_of [1, 2, 3, 4] (length [1, 2, 3, 4 :: int])) = (Returns v', ev)"
      using EmplaceBack_grow [OF construct_forwarded_Outside [OF cn(1)] sz ft al nt] by blast
    then obtain v' ev where
      e: "EmplaceBack T_int (Outside (InPlace 5)) (vector_of [1, 2, 3, 4] 4) = (Returns v', ev)"
      unfolding l4 by blast
    from append_doubling [of T_int ?as] e
    have "Size v' = Size (vector_of [1, 2, 3, 4 :: int] 4) + 1 \<and>
      Capacity v' =
        (if Size (vector_of [1, 2, 3, 4 :: int] 4) = Capacity (vector_of [1, 2, 3, 4 :: int] 4)
         then (if Size (vector_of [1, 2, 3, 4 :: int] 4) = 0 then 1
               else 2 * Size (vector_of [1, 2, 3, 4 :: int] 4))
         else Capacity (vector_of [1, 2, 3, 4 :: int] 4))"
      by blast
    then have "Size v' = 5 \<and> Capacity v' = 8"
      by (simp add: Size_vector_of Capacity_vector_of)
    with e show ?thesis by blast
  qed
  have n: "\<exists>v' ev. EmplaceBack T_int (Outside (InPlace 4)) (vector_of [1, 2, 3] 4) = (Returns v', ev) \<and>
      Size v' = 4 \<and> Capacity v' = 4"
  proof -
    have "length [1, 2, 3 :: int] < 4" by simp
    from EmplaceBack_room [OF construct_forwarded_Outside [OF cn(2)] this] obtain v' ev where
      e: "EmplaceBack T_int (Outside (InPlace 4)) (vector_of [1, 2, 3] 4) = (Returns v', ev)"
      by blast
    from append_doubling [of T_int ?as] e
    have "Size v' = Size (vector_of [1, 2, 3 :: int] 4) + 1 \<and>
      Capacity v' =
        (if Size (vector_of [1, 2, 3 :: int] 4) = Capacity (vector_of [1, 2, 3 :: int] 4)
         then (if Size (vector_of [1, 2, 3 :: int] 4) = 0 then 1
               else 2 * Size (vector_of [1, 2, 3 :: int] 4))
         else Capacity (vector_of [1, 2, 3 :: int] 4))"
      by blast
    then have "Size v' = 4 \<and> Capacity v' = 4"
      by (simp add: Size_vector_of Capacity_vector_of)
    with e show ?thesis by blast
  qed
  have main: "\<exists>v ev. append_all T_int ?as Vector_default = (Returns v, ev) \<and>
      elements v = [1, 2, 3] \<and> Size v = 3 \<and> Capacity v = 4"
    using r e' s c by auto
  from h0 hs cs main r0 g n show ?thesis by blast
qed

section \<open>Insertion followed by removal\<close>

lemma Emplace_vector_of:
  assumes len: "length xs \<le> c" and p: "p \<le> length xs"
    and c: "construct T a = Some (x, e0)"
    and alloc: "length xs < c \<or>
                (0 < sizeof_T T \<and>
                 (if length xs = 0 then 1 else 2 * length xs) * sizeof_T T \<le> SIZE_MAX \<and>
                 \<not> operator_new_fails T (if length xs = 0 then 1 else 2 * length xs))"
    and nothrow: "\<forall>y\<in>set (x # xs).
       \<not> copy_ctor_throws T y \<and> \<not> move_ctor_throws T y \<and> \<not> move_assign_throws T y"
  shows "\<exists>c1 ev1. Emplace T p (Outside a) (vector_of xs c) =
           (Returns (vector_of (take p xs @ x # drop p xs) c1, p), ev1) \<and> length xs < c1"
proof -
  let ?ys = "take p xs" and ?zs = "drop p xs"
  have xs: "?ys @ ?zs = xs" by simp
  have lp: "length ?ys = p" using p by simp
  show ?thesis
  proof (cases "length xs = c")
    case True
    let ?k = "if length xs = 0 then 1 else 2 * length xs"
    from True alloc have al: "\<not> operator_new_fails T (if length (?ys @ ?zs) = 0 then 1
                                else 2 * length (?ys @ ?zs))"
      and sz: "0 < sizeof_T T"
      and ft: "(if length (?ys @ ?zs) = 0 then 1 else 2 * length (?ys @ ?zs)) * sizeof_T T \<le>
               SIZE_MAX"
      unfolding xs by simp_all
    note cf = construct_forwarded_Outside [OF c]
    have nt: "\<forall>y\<in>set (?ys @ ?zs).
           \<not> (if is_nothrow_move_constructible T \<or> \<not> is_copy_constructible T
              then move_ctor_throws T y else copy_ctor_throws T y)"
      unfolding xs using nothrow by simp
    have "Emplace T p (Outside a) (vector_of xs c) = (Returns (vector_of (?ys @ x # ?zs) ?k, p),
            e0 # (if is_nothrow_move_constructible T \<or> \<not> is_copy_constructible T
                  then map MoveConstructed xs @ map Destroyed (map (moved_from T) xs)
                  else map CopyConstructed xs @ map Destroyed xs))"
      using Emplace_grow [OF cf sz ft al nt] unfolding xs lp True [symmetric] .
    moreover have "length xs < ?k" by (cases xs) simp_all
    ultimately show ?thesis by blast
  next
    case False
    with len have room: "length xs < c" by simp
    show ?thesis
    proof (cases "?zs = []")
      case True
      then have pl: "p = length xs" using p by simp
      have "Emplace T p (Outside a) (vector_of xs c) = (Returns (vector_of (xs @ [x]) c, p), [e0])"
        unfolding pl by (rule Emplace_end [OF construct_forwarded_Outside [OF c] room])
      then have "Emplace T p (Outside a) (vector_of xs c) =
          (Returns (vector_of (?ys @ x # ?zs) c, p), [e0])"
        using pl by simp
      with room show ?thesis by blast
    next
      case False
      then obtain m l where zs: "m @ [l] = ?zs" by (metis rev_exhaust)
      have r: "length (?ys @ m @ [l]) < c" unfolding zs xs by (rule room)
      have sub: "set ?zs \<subseteq> set xs" by (rule set_drop_subset)
      have "l \<in> set ?zs" unfolding zs [symmetric] by simp
      with sub nothrow have n1: "\<not> move_ctor_throws T l" by auto
      have "set m \<subseteq> set ?zs" unfolding zs [symmetric] by auto
      with sub nothrow have n2: "\<forall>z\<in>set m. \<not> move_assign_throws T z" by auto
      from nothrow have n3: "\<not> move_assign_throws T x" by simp
      have "Emplace T p (Outside a) (vector_of xs c) =
          (Returns (vector_of (?ys @ x # ?zs) c, p),
           MoveConstructed l # map MoveAssigned (rev m) @
              [e0, MoveAssigned x, Destroyed (moved_from T x)])"
        using Emplace_room [OF c r n1 n2 n3] unfolding zs xs lp .
      with room show ?thesis by blast
    qed
  qed
qed

text \<open>
  When nothing throws, an insertion at \<open>p\<close> of an object outside the vector followed
  by the removal at \<open>p\<close> gives back the size and the elements.
\<close>

lemma Emplace_then_Erase_restores:
  assumes "valid v" and "p \<le> Size v" and "construct T a = Some (x, e0)"
    and "Size v < Capacity v \<or>
         (0 < sizeof_T T \<and>
          (if Size v = 0 then 1 else 2 * Size v) * sizeof_T T \<le> SIZE_MAX \<and>
          \<not> operator_new_fails T (if Size v = 0 then 1 else 2 * Size v))"
    and "\<forall>y\<in>set (x # elements v).
           \<not> copy_ctor_throws T y \<and> \<not> move_ctor_throws T y \<and> \<not> move_assign_throws T y"
  shows "\<exists>v1 ev1 v2 ev2.
           Emplace T p (Outside a) v = (Returns (v1, p), ev1) \<and>
           Size v1 = Size v + 1 \<and>
           elements v1 = take p (elements v) @ x # drop p (elements v) \<and>
           Erase T p v1 = (Returns (v2, p), ev2) \<and>
           Size v2 = Size v \<and> elements v2 = elements v \<and> valid v2"
proof -
  from assms(1) obtain xs c where v: "v = vector_of xs c" and len: "length xs \<le> c"
    and el: "elements v = xs" and sz: "Size v = length xs" and cap: "Capacity v = c"
    by (rule valid_cases)
  let ?ys = "take p xs" and ?zs = "drop p xs"
  have xs: "?ys @ ?zs = xs" by simp
  have p: "p \<le> length xs" using assms(2) sz by simp
  have lp: "length ?ys = p" using p by simp
  from assms(4) have al: "length xs < c \<or>
      (0 < sizeof_T T \<and>
       (if length xs = 0 then 1 else 2 * length xs) * sizeof_T T \<le> SIZE_MAX \<and>
       \<not> operator_new_fails T (if length xs = 0 then 1 else 2 * length xs))"
    unfolding sz cap .
  from assms(5) have nt: "\<forall>y\<in>set (x # xs).
       \<not> copy_ctor_throws T y \<and> \<not> move_ctor_throws T y \<and> \<not> move_assign_throws T y"
    unfolding el .
  from Emplace_vector_of [OF len p assms(3) al nt] obtain c1 ev1 where
    e1: "Emplace T p (Outside a) v = (Returns (vector_of (?ys @ x # ?zs) c1, p), ev1)"
    and c1: "length xs < c1"
    unfolding v by blast
  have l1: "length (?ys @ x # ?zs) \<le> c1" using c1 p by simp
  have "set ?zs \<subseteq> set xs" by (rule set_drop_subset)
  with nt have nz: "\<forall>z\<in>set ?zs. \<not> move_assign_throws T z" by auto
  have e2: "Erase T p (vector_of (?ys @ x # ?zs) c1) =
      (Returns (vector_of xs c1, p),
       map MoveAssigned ?zs @ [Destroyed (if ?zs = [] then x else moved_from T (last ?zs))])"
    using Erase_vector_of [OF l1 nz] unfolding xs lp .
  have l2: "length xs \<le> c1" using c1 by simp
  show ?thesis
  proof (intro exI conjI)
    show "Emplace T p (Outside a) v = (Returns (vector_of (?ys @ x # ?zs) c1, p), ev1)" by (rule e1)
    show "Size (vector_of (?ys @ x # ?zs) c1) = Size v + 1"
      unfolding sz Size_vector_of using p by simp
    show "elements (vector_of (?ys @ x # ?zs) c1) = take p (elements v) @ x # drop p (elements v)"
      unfolding el by (rule elements_vector_of [OF l1])
    show "Erase T p (vector_of (?ys @ x # ?zs) c1) = (Returns (vector_of xs c1, p),
       map MoveAssigned ?zs @ [Destroyed (if ?zs = [] then x else moved_from T (last ?zs))])"
      by (rule e2)
    show "Size (vector_of xs c1) = Size v" unfolding sz by (rule Size_vector_of)
    show "elements (vector_of xs c1) = elements v"
      unfolding el by (rule elements_vector_of [OF l2])
    show "valid (vector_of xs c1)" by (rule valid_vector_of [OF l2])
  qed
qed

section \<open>Copy assignment within the capacity\<close>

lemma copy_assign_shrink:
  assumes ne: "this \<noteq> rhs"
    and v: "s this = vector_of (vs1 @ vs2) c" and lv: "length (vs1 @ vs2) \<le> c"
    and w: "s rhs = vector_of ws rc" and lw: "length ws \<le> rc"
    and l1: "length vs1 = length ws" and l2: "vs2 \<noteq> []"
    and nothrow: "\<forall>x\<in>set ws. \<not> copy_assign_throws T x"
  shows "copy_assign T this rhs s =
           (Returns (s(this := vector_of ws c)), map CopyAssigned ws @ map Destroyed vs2)"
proof -
  let ?rest = "replicate (c - length (vs1 @ vs2)) (Raw :: 'a slot)"
  let ?rrest = "replicate (rc - length ws) (Raw :: 'a slot)"
  let ?d = "\<lparr>m_buffer = Block (map Obj vs1 @ map Obj vs2 @ ?rest), m_capacity = c\<rparr>"
  let ?d' = "\<lparr>m_buffer = Block (map Obj ws @ map Obj vs2 @ ?rest), m_capacity = c\<rparr>"
  have c0: "c \<noteq> 0" using lv l2 by (cases vs2) auto
  have dv: "m_data (s this) = ?d" unfolding v using c0 by (simp add: vector_of_def)
  have sv: "m_size (s this) = length vs1 + length vs2" unfolding v by (simp add: vector_of_def)
  have sw: "m_size (s rhs) = length ws" unfolding w by (simp add: vector_of_def)
  have lt: "m_size (s rhs) < m_size (s this)" unfolding sv sw using l1 l2 by simp
  have fit: "\<not> m_capacity (m_data (s this)) < m_size (s rhs)"
    unfolding dv sw using lv l1 by simp
  have al: "assign_loop T (m_data (s this)) (m_data (s rhs)) 0 (m_size (s rhs)) =
      (Returns ?d', map CopyAssigned ws)"
  proof (cases "ws = []")
    case True
    then have "vs1 = []" using l1 by simp
    then show ?thesis unfolding sw dv using True by simp
  next
    case False
    then have rc0: "rc \<noteq> 0" using lw by (cases ws) auto
    have dw: "m_data (s rhs) = \<lparr>m_buffer = Block (map Obj ws @ ?rrest), m_capacity = rc\<rparr>"
      unfolding w using rc0 by (simp add: vector_of_def)
    have a1: "length ([] :: 'a slot list) + length ws \<le> c" using lv l1 by simp
    have a2: "length ([] :: 'a slot list) + length ws \<le> rc" using lw by simp
    have a3: "length ([] :: 'a slot list) = length ([] :: 'a slot list)" by simp
    from assign_loop_block [OF nothrow l1 a3 a1 a2, of "map Obj vs2 @ ?rest" ?rrest]
    show ?thesis unfolding sw dv dw by simp
  qed
  have de: "destroy_n (m_buffer ?d') (m_size (s rhs)) (m_size (s this) - m_size (s rhs)) =
      Some (Block (map Obj ws @ replicate (length vs2) Raw @ ?rest), map Destroyed vs2)"
    unfolding sv sw using destroy_n_block [of "map Obj ws" vs2 ?rest] l1 by simp
  have rr: "replicate (length vs2) Raw @ ?rest = replicate (c - length ws) (Raw :: 'a slot)"
  proof -
    have "c - length ws = length vs2 + (c - length (vs1 @ vs2))" using lv l1 by simp
    then show ?thesis by (simp only: replicate_add)
  qed
  have "copy_assign T this rhs s =
      (Returns (s(this := \<lparr>m_data = ?d'\<lparr>m_buffer :=
                  Block (map Obj ws @ replicate (length vs2) Raw @ ?rest)\<rparr>,
                m_size = m_size (s rhs)\<rparr>)),
       map CopyAssigned ws @ map Destroyed vs2)"
    unfolding copy_assign_def using ne lt fit al de by (simp del: destroy_n.simps assign_loop.simps)
  then show ?thesis
    unfolding sw using c0 rr by (simp add: vector_of_def)
qed

lemma copy_assign_extend:
  assumes ne: "this \<noteq> rhs"
    and v: "s this = vector_of vs c" and lv: "length (ws1 @ ws2) \<le> c"
    and w: "s rhs = vector_of (ws1 @ ws2) rc" and lw: "length (ws1 @ ws2) \<le> rc"
    and l1: "length vs = length ws1"
    and nothrow: "\<forall>x\<in>set ws1. \<not> copy_assign_throws T x"
      "\<forall>x\<in>set ws2. \<not> copy_ctor_throws T x"
  shows "copy_assign T this rhs s =
           (Returns (s(this := vector_of (ws1 @ ws2) c)),
            map CopyAssigned ws1 @ map CopyConstructed ws2)"
proof (cases "c = 0")
  case True
  then have e: "ws1 = []" "ws2 = []" "vs = []" using lv l1 by simp_all
  show ?thesis
    unfolding copy_assign_def using ne True
    by (simp add: v w e vector_of_def copy_nothing)
next
  case c0: False
  let ?rest = "replicate (c - length (ws1 @ ws2)) (Raw :: 'a slot)"
  let ?rrest = "replicate (rc - length (ws1 @ ws2)) (Raw :: 'a slot)"
  let ?hole = "replicate (length ws2) (Raw :: 'a slot)"
  let ?d = "\<lparr>m_buffer = Block (map Obj vs @ ?hole @ ?rest), m_capacity = c\<rparr>"
  let ?d' = "\<lparr>m_buffer = Block (map Obj ws1 @ ?hole @ ?rest), m_capacity = c\<rparr>"
  have rr: "replicate (c - length vs) (Raw :: 'a slot) = ?hole @ ?rest"
  proof -
    have "c - length vs = length ws2 + (c - length (ws1 @ ws2))" using lv l1 by simp
    then show ?thesis by (simp only: replicate_add)
  qed
  have dv: "m_data (s this) = ?d" unfolding v using c0 rr by (simp add: vector_of_def)
  have sv: "m_size (s this) = length vs" unfolding v by (simp add: vector_of_def)
  have sw: "m_size (s rhs) = length ws1 + length ws2" unfolding w by (simp add: vector_of_def)
  have lt: "\<not> m_size (s rhs) < m_size (s this)" unfolding sv sw using l1 by simp
  have fit: "\<not> m_capacity (m_data (s this)) < m_size (s rhs)"
    unfolding dv sw using lv by simp
  have bw: "ws1 @ ws2 \<noteq> [] \<Longrightarrow>
      m_data (s rhs) = \<lparr>m_buffer = Block (map Obj ws1 @ map Obj ws2 @ ?rrest), m_capacity = rc\<rparr>"
  proof -
    assume "ws1 @ ws2 \<noteq> []"
    then have "rc \<noteq> 0" using lw by (cases "ws1 @ ws2") auto
    then show ?thesis unfolding w by (simp add: vector_of_def)
  qed
  have al: "assign_loop T (m_data (s this)) (m_data (s rhs)) 0 (m_size (s this)) =
      (Returns ?d', map CopyAssigned ws1)"
  proof (cases "ws1 = []")
    case True
    then have "vs = []" using l1 by simp
    then show ?thesis unfolding sv dv using True by simp
  next
    case False
    have a1: "length ([] :: 'a slot list) + length ws1 \<le> c" using lv by simp
    have a2: "length ([] :: 'a slot list) + length ws1 \<le> rc" using lw by simp
    have a3: "length ([] :: 'a slot list) = length ([] :: 'a slot list)" by simp
    from assign_loop_block [OF nothrow(1) l1 a3 a1 a2, of "?hole @ ?rest" "map Obj ws2 @ ?rrest"]
    show ?thesis unfolding sv dv l1 using bw False by simp
  qed
  have cp: "uninitialized_copy_n T (m_buffer (m_data (s rhs))) (m_size (s this))
      (m_size (s rhs) - m_size (s this)) (m_buffer ?d') (m_size (s this)) =
      (Returns (m_buffer (m_data (s rhs)), Block (map Obj ws1 @ map Obj ws2 @ ?rest)),
       map CopyConstructed ws2)"
  proof (cases "ws2 = []")
    case True
    then show ?thesis unfolding sv sw l1 by (simp add: copy_nothing)
  next
    case False
    then have ne2: "ws1 @ ws2 \<noteq> []" by simp
    have h: "length ?hole = length ws2" by simp
    from uninitialized_copy_n_block [OF nothrow(2) h, of "map Obj ws1" ?rrest "map Obj ws1" ?rest]
    show ?thesis unfolding sv sw l1 bw [OF ne2] by simp
  qed
  have "copy_assign T this rhs s =
      (Returns (s(this := \<lparr>m_data = ?d'\<lparr>m_buffer :=
                  Block (map Obj ws1 @ map Obj ws2 @ ?rest)\<rparr>,
                m_size = m_size (s rhs)\<rparr>)),
       map CopyAssigned ws1 @ map CopyConstructed ws2)"
    unfolding copy_assign_def using ne lt fit al cp by (simp del: assign_loop.simps)
  then show ?thesis
    unfolding sw using c0 by (simp add: vector_of_def)
qed

lemma copy_assign_throws_size:
  assumes "this \<noteq> rhs" "m_size (s rhs) \<le> m_capacity (m_data (s this))"
    and "copy_assign T this rhs s = (Throws e s', ev)"
  shows "m_size (s' this) = m_size (s this)"
proof (cases "m_size (s rhs) < m_size (s this)")
  case True
  obtain r ev1 where al: "assign_loop T (m_data (s this)) (m_data (s rhs)) 0 (m_size (s rhs)) = (r, ev1)"
    by (cases "assign_loop T (m_data (s this)) (m_data (s rhs)) 0 (m_size (s rhs))")
  show ?thesis
  proof (cases r)
    case (Returns d)
    with assms True al show ?thesis
      by (simp add: copy_assign_def split: option.splits prod.splits)
  next
    case (Throws e1 d)
    with assms True al show ?thesis
      by (auto simp add: copy_assign_def)
  next
    case Undefined
    with assms True al show ?thesis
      by (simp add: copy_assign_def)
  qed
next
  case False
  obtain r ev1 where al: "assign_loop T (m_data (s this)) (m_data (s rhs)) 0 (m_size (s this)) = (r, ev1)"
    by (cases "assign_loop T (m_data (s this)) (m_data (s rhs)) 0 (m_size (s this))")
  show ?thesis
  proof (cases r)
    case (Returns d)
    obtain r2 ev2 where cp: "uninitialized_copy_n T (m_buffer (m_data (s rhs))) (m_size (s this))
        (m_size (s rhs) - m_size (s this)) (m_buffer d) (m_size (s this)) = (r2, ev2)"
      by (cases "uninitialized_copy_n T (m_buffer (m_data (s rhs))) (m_size (s this))
        (m_size (s rhs) - m_size (s this)) (m_buffer d) (m_size (s this))")
    show ?thesis
    proof (cases r2)
      case (Returns q)
      with assms False al \<open>r = Returns d\<close> cp show ?thesis
        by (simp add: copy_assign_def split: prod.splits)
    next
      case (Throws e2 q)
      with assms False al \<open>r = Returns d\<close> cp show ?thesis
        by (auto simp add: copy_assign_def split: prod.splits)
    next
      case Undefined
      with assms False al \<open>r = Returns d\<close> cp show ?thesis
        by (simp add: copy_assign_def)
    qed
  next
    case (Throws e1 d)
    with assms False al show ?thesis
      by (auto simp add: copy_assign_def)
  next
    case Undefined
    with assms False al show ?thesis
      by (simp add: copy_assign_def)
  qed
qed

text \<open>
  Claim C6. For every pair of distinct vectors \<open>v\<close> (at address \<open>this\<close>) and \<open>w\<close> (at
  address \<open>rhs\<close>) with \<open>w.Size \<le> v.Capacity\<close>: when no copy assignment throws on the
  elements of \<open>w\<close> assigned over elements of \<open>v\<close> and no copy construction throws on the
  other elements of \<open>w\<close>, the copy assignment \<open>v = w\<close> returns; afterwards \<open>v.Size\<close> equals
  \<open>w.Size\<close>, \<open>v\<close>'s elements equal \<open>w\<close>'s, \<open>v.Capacity\<close> is unchanged, and \<open>w\<close> is
  unchanged. The events are the copy assignments over the common prefix, followed, when
  \<open>w\<close> is shorter, by the destruction of \<open>v\<close>'s excess tail, and otherwise by the copy
  construction of \<open>w\<close>'s additional elements. When the assignment leaves by an exception
  instead, \<open>v.Size\<close> is what it was: the size is updated last.
\<close>

theorem copy_assign_within_capacity:
  assumes "this \<noteq> rhs" and "valid (s this)" and "valid (s rhs)"
    and "Size (s rhs) \<le> Capacity (s this)"
  shows "((\<forall>x\<in>set (take (Size (s this)) (elements (s rhs))). \<not> copy_assign_throws T x) \<and>
          (\<forall>x\<in>set (drop (Size (s this)) (elements (s rhs))). \<not> copy_ctor_throws T x) \<longrightarrow>
            (\<exists>s'. copy_assign T this rhs s =
                    (Returns s',
                     map CopyAssigned (take (Size (s this)) (elements (s rhs))) @
                     (if Size (s rhs) < Size (s this)
                      then map Destroyed (drop (Size (s rhs)) (elements (s this)))
                      else map CopyConstructed (drop (Size (s this)) (elements (s rhs))))) \<and>
                  Size (s' this) = Size (s rhs) \<and>
                  elements (s' this) = elements (s rhs) \<and>
                  Capacity (s' this) = Capacity (s this) \<and>
                  valid (s' this) \<and> s' rhs = s rhs)) \<and>
         (\<forall>e s' ev. copy_assign T this rhs s = (Throws e s', ev) \<longrightarrow>
            Size (s' this) = Size (s this))"
proof (intro conjI impI allI)
  fix e s' ev
  assume "copy_assign T this rhs s = (Throws e s', ev)"
  with assms(1,4) show "Size (s' this) = Size (s this)"
    unfolding Size_def Capacity_def by (rule copy_assign_throws_size)
next
  assume nt: "(\<forall>x\<in>set (take (Size (s this)) (elements (s rhs))). \<not> copy_assign_throws T x) \<and>
          (\<forall>x\<in>set (drop (Size (s this)) (elements (s rhs))). \<not> copy_ctor_throws T x)"
  from assms(2) obtain vs c where v: "s this = vector_of vs c" and lv: "length vs \<le> c"
    and ev: "elements (s this) = vs" and sv: "Size (s this) = length vs"
    and cv: "Capacity (s this) = c"
    by (rule valid_cases)
  from assms(3) obtain ws rc where w: "s rhs = vector_of ws rc" and lw: "length ws \<le> rc"
    and ew: "elements (s rhs) = ws" and sw: "Size (s rhs) = length ws"
    by (rule valid_cases)
  have fit: "length ws \<le> c" using assms(4) unfolding sw cv .
  let ?s' = "s(this := vector_of ws c)"
  have post: "Size (?s' this) = length ws \<and> elements (?s' this) = ws \<and>
      Capacity (?s' this) = c \<and> valid (?s' this) \<and> ?s' rhs = s rhs"
    using assms(1) fit
    by (simp add: Size_vector_of elements_vector_of Capacity_vector_of valid_vector_of)
  have run: "copy_assign T this rhs s =
      (Returns ?s',
       map CopyAssigned (take (length vs) ws) @
       (if length ws < length vs then map Destroyed (drop (length ws) vs)
        else map CopyConstructed (drop (length vs) ws)))"
  proof (cases "length ws < length vs")
    case True
    let ?vs1 = "take (length ws) vs" and ?vs2 = "drop (length ws) vs"
    have vs: "?vs1 @ ?vs2 = vs" by simp
    have l1: "length ?vs1 = length ws" using True by simp
    have l2: "?vs2 \<noteq> []" using True by simp
    have n: "\<forall>x\<in>set ws. \<not> copy_assign_throws T x"
      using nt True unfolding sv ew by simp
    have v': "s this = vector_of (?vs1 @ ?vs2) c" unfolding vs by (rule v)
    have lv': "length (?vs1 @ ?vs2) \<le> c" unfolding vs by (rule lv)
    from copy_assign_shrink [OF assms(1) v' lv' w lw l1 l2 n] True
    show ?thesis by simp
  next
    case False
    let ?ws1 = "take (length vs) ws" and ?ws2 = "drop (length vs) ws"
    have ws: "?ws1 @ ?ws2 = ws" by simp
    have l1: "length vs = length ?ws1" using False by simp
    have n1: "\<forall>x\<in>set ?ws1. \<not> copy_assign_throws T x"
      and n2: "\<forall>x\<in>set ?ws2. \<not> copy_ctor_throws T x"
      using nt unfolding sv ew by simp_all
    have w': "s rhs = vector_of (?ws1 @ ?ws2) rc" unfolding ws by (rule w)
    have lw': "length (?ws1 @ ?ws2) \<le> rc" unfolding ws by (rule lw)
    have fit': "length (?ws1 @ ?ws2) \<le> c" unfolding ws by (rule fit)
    from copy_assign_extend [OF assms(1) v fit' w' lw' l1 n1 n2] False
    show ?thesis unfolding ws by simp
  qed
  show "\<exists>s'. copy_assign T this rhs s =
                    (Returns s',
                     map CopyAssigned (take (Size (s this)) (elements (s rhs))) @
                     (if Size (s rhs) < Size (s this)
                      then map Destroyed (drop (Size (s rhs)) (elements (s this)))
                      else map CopyConstructed (drop (Size (s this)) (elements (s rhs))))) \<and>
                  Size (s' this) = Size (s rhs) \<and>
                  elements (s' this) = elements (s rhs) \<and>
                  Capacity (s' this) = Capacity (s this) \<and>
                  valid (s' this) \<and> s' rhs = s rhs"
    unfolding sv sw ev ew cv
    using run post by (intro exI [of _ ?s']) simp
qed

theorem copy_assign_within_capacity_witness:
  "(0 :: nat) \<noteq> 1 \<and>
   valid (vector_of [1, 2, 3 :: int] 4) \<and> valid (vector_of [5, 6 :: int] 2) \<and>
   Size (vector_of [5, 6 :: int] 2) \<le> Capacity (vector_of [1, 2, 3 :: int] 4) \<and>
   \<not> copy_assign_throws T_int 5 \<and> \<not> copy_assign_throws T_int 6 \<and>
   (\<exists>s'. copy_assign T_int 0 1
            (\<lambda>a. if a = 0 then vector_of [1, 2, 3] 4 else vector_of [5, 6] 2) =
            (Returns s', [CopyAssigned 5, CopyAssigned 6, Destroyed 3]) \<and>
      Size (s' 0) = 2 \<and> elements (s' 0) = [5, 6] \<and> Capacity (s' 0) = 4 \<and>
      s' 1 = vector_of [5, 6] 2) \<and>
   valid (vector_of [1 :: int] 4) \<and>
   Size (vector_of [5, 6 :: int] 2) \<le> Capacity (vector_of [1 :: int] 4) \<and>
   \<not> copy_assign_throws T_int 5 \<and> \<not> copy_ctor_throws T_int 6 \<and>
   (\<exists>s'. copy_assign T_int 0 1
            (\<lambda>a. if a = 0 then vector_of [1] 4 else vector_of [5, 6] 2) =
            (Returns s', [CopyAssigned 5, CopyConstructed 6]) \<and>
      Size (s' 0) = 2 \<and> elements (s' 0) = [5, 6] \<and> Capacity (s' 0) = 4) \<and>
   (\<exists>s' ev. copy_assign T_throwing 0 1
            (\<lambda>a. if a = 0 then vector_of [1, 2, 3] 4 else vector_of [5, - 6] 2) =
            (Throws element_exception s', ev) \<and>
      Size (s' 0) = 3)"
proof -
  let ?v = "vector_of [1, 2, 3 :: int] 4"
  let ?w = "vector_of [5, 6 :: int] 2"
  let ?w2 = "vector_of [5, - 6 :: int] 2"
  let ?s = "\<lambda>a :: nat. if a = 0 then ?v else ?w"
  let ?s2 = "\<lambda>a :: nat. if a = 0 then ?v else ?w2"
  have ne: "(0 :: nat) \<noteq> 1" by simp
  have hv: "valid ?v" and hw: "valid ?w" and hw2: "valid ?w2"
    by (simp_all add: valid_vector_of)
  have fit: "Size ?w \<le> Capacity ?v" and fit2: "Size ?w2 \<le> Capacity ?v"
    by (simp_all add: Size_vector_of Capacity_vector_of)
  have ev: "elements ?v = [1, 2, 3]" and ew: "elements ?w = [5, 6]"
    by (simp_all add: elements_vector_of)
  have sv: "Size ?v = 3" and sw: "Size ?w = 2" and cv: "Capacity ?v = 4"
    by (simp_all add: Size_vector_of Capacity_vector_of)
  have nt: "\<not> copy_assign_throws T_int 5" "\<not> copy_assign_throws T_int 6"
    by (simp_all add: T_int_def)
  have a: "?s 0 = ?v" "?s 1 = ?w" "?s2 0 = ?v" "?s2 1 = ?w2" by simp_all
  note t = copy_assign_within_capacity [of 0 1 ?s T_int, unfolded a, OF ne hv hw fit]
  from t nt have r1: "\<exists>s'. copy_assign T_int 0 1 ?s =
            (Returns s', [CopyAssigned 5, CopyAssigned 6, Destroyed 3]) \<and>
      Size (s' 0) = 2 \<and> elements (s' 0) = [5, 6] \<and> Capacity (s' 0) = 4 \<and> s' 1 = ?w"
    unfolding ev ew sv sw cv by (simp, blast)
  have "\<exists>s' ev. copy_assign T_throwing 0 1 ?s2 = (Throws element_exception s', ev)"
    by (simp add: copy_assign_def vector_of_def RawMemory_at_def T_throwing_def)
  then obtain s' ev where th: "copy_assign T_throwing 0 1 ?s2 = (Throws element_exception s', ev)"
    by blast
  note t2 = copy_assign_within_capacity [of 0 1 ?s2 T_throwing, unfolded a, OF ne hv hw2 fit2]
  from t2 th have "Size (s' 0) = Size ?v" by blast
  with th sv have r2: "\<exists>s' ev. copy_assign T_throwing 0 1 ?s2 =
            (Throws element_exception s', ev) \<and> Size (s' 0) = 3"
    by auto
  let ?u = "vector_of [1 :: int] 4"
  let ?s3 = "\<lambda>a :: nat. if a = 0 then ?u else ?w"
  have hu: "valid ?u" by (simp add: valid_vector_of)
  have fit3: "Size ?w \<le> Capacity ?u" by (simp add: Size_vector_of Capacity_vector_of)
  have eu: "Size ?u = 1" "Capacity ?u = 4" by (simp_all add: Size_vector_of Capacity_vector_of)
  have nt3: "\<not> copy_assign_throws T_int 5" "\<not> copy_ctor_throws T_int 6"
    by (simp_all add: T_int_def)
  have a3: "?s3 0 = ?u" "?s3 1 = ?w" by simp_all
  note t3 = copy_assign_within_capacity [of 0 1 ?s3 T_int, unfolded a3, OF ne hu hw fit3]
  from t3 nt3 have r3: "\<exists>s'. copy_assign T_int 0 1 ?s3 =
            (Returns s', [CopyAssigned 5, CopyConstructed 6]) \<and>
      Size (s' 0) = 2 \<and> elements (s' 0) = [5, 6] \<and> Capacity (s' 0) = 4"
    unfolding ew sw eu by (simp, blast)
  from ne hv hw fit nt r1 hu fit3 nt3 r3 r2 show ?thesis by blast
qed

section \<open>A copy that throws during a reallocation\<close>

text \<open>
  When the copy of an element throws, \<open>std::uninitialized_copy_n\<close> destroys the copies
  made so far and rethrows. \<open>Reserve\<close> and \<open>EmplaceBack\<close> let the exception propagate:
  the destructor of \<open>new_data\<close> releases the new block and the vector is as it was.
\<close>

lemma copy_loop_throws:
  assumes "\<forall>x\<in>set ok. \<not> copy_ctor_throws T x" "copy_ctor_throws T bad"
    "length hole = length ok"
  shows "copy_loop T (Block (spre @ map Obj ok @ Obj bad # spost)) (length spre)
           (length ok + Suc n) (Block (dpre @ hole @ dpost)) (length dpre) =
         (Throws element_exception (Block (dpre @ map Obj ok @ dpost), length dpre + length ok),
          map CopyConstructed ok)"
  using assms
proof (induction ok arbitrary: spre dpre hole)
  case Nil
  then show ?case by simp
next
  case (Cons x ok)
  then obtain h hole' where h: "hole = h # hole'" "length hole' = length ok"
    by (cases hole) auto
  have IH: "copy_loop T (Block ((spre @ [Obj x]) @ map Obj ok @ Obj bad # spost))
           (length (spre @ [Obj x])) (length ok + Suc n)
           (Block ((dpre @ [Obj x]) @ hole' @ dpost)) (length (dpre @ [Obj x])) =
         (Throws element_exception
            (Block ((dpre @ [Obj x]) @ map Obj ok @ dpost), length (dpre @ [Obj x]) + length ok),
          map CopyConstructed ok)"
    using Cons.prems h by (intro Cons.IH) auto
  show ?case using Cons.prems IH by (simp add: h)
qed

lemma uninitialized_copy_n_throws:
  assumes "\<forall>x\<in>set ok. \<not> copy_ctor_throws T x" "copy_ctor_throws T bad"
  shows "uninitialized_copy_n T (Block (map Obj ok @ Obj bad # spost)) 0 (length ok + Suc n)
           (Block (replicate (length ok) Raw @ dpost)) 0 =
         (Throws element_exception
            (Block (map Obj ok @ Obj bad # spost), Block (replicate (length ok) Raw @ dpost)),
          map CopyConstructed ok @ map Destroyed ok)"
proof -
  have l: "length (replicate (length ok) (Raw :: 'a slot)) = length ok" by simp
  from copy_loop_throws [OF assms l, of "[]" spost n "[]" dpost]
  have "copy_loop T (Block (map Obj ok @ Obj bad # spost)) 0 (length ok + Suc n)
           (Block (replicate (length ok) Raw @ dpost)) 0 =
         (Throws element_exception (Block (map Obj ok @ dpost), length ok),
          map CopyConstructed ok)"
    by simp
  then show ?thesis
    using destroy_prefix [of ok dpost]
    by (simp add: uninitialized_copy_n_def del: copy_loop.simps)
qed

lemma Reserve_throws_steps:
  assumes "m_capacity (m_data v) < n" "RawMemory_new T n = Some nd"
    "\<not> (is_nothrow_move_constructible T \<or> \<not> is_copy_constructible T)"
    "uninitialized_copy_n T (m_buffer (m_data v)) 0 (m_size v) (m_buffer nd) 0 =
       (Throws e (old, new), ev)"
    "new \<noteq> Dangling"
  shows "Reserve T n v = (Throws e (v\<lparr>m_data := (m_data v)\<lparr>m_buffer := old\<rparr>\<rparr>), ev)"
proof -
  have d: "RawMemory_dtor (nd\<lparr>m_buffer := new\<rparr>) \<noteq> None"
    using assms(5) by (cases new) (simp_all add: RawMemory_dtor_def)
  show ?thesis
    unfolding Reserve_def
    using assms(1-4) d by (auto simp add: leave_scope_def)
qed

lemma Reserve_copy_throws:
  assumes len: "length (ok @ bad # rest) \<le> c" and grow: "c < n"
    and sz: "0 < sizeof_T T" and fit: "n * sizeof_T T \<le> SIZE_MAX"
    and alloc: "\<not> operator_new_fails T n"
    and copies: "\<not> (is_nothrow_move_constructible T \<or> \<not> is_copy_constructible T)"
    and nothrow: "\<forall>x\<in>set ok. \<not> copy_ctor_throws T x" and throws: "copy_ctor_throws T bad"
  shows "Reserve T n (vector_of (ok @ bad # rest) c) =
           (Throws element_exception (vector_of (ok @ bad # rest) c),
            map CopyConstructed ok @ map Destroyed ok)"
proof -
  let ?v = "vector_of (ok @ bad # rest) c"
  let ?post = "replicate (c - length (ok @ bad # rest)) (Raw :: 'a slot)"
  let ?nd = "\<lparr>m_buffer = Block (replicate (length ok) Raw @ replicate (n - length ok) Raw),
             m_capacity = n\<rparr> :: 'a RawMemory"
  have c0: "c \<noteq> 0" using len by auto
  have n0: "n \<noteq> 0" using grow by simp
  have buf: "m_buffer (m_data ?v) = Block (map Obj ok @ Obj bad # (map Obj rest @ ?post))"
    using c0 by (simp add: vector_of_def)
  have msz: "m_size ?v = length ok + Suc (length rest)" by (simp add: vector_of_def)
  have cap: "m_capacity (m_data ?v) < n" using grow by (simp add: vector_of_def)
  have "length ok \<le> n" using len grow by simp
  then have sp: "replicate n (Raw :: 'a slot) =
      replicate (length ok) Raw @ replicate (n - length ok) Raw"
    by (rule replicate_split)
  have new: "RawMemory_new T n = Some ?nd"
    using RawMemory_new_delivers [OF sz fit alloc n0] sp by simp
  have cp: "uninitialized_copy_n T (m_buffer (m_data ?v)) 0 (m_size ?v) (m_buffer ?nd) 0 =
      (Throws element_exception (m_buffer (m_data ?v), m_buffer ?nd),
       map CopyConstructed ok @ map Destroyed ok)"
    unfolding buf msz using uninitialized_copy_n_throws [OF nothrow throws] by simp
  have "Reserve T n ?v =
      (Throws element_exception (?v\<lparr>m_data := (m_data ?v)\<lparr>m_buffer := m_buffer (m_data ?v)\<rparr>\<rparr>),
       map CopyConstructed ok @ map Destroyed ok)"
    by (rule Reserve_throws_steps [OF cap new copies cp]) simp
  then show ?thesis by simp
qed

lemma EmplaceBack_throws_steps:
  assumes "m_size v = m_capacity (m_data v)"
    "RawMemory_new T (if m_size v = 0 then 1 else 2 * m_size v) = Some nd"
    "construct_forwarded T a (m_buffer (m_data v)) (m_size v) = Returns (x, e0, src)"
    "store (m_buffer nd) (m_size v) (Obj x) = Some p0"
    "\<not> (is_nothrow_move_constructible T \<or> \<not> is_copy_constructible T)"
    "uninitialized_copy_n T src 0 (m_size v) p0 0 = (Throws e (old, new), ev)"
    "new \<noteq> Dangling"
  shows "EmplaceBack T a v = (Throws e (v\<lparr>m_data := (m_data v)\<lparr>m_buffer := old\<rparr>\<rparr>), e0 # ev)"
proof -
  have d: "RawMemory_dtor (nd\<lparr>m_buffer := new\<rparr>) \<noteq> None"
    using assms(7) by (cases new) (simp_all add: RawMemory_dtor_def)
  show ?thesis
    unfolding EmplaceBack_def
    using assms(1-6) d by (auto simp add: leave_scope_def simp del: One_nat_def)
qed

lemma EmplaceBack_copy_throws:
  assumes c: "construct_forwarded T a
                (m_buffer (m_data (vector_of (ok @ bad # rest) (length (ok @ bad # rest)))))
                (length (ok @ bad # rest)) =
              Returns (x, e0,
                m_buffer (m_data (vector_of (ok @ bad # rest) (length (ok @ bad # rest)))))"
    and sz: "0 < sizeof_T T"
    and fit: "2 * length (ok @ bad # rest) * sizeof_T T \<le> SIZE_MAX"
    and alloc: "\<not> operator_new_fails T (2 * length (ok @ bad # rest))"
    and copies: "\<not> (is_nothrow_move_constructible T \<or> \<not> is_copy_constructible T)"
    and nothrow: "\<forall>x\<in>set ok. \<not> copy_ctor_throws T x" and throws: "copy_ctor_throws T bad"
  shows "EmplaceBack T a (vector_of (ok @ bad # rest) (length (ok @ bad # rest))) =
           (Throws element_exception (vector_of (ok @ bad # rest) (length (ok @ bad # rest))),
            e0 # map CopyConstructed ok @ map Destroyed ok)"
proof -
  let ?n = "length ok + Suc (length rest)"
  let ?v = "vector_of (ok @ bad # rest) (length (ok @ bad # rest))"
  let ?k = "2 * ?n"
  let ?nd = "\<lparr>m_buffer = Block (replicate ?k Raw), m_capacity = ?k\<rparr> :: 'a RawMemory"
  let ?dpost = "replicate (Suc (length rest)) Raw @ Obj x # replicate (?k - Suc ?n) Raw"
  have buf: "m_buffer (m_data ?v) = Block (map Obj ok @ Obj bad # map Obj rest)"
    by (simp add: vector_of_def)
  have msz: "m_size ?v = ?n" by (simp add: vector_of_def)
  have full: "m_size ?v = m_capacity (m_data ?v)" by (simp add: vector_of_def)
  have al: "\<not> operator_new_fails T ?k" using alloc by simp
  have ft: "?k * sizeof_T T \<le> SIZE_MAX" using fit by simp
  have k: "(if m_size ?v = 0 then 1 else 2 * m_size ?v) = ?k"
    by (simp only: msz) simp
  have k0: "?k \<noteq> 0" by simp
  have new: "RawMemory_new T (if m_size ?v = 0 then 1 else 2 * m_size ?v) = Some ?nd"
    unfolding k by (rule RawMemory_new_delivers [OF sz ft al k0])
  have c': "construct_forwarded T a (m_buffer (m_data ?v)) (m_size ?v) =
      Returns (x, e0, m_buffer (m_data ?v))"
    using c by (simp add: vector_of_def)
  have lt: "?n < ?k" by simp
  have sp: "replicate ?n (Raw :: 'a slot) =
      replicate (length ok) Raw @ replicate (Suc (length rest)) Raw"
    by (simp only: replicate_add)
  have u: "(replicate ?k Raw)[?n := Obj x] = replicate (length ok) Raw @ ?dpost"
    using replicate_update_split [OF lt, of "Obj x"] sp by simp
  have st: "store (m_buffer ?nd) (m_size ?v) (Obj x) =
      Some (Block (replicate (length ok) Raw @ ?dpost))"
    unfolding msz using lt u by simp
  have cp: "uninitialized_copy_n T (m_buffer (m_data ?v)) 0 (m_size ?v)
      (Block (replicate (length ok) Raw @ ?dpost)) 0 =
      (Throws element_exception
         (m_buffer (m_data ?v), Block (replicate (length ok) Raw @ ?dpost)),
       map CopyConstructed ok @ map Destroyed ok)"
    unfolding buf msz using uninitialized_copy_n_throws [OF nothrow throws] by simp
  have "EmplaceBack T a ?v =
      (Throws element_exception (?v\<lparr>m_data := (m_data ?v)\<lparr>m_buffer := m_buffer (m_data ?v)\<rparr>\<rparr>),
       e0 # map CopyConstructed ok @ map Destroyed ok)"
    by (rule EmplaceBack_throws_steps [OF full new c' st copies cp]) simp
  then show ?thesis by simp
qed

section \<open>Move or copy on reallocation\<close>

text \<open>
  Claim C1. For every element type \<open>T\<close> and every reallocating growth operation
  (\<open>Reserve\<close> past the capacity, \<open>EmplaceBack\<close> and \<open>Emplace\<close> on a full vector), the
  elements of the vector are transferred into the new storage by move construction if
  \<open>T\<close>'s move constructor is declared non-throwing or \<open>T\<close> has no copy constructor, and
  by copy construction otherwise. First, whatever the vector, the arguments and the
  outcome of the call: apart from the construction of the new element, which is the
  first event of \<open>EmplaceBack\<close> and \<open>Emplace\<close>, the only special member functions
  called are the move constructor and the destructor in the first case, the copy
  constructor and the destructor in the second. Second, for a valid vector, when the
  byte count of the new block fits \<open>size_t\<close>, the allocation succeeds and the constructor
  used throws on no element, the operation returns the vector with the same elements
  (and the new one) in a block of the new capacity, and its events are, after the
  construction of the new element if there is one, the move constructions
  (respectively the copy constructions) of the elements in order, then the destruction
  of the old objects.
\<close>

theorem growth_transfers_by_move_or_copy:
  "(let moves = (is_nothrow_move_constructible T \<or> \<not> is_copy_constructible T);
        kinds = (if moves then range MoveConstructed else range CopyConstructed) \<union>
                range Destroyed;
        transfer = (if moves
                    then map MoveConstructed (elements v) @
                         map Destroyed (map (moved_from T) (elements v))
                    else map CopyConstructed (elements v) @ map Destroyed (elements v));
        k = (if Size v = 0 then 1 else 2 * Size v)
    in
      set (snd (Reserve T n v)) \<subseteq> kinds \<and>
      (Size v = Capacity v \<longrightarrow>
         set (tl (snd (EmplaceBack T a v))) \<subseteq> kinds \<and>
         set (tl (snd (Emplace T p a v))) \<subseteq> kinds) \<and>
      (valid v \<and> 0 < sizeof_T T \<and>
       (\<forall>y\<in>set (elements v). \<not> (if moves then move_ctor_throws T y else copy_ctor_throws T y))
       \<longrightarrow>
         (Capacity v < n \<and> n * sizeof_T T \<le> SIZE_MAX \<and> \<not> operator_new_fails T n \<longrightarrow>
            Reserve T n v = (Returns (vector_of (elements v) n), transfer)) \<and>
         (Size v = Capacity v \<and> k * sizeof_T T \<le> SIZE_MAX \<and> \<not> operator_new_fails T k \<longrightarrow>
            (\<forall>x e0. construct_forwarded T a (m_buffer (m_data v)) (Size v) =
                       Returns (x, e0, m_buffer (m_data v)) \<longrightarrow>
               EmplaceBack T a v = (Returns (vector_of (elements v @ [x]) k), e0 # transfer) \<and>
               (p \<le> Size v \<longrightarrow>
                  Emplace T p a v =
                    (Returns (vector_of (take p (elements v) @ x # drop p (elements v)) k, p),
                     e0 # transfer))))))"
proof -
  let ?moves = "is_nothrow_move_constructible T \<or> \<not> is_copy_constructible T"
  let ?kinds = "(if ?moves then range MoveConstructed else range CopyConstructed) \<union>
                range Destroyed"
  have one: "set (snd (Reserve T n v)) \<subseteq> ?kinds"
    by (rule Reserve_events)
  have two: "set (tl (snd (EmplaceBack T a v))) \<subseteq> ?kinds \<and>
             set (tl (snd (Emplace T p a v))) \<subseteq> ?kinds"
    if "Size v = Capacity v"
  proof -
    from that have full: "m_size v = m_capacity (m_data v)"
      by (simp add: Size_def Capacity_def)
    show ?thesis
      using EmplaceBack_events [OF full, of T a] Emplace_events [OF full, of T p a] by simp
  qed
  have three:
    "(Capacity v < n \<and> n * sizeof_T T \<le> SIZE_MAX \<and> \<not> operator_new_fails T n \<longrightarrow>
        Reserve T n v =
          (Returns (vector_of (elements v) n),
           if ?moves then map MoveConstructed (elements v) @
                          map Destroyed (map (moved_from T) (elements v))
           else map CopyConstructed (elements v) @ map Destroyed (elements v))) \<and>
     (Size v = Capacity v \<and> (if Size v = 0 then 1 else 2 * Size v) * sizeof_T T \<le> SIZE_MAX \<and>
      \<not> operator_new_fails T (if Size v = 0 then 1 else 2 * Size v) \<longrightarrow>
        (\<forall>x e0. construct_forwarded T a (m_buffer (m_data v)) (Size v) =
                   Returns (x, e0, m_buffer (m_data v)) \<longrightarrow>
           EmplaceBack T a v =
             (Returns (vector_of (elements v @ [x]) (if Size v = 0 then 1 else 2 * Size v)),
              e0 # (if ?moves then map MoveConstructed (elements v) @
                                   map Destroyed (map (moved_from T) (elements v))
                    else map CopyConstructed (elements v) @ map Destroyed (elements v))) \<and>
           (p \<le> Size v \<longrightarrow>
              Emplace T p a v =
                (Returns (vector_of (take p (elements v) @ x # drop p (elements v))
                            (if Size v = 0 then 1 else 2 * Size v), p),
                 e0 # (if ?moves then map MoveConstructed (elements v) @
                                      map Destroyed (map (moved_from T) (elements v))
                       else map CopyConstructed (elements v) @ map Destroyed (elements v))))))"
    if ok: "valid v" and sz: "0 < sizeof_T T"
      and nothrow: "\<forall>y\<in>set (elements v).
                      \<not> (if ?moves then move_ctor_throws T y else copy_ctor_throws T y)"
  proof -
    from ok obtain xs c where v: "v = vector_of xs c" and len: "length xs \<le> c"
      and el: "elements v = xs" and s: "Size v = length xs" and cap: "Capacity v = c"
      by (rule valid_cases)
    let ?k = "if length xs = 0 then 1 else 2 * length xs"
    let ?transfer = "if ?moves
               then map MoveConstructed xs @ map Destroyed (map (moved_from T) xs)
               else map CopyConstructed xs @ map Destroyed xs"
    from nothrow el have nt: "\<forall>y\<in>set xs.
        \<not> (if ?moves then move_ctor_throws T y else copy_ctor_throws T y)" by simp
    have r: "Reserve T n v = (Returns (vector_of xs n), ?transfer)"
      if "c < n" "n * sizeof_T T \<le> SIZE_MAX" "\<not> operator_new_fails T n"
      unfolding v by (rule Reserve_grow [OF len that(1) sz that(2) that(3) nt])
    have e: "EmplaceBack T a v = (Returns (vector_of (xs @ [x]) ?k), e0 # ?transfer) \<and>
             (p \<le> length xs \<longrightarrow>
                Emplace T p a v =
                  (Returns (vector_of (take p xs @ x # drop p xs) ?k, p), e0 # ?transfer))"
      if full: "length xs = c" and ft: "?k * sizeof_T T \<le> SIZE_MAX"
        and al: "\<not> operator_new_fails T ?k"
        and c: "construct_forwarded T a (m_buffer (m_data v)) (length xs) =
                  Returns (x, e0, m_buffer (m_data v))" for x e0
    proof (intro conjI impI)
      have vf: "v = vector_of xs (length xs)" using v full by simp
      have c': "construct_forwarded T a (m_buffer (m_data (vector_of xs (length xs)))) (length xs) =
          Returns (x, e0, m_buffer (m_data (vector_of xs (length xs))))"
        using c unfolding vf [symmetric] .
      show "EmplaceBack T a v = (Returns (vector_of (xs @ [x]) ?k), e0 # ?transfer)"
        unfolding vf by (rule EmplaceBack_grow [OF c' sz ft al nt])
    next
      have vf: "v = vector_of xs (length xs)" using v full by simp
      assume p: "p \<le> length xs"
      let ?ys = "take p xs" and ?zs = "drop p xs"
      have xs: "?ys @ ?zs = xs" by simp
      have lp: "length ?ys = p" using p by simp
      have c': "construct_forwarded T a
            (m_buffer (m_data (vector_of (?ys @ ?zs) (length (?ys @ ?zs))))) (length (?ys @ ?zs)) =
          Returns (x, e0, m_buffer (m_data (vector_of (?ys @ ?zs) (length (?ys @ ?zs)))))"
        unfolding xs using c unfolding vf [symmetric] .
      have ft': "(if length (?ys @ ?zs) = 0 then 1 else 2 * length (?ys @ ?zs)) * sizeof_T T \<le>
          SIZE_MAX"
        unfolding xs by (rule ft)
      have al': "\<not> operator_new_fails T
          (if length (?ys @ ?zs) = 0 then 1 else 2 * length (?ys @ ?zs))"
        unfolding xs by (rule al)
      have nt': "\<forall>y\<in>set (?ys @ ?zs).
             \<not> (if ?moves then move_ctor_throws T y else copy_ctor_throws T y)"
        unfolding xs by (rule nt)
      show "Emplace T p a v =
          (Returns (vector_of (?ys @ x # ?zs) ?k, p), e0 # ?transfer)"
        using Emplace_grow [OF c' sz ft' al' nt'] unfolding xs lp vf [symmetric] .
    qed
    show ?thesis
      unfolding el s cap
    proof (intro conjI impI allI)
      assume "c < n \<and> n * sizeof_T T \<le> SIZE_MAX \<and> \<not> operator_new_fails T n"
      then show "Reserve T n v = (Returns (vector_of xs n), ?transfer)"
        using r by blast
    next
      fix x e0
      assume a: "length xs = c \<and> ?k * sizeof_T T \<le> SIZE_MAX \<and> \<not> operator_new_fails T ?k"
        and c: "construct_forwarded T a (m_buffer (m_data v)) (length xs) =
                  Returns (x, e0, m_buffer (m_data v))"
      from a have a1: "length xs = c" and a2: "?k * sizeof_T T \<le> SIZE_MAX"
        and a3: "\<not> operator_new_fails T ?k" by blast+
      from e [OF a1 a2 a3 c]
      show "EmplaceBack T a v = (Returns (vector_of (xs @ [x]) ?k), e0 # ?transfer)" ..
    next
      fix x e0
      assume a: "length xs = c \<and> ?k * sizeof_T T \<le> SIZE_MAX \<and> \<not> operator_new_fails T ?k"
        and c: "construct_forwarded T a (m_buffer (m_data v)) (length xs) =
                  Returns (x, e0, m_buffer (m_data v))"
        and p: "p \<le> length xs"
      from a have a1: "length xs = c" and a2: "?k * sizeof_T T \<le> SIZE_MAX"
        and a3: "\<not> operator_new_fails T ?k" by blast+
      from e [OF a1 a2 a3 c] p
      show "Emplace T p a v =
          (Returns (vector_of (take p xs @ x # drop p xs) ?k, p), e0 # ?transfer)" by blast
    qed
  qed
  show ?thesis
    unfolding Let_def
  proof (intro conjI impI)
    show "set (snd (Reserve T n v)) \<subseteq> ?kinds" by (rule one)
  next
    assume "Size v = Capacity v"
    from two [OF this] show "set (tl (snd (EmplaceBack T a v))) \<subseteq> ?kinds" ..
  next
    assume "Size v = Capacity v"
    from two [OF this] show "set (tl (snd (Emplace T p a v))) \<subseteq> ?kinds" ..
  next
    assume h: "valid v \<and> 0 < sizeof_T T \<and>
       (\<forall>y\<in>set (elements v). \<not> (if ?moves then move_ctor_throws T y else copy_ctor_throws T y))"
      and g: "Capacity v < n \<and> n * sizeof_T T \<le> SIZE_MAX \<and> \<not> operator_new_fails T n"
    from h have h1: "valid v" and h2: "0 < sizeof_T T"
      and h3: "\<forall>y\<in>set (elements v).
                \<not> (if ?moves then move_ctor_throws T y else copy_ctor_throws T y)"
      by blast+
    from three [OF h1 h2 h3] g
    show "Reserve T n v =
          (Returns (vector_of (elements v) n),
           if ?moves then map MoveConstructed (elements v) @
                          map Destroyed (map (moved_from T) (elements v))
           else map CopyConstructed (elements v) @ map Destroyed (elements v))"
      by blast
  next
    assume h: "valid v \<and> 0 < sizeof_T T \<and>
       (\<forall>y\<in>set (elements v). \<not> (if ?moves then move_ctor_throws T y else copy_ctor_throws T y))"
    from h have h1: "valid v" and h2: "0 < sizeof_T T"
      and h3: "\<forall>y\<in>set (elements v).
                \<not> (if ?moves then move_ctor_throws T y else copy_ctor_throws T y)"
      by blast+
    assume g: "Size v = Capacity v \<and>
      (if Size v = 0 then 1 else 2 * Size v) * sizeof_T T \<le> SIZE_MAX \<and>
      \<not> operator_new_fails T (if Size v = 0 then 1 else 2 * Size v)"
    from three [OF h1 h2 h3] g
    show "(\<forall>x e0. construct_forwarded T a (m_buffer (m_data v)) (Size v) =
                   Returns (x, e0, m_buffer (m_data v)) \<longrightarrow>
           EmplaceBack T a v =
             (Returns (vector_of (elements v @ [x]) (if Size v = 0 then 1 else 2 * Size v)),
              e0 # (if ?moves then map MoveConstructed (elements v) @
                                   map Destroyed (map (moved_from T) (elements v))
                    else map CopyConstructed (elements v) @ map Destroyed (elements v))) \<and>
           (p \<le> Size v \<longrightarrow>
              Emplace T p a v =
                (Returns (vector_of (take p (elements v) @ x # drop p (elements v))
                            (if Size v = 0 then 1 else 2 * Size v), p),
                 e0 # (if ?moves then map MoveConstructed (elements v) @
                                      map Destroyed (map (moved_from T) (elements v))
                       else map CopyConstructed (elements v) @ map Destroyed (elements v)))))"
      by blast
  qed
qed

theorem growth_transfers_by_move_or_copy_witness:
  "valid (vector_of [1, 2, 3 :: int] 3) \<and>
   elements (vector_of [1, 2, 3 :: int] 3) = [1, 2, 3] \<and>
   Size (vector_of [1, 2, 3 :: int] 3) = Capacity (vector_of [1, 2, 3 :: int] 3) \<and>
   Capacity (vector_of [1, 2, 3 :: int] 3) < 5 \<and>
   1 \<le> Size (vector_of [1, 2, 3 :: int] 3) \<and>
   \<not> (is_nothrow_move_constructible T_throwing \<or> \<not> is_copy_constructible T_throwing) \<and>
   0 < sizeof_T T_throwing \<and>
   5 * sizeof_T T_throwing \<le> SIZE_MAX \<and> 6 * sizeof_T T_throwing \<le> SIZE_MAX \<and>
   \<not> operator_new_fails T_throwing 5 \<and> \<not> operator_new_fails T_throwing 6 \<and>
   \<not> copy_ctor_throws T_throwing 1 \<and> \<not> copy_ctor_throws T_throwing 2 \<and>
   \<not> copy_ctor_throws T_throwing 3 \<and>
   construct_forwarded T_throwing (Outside (ByCopy 7))
       (m_buffer (m_data (vector_of [1, 2, 3] 3))) 3 =
     Returns (7, CopyConstructed 7, m_buffer (m_data (vector_of [1, 2, 3] 3))) \<and>
   set (snd (Reserve T_throwing 5 (vector_of [1, 2, 3] 3))) \<subseteq>
     range CopyConstructed \<union> range Destroyed \<and>
   set (tl (snd (EmplaceBack T_throwing (Outside (ByCopy 7)) (vector_of [1, 2, 3] 3)))) \<subseteq>
     range CopyConstructed \<union> range Destroyed \<and>
   set (tl (snd (Emplace T_throwing 1 (Outside (ByCopy 7)) (vector_of [1, 2, 3] 3)))) \<subseteq>
     range CopyConstructed \<union> range Destroyed \<and>
   Reserve T_throwing 5 (vector_of [1, 2, 3] 3) =
     (Returns (vector_of [1, 2, 3] 5),
      [CopyConstructed 1, CopyConstructed 2, CopyConstructed 3,
       Destroyed 1, Destroyed 2, Destroyed 3]) \<and>
   EmplaceBack T_throwing (Outside (ByCopy 7)) (vector_of [1, 2, 3] 3) =
     (Returns (vector_of [1, 2, 3, 7] 6),
      [CopyConstructed 7, CopyConstructed 1, CopyConstructed 2, CopyConstructed 3,
       Destroyed 1, Destroyed 2, Destroyed 3]) \<and>
   Emplace T_throwing 1 (Outside (ByCopy 7)) (vector_of [1, 2, 3] 3) =
     (Returns (vector_of [1, 7, 2, 3] 6, 1),
      [CopyConstructed 7, CopyConstructed 1, CopyConstructed 2, CopyConstructed 3,
       Destroyed 1, Destroyed 2, Destroyed 3]) \<and>
   (is_nothrow_move_constructible T_int \<or> \<not> is_copy_constructible T_int) \<and>
   0 < sizeof_T T_int \<and> 5 * sizeof_T T_int \<le> SIZE_MAX \<and> 6 * sizeof_T T_int \<le> SIZE_MAX \<and>
   \<not> operator_new_fails T_int 5 \<and> \<not> operator_new_fails T_int 6 \<and>
   \<not> move_ctor_throws T_int 1 \<and> \<not> move_ctor_throws T_int 2 \<and> \<not> move_ctor_throws T_int 3 \<and>
   construct_forwarded T_int (Lvalue_element 0) (m_buffer (m_data (vector_of [1, 2, 3] 3))) 3 =
     Returns (1, CopyConstructed 1, m_buffer (m_data (vector_of [1, 2, 3] 3))) \<and>
   set (snd (Reserve T_int 5 (vector_of [1, 2, 3] 3))) \<subseteq>
     range MoveConstructed \<union> range Destroyed \<and>
   set (tl (snd (EmplaceBack T_int (Lvalue_element 0) (vector_of [1, 2, 3] 3)))) \<subseteq>
     range MoveConstructed \<union> range Destroyed \<and>
   set (tl (snd (Emplace T_int 1 (Lvalue_element 0) (vector_of [1, 2, 3] 3)))) \<subseteq>
     range MoveConstructed \<union> range Destroyed \<and>
   Reserve T_int 5 (vector_of [1, 2, 3] 3) =
     (Returns (vector_of [1, 2, 3] 5),
      [MoveConstructed 1, MoveConstructed 2, MoveConstructed 3,
       Destroyed 1, Destroyed 2, Destroyed 3]) \<and>
   EmplaceBack T_int (Lvalue_element 0) (vector_of [1, 2, 3] 3) =
     (Returns (vector_of [1, 2, 3, 1] 6),
      [CopyConstructed 1, MoveConstructed 1, MoveConstructed 2, MoveConstructed 3,
       Destroyed 1, Destroyed 2, Destroyed 3]) \<and>
   Emplace T_int 1 (Lvalue_element 0) (vector_of [1, 2, 3] 3) =
     (Returns (vector_of [1, 1, 2, 3] 6, 1),
      [CopyConstructed 1, MoveConstructed 1, MoveConstructed 2, MoveConstructed 3,
       Destroyed 1, Destroyed 2, Destroyed 3])"
proof -
  let ?v = "vector_of [1, 2, 3 :: int] 3"
  have h1: "valid ?v" by (simp add: valid_vector_of)
  have el: "elements ?v = [1, 2, 3]" by (simp add: elements_vector_of)
  have cap: "Capacity ?v = 3" by (rule Capacity_vector_of)
  have sz: "Size ?v = 3" by (simp add: Size_vector_of)
  have t1: "is_nothrow_move_constructible T_throwing = False"
    "is_copy_constructible T_throwing = True" "sizeof_T T_throwing = 4"
    "operator_new_fails T_throwing = (\<lambda>n. False)"
    "copy_ctor_throws T_throwing = (\<lambda>x. x < 0)"
    by (simp_all add: T_throwing_def)
  have t2: "is_nothrow_move_constructible T_int = True" "sizeof_T T_int = 4"
    "operator_new_fails T_int = (\<lambda>n. False)" "move_ctor_throws T_int = (\<lambda>x. False)"
    "moved_from T_int = (\<lambda>x. x)"
    by (simp_all add: T_int_def)
  have c1: "construct_forwarded T_throwing (Outside (ByCopy 7)) (m_buffer (m_data ?v)) 3 =
      Returns (7, CopyConstructed 7, m_buffer (m_data ?v))"
    by (simp add: construct_forwarded_def construct_def t1)
  have c2: "construct_forwarded T_int (Lvalue_element 0) (m_buffer (m_data ?v)) 3 =
      Returns (1, CopyConstructed 1, m_buffer (m_data ?v))"
    by (simp add: construct_forwarded_def vector_of_def T_int_def)
  have m: "5 * (4 :: nat) \<le> SIZE_MAX" "6 * (4 :: nat) \<le> SIZE_MAX"
    by (simp_all add: SIZE_MAX_def)
  have hyps: "valid ?v \<and> elements ?v = [1, 2, 3] \<and> Size ?v = Capacity ?v \<and> Capacity ?v < 5 \<and>
      1 \<le> Size ?v \<and>
      \<not> (is_nothrow_move_constructible T_throwing \<or> \<not> is_copy_constructible T_throwing) \<and>
      0 < sizeof_T T_throwing \<and>
      5 * sizeof_T T_throwing \<le> SIZE_MAX \<and> 6 * sizeof_T T_throwing \<le> SIZE_MAX \<and>
      \<not> operator_new_fails T_throwing 5 \<and> \<not> operator_new_fails T_throwing 6 \<and>
      \<not> copy_ctor_throws T_throwing 1 \<and> \<not> copy_ctor_throws T_throwing 2 \<and>
      \<not> copy_ctor_throws T_throwing 3 \<and>
      (is_nothrow_move_constructible T_int \<or> \<not> is_copy_constructible T_int) \<and>
      0 < sizeof_T T_int \<and> 5 * sizeof_T T_int \<le> SIZE_MAX \<and> 6 * sizeof_T T_int \<le> SIZE_MAX \<and>
      \<not> operator_new_fails T_int 5 \<and> \<not> operator_new_fails T_int 6 \<and>
      \<not> move_ctor_throws T_int 1 \<and> \<not> move_ctor_throws T_int 2 \<and> \<not> move_ctor_throws T_int 3"
    using h1 el m by (simp add: cap sz t1 t2)
  note a = growth_transfers_by_move_or_copy
    [where T = T_throwing and v = ?v and n = 5 and a = "Outside (ByCopy 7)" and p = 1,
     unfolded Let_def]
  note b = growth_transfers_by_move_or_copy
    [where T = T_int and v = ?v and n = 5 and a = "Lvalue_element 0" and p = 1,
     unfolded Let_def]
  from a h1 m have a': "set (snd (Reserve T_throwing 5 ?v)) \<subseteq>
       range CopyConstructed \<union> range Destroyed \<and>
     set (tl (snd (EmplaceBack T_throwing (Outside (ByCopy 7)) ?v))) \<subseteq>
       range CopyConstructed \<union> range Destroyed \<and>
     set (tl (snd (Emplace T_throwing 1 (Outside (ByCopy 7)) ?v))) \<subseteq>
       range CopyConstructed \<union> range Destroyed \<and>
     Reserve T_throwing 5 ?v =
       (Returns (vector_of [1, 2, 3] 5),
        [CopyConstructed 1, CopyConstructed 2, CopyConstructed 3,
         Destroyed 1, Destroyed 2, Destroyed 3]) \<and>
     EmplaceBack T_throwing (Outside (ByCopy 7)) ?v =
       (Returns (vector_of [1, 2, 3, 7] 6),
        [CopyConstructed 7, CopyConstructed 1, CopyConstructed 2, CopyConstructed 3,
         Destroyed 1, Destroyed 2, Destroyed 3]) \<and>
     Emplace T_throwing 1 (Outside (ByCopy 7)) ?v =
       (Returns (vector_of [1, 7, 2, 3] 6, 1),
        [CopyConstructed 7, CopyConstructed 1, CopyConstructed 2, CopyConstructed 3,
         Destroyed 1, Destroyed 2, Destroyed 3])"
    by (simp add: el cap sz t1 c1)
  from b h1 m have b': "set (snd (Reserve T_int 5 ?v)) \<subseteq>
       range MoveConstructed \<union> range Destroyed \<and>
     set (tl (snd (EmplaceBack T_int (Lvalue_element 0) ?v))) \<subseteq>
       range MoveConstructed \<union> range Destroyed \<and>
     set (tl (snd (Emplace T_int 1 (Lvalue_element 0) ?v))) \<subseteq>
       range MoveConstructed \<union> range Destroyed \<and>
     Reserve T_int 5 ?v =
       (Returns (vector_of [1, 2, 3] 5),
        [MoveConstructed 1, MoveConstructed 2, MoveConstructed 3,
         Destroyed 1, Destroyed 2, Destroyed 3]) \<and>
     EmplaceBack T_int (Lvalue_element 0) ?v =
       (Returns (vector_of [1, 2, 3, 1] 6),
        [CopyConstructed 1, MoveConstructed 1, MoveConstructed 2, MoveConstructed 3,
         Destroyed 1, Destroyed 2, Destroyed 3]) \<and>
     Emplace T_int 1 (Lvalue_element 0) ?v =
       (Returns (vector_of [1, 1, 2, 3] 6, 1),
        [CopyConstructed 1, MoveConstructed 1, MoveConstructed 2, MoveConstructed 3,
         Destroyed 1, Destroyed 2, Destroyed 3])"
    by (simp add: el cap sz t2 c2)
  from hyps c1 c2 a' b' show ?thesis by blast
qed

section \<open>Append on a full vector\<close>

lemma subscript_appended:
  "length xs < c \<Longrightarrow> subscript (vector_of (xs @ [x]) c) (length xs) = Some (Obj x)"
  by (simp add: subscript_def RawMemory_at_def vector_of_def nth_append)

text \<open>
  Claim C2. For every vector whose size equals its capacity. When constructing the new
  element throws, \<open>EmplaceBack\<close> leaves by an exception with the vector exactly as it
  was (the same storage, hence the same size, capacity and element values) and without
  having called any other special member function of \<open>T\<close>. When the new storage is
  allocated and the new element is constructed, that construction is the first event of
  the call, before any existing element is transferred, whatever happens afterwards.
  For a valid vector, when the block of the new capacity \<open>k\<close> (1 for an empty vector,
  twice the size otherwise) is allocated and the new element \<open>x\<close> is constructed: if the
  constructor used by the transfer throws on no element, the call returns the vector
  whose storage is a block of \<open>k\<close> slots holding the old elements followed by \<open>x\<close>, so
  that \<open>x\<close> is in the slot \<open>Size\<close> of the new storage, and the events are the construction
  of \<open>x\<close>, the transfer of the elements and the destruction of the old objects; and if
  the elements are copied and the copy of one of them throws, the call leaves by that
  exception with the vector exactly as it was, after the construction of \<open>x\<close>, the copies
  made before the one that throws, and their destruction.
\<close>

theorem EmplaceBack_strong:
  assumes "Size v = Capacity v"
  shows
   "(let k = (if Size v = 0 then 1 else 2 * Size v);
         moves = (is_nothrow_move_constructible T \<or> \<not> is_copy_constructible T);
         transfer = (if moves
                     then map MoveConstructed (elements v) @
                          map Destroyed (map (moved_from T) (elements v))
                     else map CopyConstructed (elements v) @ map Destroyed (elements v))
     in
       (\<forall>e. construct_forwarded T a (m_buffer (m_data v)) (Size v) = Throws e () \<longrightarrow>
          (\<exists>e'. EmplaceBack T a v = (Throws e' v, []))) \<and>
       (\<forall>x e0 src. construct_forwarded T a (m_buffer (m_data v)) (Size v) = Returns (x, e0, src) \<longrightarrow>
          \<not> operator_new_fails T k \<longrightarrow> (\<exists>r ev. EmplaceBack T a v = (r, e0 # ev))) \<and>
       (valid v \<and> 0 < sizeof_T T \<and> k * sizeof_T T \<le> SIZE_MAX \<and> \<not> operator_new_fails T k \<longrightarrow>
          (\<forall>x e0. construct_forwarded T a (m_buffer (m_data v)) (Size v) =
                     Returns (x, e0, m_buffer (m_data v)) \<longrightarrow>
             ((\<forall>y\<in>set (elements v).
                 \<not> (if moves then move_ctor_throws T y else copy_ctor_throws T y)) \<longrightarrow>
                EmplaceBack T a v = (Returns (vector_of (elements v @ [x]) k), e0 # transfer) \<and>
                subscript (vector_of (elements v @ [x]) k) (Size v) = Some (Obj x)) \<and>
             (\<not> moves \<longrightarrow>
                (\<forall>ok bad rest.
                   elements v = ok @ bad # rest \<and> (\<forall>y\<in>set ok. \<not> copy_ctor_throws T y) \<and>
                   copy_ctor_throws T bad \<longrightarrow>
                     EmplaceBack T a v =
                       (Throws element_exception v,
                        e0 # map CopyConstructed ok @ map Destroyed ok))))))"
proof -
  let ?k = "if m_size v = 0 then 1 else 2 * m_size v"
  let ?moves = "is_nothrow_move_constructible T \<or> \<not> is_copy_constructible T"
  have full: "m_size v = m_capacity (m_data v)"
    using assms by (simp add: Size_def Capacity_def)
  have one: "\<exists>e'. EmplaceBack T a v = (Throws e' v, [])"
    if c: "construct_forwarded T a (m_buffer (m_data v)) (m_size v) = Throws e ()" for e
  proof (cases "RawMemory_new T ?k")
    case None
    then show ?thesis using full by (simp add: EmplaceBack_def)
  next
    case (Some nd)
    then show ?thesis
      using full c by (simp add: EmplaceBack_def leave_scope_allocated [OF Some])
  qed
  have two: "\<exists>r ev. EmplaceBack T a v = (r, e0 # ev)"
    if c: "construct_forwarded T a (m_buffer (m_data v)) (m_size v) = Returns (x, e0, src)"
      and n: "\<not> operator_new_fails T ?k" for x e0 src
  proof -
    from n obtain nd where nd: "RawMemory_new T ?k = Some nd"
      by (cases "m_size v = 0") (simp_all add: RawMemory_new_def Allocate_def)
    have "snd (EmplaceBack T a v) = e0 # tl (snd (EmplaceBack T a v))"
      using full c nd
      by (simp add: EmplaceBack_def snd_leave_scope split: option.split prod.split outcome.split)
    then show ?thesis by (metis prod.collapse)
  qed
  have three:
    "((\<forall>y\<in>set (elements v).
         \<not> (if ?moves then move_ctor_throws T y else copy_ctor_throws T y)) \<longrightarrow>
        EmplaceBack T a v =
          (Returns (vector_of (elements v @ [x]) ?k),
           e0 # (if ?moves
                 then map MoveConstructed (elements v) @
                      map Destroyed (map (moved_from T) (elements v))
                 else map CopyConstructed (elements v) @ map Destroyed (elements v))) \<and>
        subscript (vector_of (elements v @ [x]) ?k) (m_size v) = Some (Obj x)) \<and>
     (\<not> ?moves \<longrightarrow>
        (\<forall>ok bad rest.
           elements v = ok @ bad # rest \<and> (\<forall>y\<in>set ok. \<not> copy_ctor_throws T y) \<and>
           copy_ctor_throws T bad \<longrightarrow>
             EmplaceBack T a v =
               (Throws element_exception v, e0 # map CopyConstructed ok @ map Destroyed ok)))"
    if ok: "valid v" and sz: "0 < sizeof_T T" and ft: "?k * sizeof_T T \<le> SIZE_MAX"
      and al: "\<not> operator_new_fails T ?k"
      and c: "construct_forwarded T a (m_buffer (m_data v)) (m_size v) =
                Returns (x, e0, m_buffer (m_data v))" for x e0
  proof -
    from ok obtain xs c where v: "v = vector_of xs c" and len: "length xs \<le> c"
      and el: "elements v = xs" and s: "Size v = length xs" and cap: "Capacity v = c"
      by (rule valid_cases)
    have ms: "m_size v = length xs" using s by (simp add: Size_def)
    have vf: "v = vector_of xs (length xs)"
      using v assms s cap by simp
    let ?kx = "if length xs = 0 then 1 else 2 * length xs"
    have c': "construct_forwarded T a (m_buffer (m_data (vector_of xs (length xs)))) (length xs) =
        Returns (x, e0, m_buffer (m_data (vector_of xs (length xs))))"
      using c unfolding ms vf [symmetric] .
    have ft': "?kx * sizeof_T T \<le> SIZE_MAX" using ft unfolding ms .
    have al': "\<not> operator_new_fails T ?kx" using al unfolding ms .
    have lt: "length xs < ?kx" by (cases xs) simp_all
    show ?thesis
      unfolding el ms
    proof (intro conjI impI allI)
      assume nt: "\<forall>y\<in>set xs. \<not> (if ?moves then move_ctor_throws T y else copy_ctor_throws T y)"
      show "EmplaceBack T a v =
          (Returns (vector_of (xs @ [x]) ?kx),
           e0 # (if ?moves then map MoveConstructed xs @ map Destroyed (map (moved_from T) xs)
                 else map CopyConstructed xs @ map Destroyed xs))"
        unfolding vf by (rule EmplaceBack_grow [OF c' sz ft' al' nt])
      show "subscript (vector_of (xs @ [x]) ?kx) (length xs) = Some (Obj x)"
        by (rule subscript_appended [OF lt])
    next
      fix good bad rest
      assume copies: "\<not> ?moves"
        and h: "xs = good @ bad # rest \<and> (\<forall>y\<in>set good. \<not> copy_ctor_throws T y) \<and>
                copy_ctor_throws T bad"
      from h have xs: "xs = good @ bad # rest"
        and nt: "\<forall>y\<in>set good. \<not> copy_ctor_throws T y" and th: "copy_ctor_throws T bad"
        by blast+
      have ne: "length xs \<noteq> 0" using xs by simp
      have c'': "construct_forwarded T a
            (m_buffer (m_data (vector_of (good @ bad # rest) (length (good @ bad # rest)))))
            (length (good @ bad # rest)) =
          Returns (x, e0,
            m_buffer (m_data (vector_of (good @ bad # rest) (length (good @ bad # rest)))))"
        using c' unfolding xs .
      have ft'': "2 * length (good @ bad # rest) * sizeof_T T \<le> SIZE_MAX"
        using ft' ne unfolding xs by simp
      have al'': "\<not> operator_new_fails T (2 * length (good @ bad # rest))"
        using al' ne unfolding xs by simp
      show "EmplaceBack T a v =
          (Throws element_exception v, e0 # map CopyConstructed good @ map Destroyed good)"
        using EmplaceBack_copy_throws [OF c'' sz ft'' al'' copies nt th]
        unfolding xs [symmetric] vf [symmetric] .
    qed
  qed
  show ?thesis
    unfolding Let_def Size_def
  proof (intro conjI impI allI)
    fix e
    assume "construct_forwarded T a (m_buffer (m_data v)) (m_size v) = Throws e ()"
    then show "\<exists>e'. EmplaceBack T a v = (Throws e' v, [])" by (rule one)
  next
    fix x e0 src
    assume "construct_forwarded T a (m_buffer (m_data v)) (m_size v) = Returns (x, e0, src)"
      "\<not> operator_new_fails T ?k"
    then show "\<exists>r ev. EmplaceBack T a v = (r, e0 # ev)" by (rule two)
  next
    fix x e0
    assume h: "valid v \<and> 0 < sizeof_T T \<and> ?k * sizeof_T T \<le> SIZE_MAX \<and>
               \<not> operator_new_fails T ?k"
      and c: "construct_forwarded T a (m_buffer (m_data v)) (m_size v) =
                Returns (x, e0, m_buffer (m_data v))"
      and nt: "\<forall>y\<in>set (elements v).
                 \<not> (if ?moves then move_ctor_throws T y else copy_ctor_throws T y)"
    from h have h1: "valid v" and h2: "0 < sizeof_T T" and h3: "?k * sizeof_T T \<le> SIZE_MAX"
      and h4: "\<not> operator_new_fails T ?k" by blast+
    from three [OF h1 h2 h3 h4 c] nt
    show "EmplaceBack T a v =
          (Returns (vector_of (elements v @ [x]) ?k),
           e0 # (if ?moves
                 then map MoveConstructed (elements v) @
                      map Destroyed (map (moved_from T) (elements v))
                 else map CopyConstructed (elements v) @ map Destroyed (elements v)))"
      and "subscript (vector_of (elements v @ [x]) ?k) (m_size v) = Some (Obj x)"
      by blast+
  next
    fix x e0 ok bad rest
    assume h: "valid v \<and> 0 < sizeof_T T \<and> ?k * sizeof_T T \<le> SIZE_MAX \<and>
               \<not> operator_new_fails T ?k"
      and c: "construct_forwarded T a (m_buffer (m_data v)) (m_size v) =
                Returns (x, e0, m_buffer (m_data v))"
      and copies: "\<not> ?moves"
      and t: "elements v = ok @ bad # rest \<and> (\<forall>y\<in>set ok. \<not> copy_ctor_throws T y) \<and>
              copy_ctor_throws T bad"
    from h have h1: "valid v" and h2: "0 < sizeof_T T" and h3: "?k * sizeof_T T \<le> SIZE_MAX"
      and h4: "\<not> operator_new_fails T ?k" by blast+
    from three [OF h1 h2 h3 h4 c] copies t
    show "EmplaceBack T a v =
            (Throws element_exception v, e0 # map CopyConstructed ok @ map Destroyed ok)"
      by blast
  qed
qed

theorem EmplaceBack_strong_witness:
  "Size (vector_of [1, 2, 3 :: int] 3) = Capacity (vector_of [1, 2, 3 :: int] 3) \<and>
   Size (vector_of [1, - 2, 3 :: int] 3) = Capacity (vector_of [1, - 2, 3 :: int] 3) \<and>
   valid (vector_of [1, 2, 3 :: int] 3) \<and> valid (vector_of [1, - 2, 3 :: int] 3) \<and>
   \<not> (is_nothrow_move_constructible T_throwing \<or> \<not> is_copy_constructible T_throwing) \<and>
   0 < sizeof_T T_throwing \<and> 6 * sizeof_T T_throwing \<le> SIZE_MAX \<and>
   \<not> operator_new_fails T_throwing 6 \<and>
   construct_forwarded T_throwing (Outside (ByCopy (- 7)))
       (m_buffer (m_data (vector_of [1, 2, 3] 3))) 3 = Throws element_exception () \<and>
   (\<exists>e'. EmplaceBack T_throwing (Outside (ByCopy (- 7))) (vector_of [1, 2, 3] 3) =
           (Throws e' (vector_of [1, 2, 3] 3), [])) \<and>
   construct_forwarded T_throwing (Outside (ByCopy 7))
       (m_buffer (m_data (vector_of [1, 2, 3] 3))) 3 =
     Returns (7, CopyConstructed 7, m_buffer (m_data (vector_of [1, 2, 3] 3))) \<and>
   \<not> copy_ctor_throws T_throwing 1 \<and> \<not> copy_ctor_throws T_throwing 2 \<and>
   \<not> copy_ctor_throws T_throwing 3 \<and>
   (\<exists>r ev. EmplaceBack T_throwing (Outside (ByCopy 7)) (vector_of [1, 2, 3] 3) =
           (r, CopyConstructed 7 # ev)) \<and>
   EmplaceBack T_throwing (Outside (ByCopy 7)) (vector_of [1, 2, 3] 3) =
     (Returns (vector_of [1, 2, 3, 7] 6),
      [CopyConstructed 7, CopyConstructed 1, CopyConstructed 2, CopyConstructed 3,
       Destroyed 1, Destroyed 2, Destroyed 3]) \<and>
   subscript (vector_of [1, 2, 3, 7 :: int] 6) 3 = Some (Obj 7) \<and>
   construct_forwarded T_throwing (Outside (ByCopy 7))
       (m_buffer (m_data (vector_of [1, - 2, 3] 3))) 3 =
     Returns (7, CopyConstructed 7, m_buffer (m_data (vector_of [1, - 2, 3] 3))) \<and>
   elements (vector_of [1, - 2, 3 :: int] 3) = [1] @ (- 2) # [3] \<and>
   copy_ctor_throws T_throwing (- 2) \<and>
   EmplaceBack T_throwing (Outside (ByCopy 7)) (vector_of [1, - 2, 3] 3) =
     (Throws element_exception (vector_of [1, - 2, 3] 3),
      [CopyConstructed 7, CopyConstructed 1, Destroyed 1])"
proof -
  let ?v = "vector_of [1, 2, 3 :: int] 3"
  let ?w = "vector_of [1, - 2, 3 :: int] 3"
  have s: "Size ?v = Capacity ?v" "Size ?w = Capacity ?w"
    by (simp_all add: Size_def Capacity_def vector_of_def)
  have ok: "valid ?v" "valid ?w" by (simp_all add: valid_vector_of)
  have el: "elements ?v = [1, 2, 3]" "elements ?w = [1] @ (- 2) # [3]"
    by (simp_all add: elements_vector_of)
  have sz: "Size ?v = 3" "Size ?w = 3" by (simp_all add: Size_vector_of)
  have t: "is_nothrow_move_constructible T_throwing = False"
    "is_copy_constructible T_throwing = True" "sizeof_T T_throwing = 4"
    "operator_new_fails T_throwing = (\<lambda>n. False)"
    "copy_ctor_throws T_throwing = (\<lambda>x. x < 0)"
    by (simp_all add: T_throwing_def)
  have m: "6 * (4 :: nat) \<le> SIZE_MAX" by (simp add: SIZE_MAX_def)
  have c1: "construct_forwarded T_throwing (Outside (ByCopy (- 7))) (m_buffer (m_data ?v)) 3 =
      Throws element_exception ()"
    by (simp add: construct_forwarded_def construct_def t)
  have c2: "construct_forwarded T_throwing (Outside (ByCopy 7)) (m_buffer (m_data ?v)) 3 =
      Returns (7, CopyConstructed 7, m_buffer (m_data ?v))"
    by (simp add: construct_forwarded_def construct_def t)
  have c3: "construct_forwarded T_throwing (Outside (ByCopy 7)) (m_buffer (m_data ?w)) 3 =
      Returns (7, CopyConstructed 7, m_buffer (m_data ?w))"
    by (simp add: construct_forwarded_def construct_def t)
  have hyps: "Size ?v = Capacity ?v \<and> Size ?w = Capacity ?w \<and> valid ?v \<and> valid ?w \<and>
      \<not> (is_nothrow_move_constructible T_throwing \<or> \<not> is_copy_constructible T_throwing) \<and>
      0 < sizeof_T T_throwing \<and> 6 * sizeof_T T_throwing \<le> SIZE_MAX \<and>
      \<not> operator_new_fails T_throwing 6 \<and>
      \<not> copy_ctor_throws T_throwing 1 \<and> \<not> copy_ctor_throws T_throwing 2 \<and>
      \<not> copy_ctor_throws T_throwing 3 \<and> copy_ctor_throws T_throwing (- 2)"
    using s ok m by (simp add: t)
  note a = EmplaceBack_strong [OF s(1), where T = T_throwing and a = "Outside (ByCopy (- 7))",
      unfolded Let_def]
  note b = EmplaceBack_strong [OF s(1), where T = T_throwing and a = "Outside (ByCopy 7)",
      unfolded Let_def]
  note c = EmplaceBack_strong [OF s(2), where T = T_throwing and a = "Outside (ByCopy 7)",
      unfolded Let_def]
  from a c1 have r1: "\<exists>e'. EmplaceBack T_throwing (Outside (ByCopy (- 7))) ?v =
      (Throws e' ?v, [])"
    unfolding sz by blast
  from b c2 have r2: "\<exists>r ev. EmplaceBack T_throwing (Outside (ByCopy 7)) ?v =
      (r, CopyConstructed 7 # ev)"
    unfolding sz by (simp add: t)
  from b ok(1) m have r3: "EmplaceBack T_throwing (Outside (ByCopy 7)) ?v =
        (Returns (vector_of [1, 2, 3, 7] 6),
         [CopyConstructed 7, CopyConstructed 1, CopyConstructed 2, CopyConstructed 3,
          Destroyed 1, Destroyed 2, Destroyed 3]) \<and>
      subscript (vector_of [1, 2, 3, 7 :: int] 6) 3 = Some (Obj 7)"
    by (simp add: sz el(1) t c2)
  have tw: "elements ?w = [1] @ (- 2) # [3] \<and> (\<forall>y\<in>set [1 :: int]. \<not> copy_ctor_throws T_throwing y) \<and>
      copy_ctor_throws T_throwing (- 2)"
    using el(2) by (simp add: t)
  from c ok(2) m c3 have "\<forall>ok bad rest.
      elements ?w = ok @ bad # rest \<and> (\<forall>y\<in>set ok. \<not> copy_ctor_throws T_throwing y) \<and>
      copy_ctor_throws T_throwing bad \<longrightarrow>
        EmplaceBack T_throwing (Outside (ByCopy 7)) ?w =
          (Throws element_exception ?w, CopyConstructed 7 # map CopyConstructed ok @ map Destroyed ok)"
    unfolding sz by (simp add: t)
  with tw have r4: "EmplaceBack T_throwing (Outside (ByCopy 7)) ?w =
      (Throws element_exception ?w, CopyConstructed 7 # map CopyConstructed [1] @ map Destroyed [1])"
    by blast
  then have r4': "EmplaceBack T_throwing (Outside (ByCopy 7)) ?w =
     (Throws element_exception ?w, [CopyConstructed 7, CopyConstructed 1, Destroyed 1])"
    by simp
  from hyps c1 c2 c3 el(2) r1 r2 r3 r4' show ?thesis by blast
qed

section \<open>The exception swallowed by \<open>Emplace\<close>\<close>

text \<open>
  Claim C3 says that a copy construction that throws during the transfer of a
  reallocating insertion leaves the container in a valid, destructible state. Take an
  element type that is copied on reallocation and whose copy constructor throws on the
  value \<open>-2\<close>, and the valid vector \<open>[1, -2, 3]\<close> of capacity 3, built by \<open>Reserve(3)\<close>
  and three calls of \<open>EmplaceBack\<close>. \<open>Insert(begin() + 1, x)\<close> with an lvalue \<open>x\<close> of
  value 7 returns as if it had succeeded:
  the \<open>catch (...)\<close> clause has freed the new block and does not rethrow, the old
  elements are then destroyed and the freed block is swapped into the vector. The vector
  returned has size 4 and capacity 6 on a dangling pointer; it is not valid and its
  destructor has undefined behaviour.
\<close>

theorem Insert_swallows_exception:
  "Reserve T_throwing 3 Vector_default = (Returns (vector_of [] 3), []) \<and>
   append_all T_throwing [InPlace 1, InPlace (- 2), InPlace 3] (vector_of [] 3) =
     (Returns (vector_of [1, - 2, 3] 3), [Constructed 1, Constructed (- 2), Constructed 3]) \<and>
   valid (vector_of [1, - 2, 3 :: int] 3) \<and>
   Insert T_throwing 1 (Object 7) (vector_of [1, - 2, 3] 3) =
     (Returns (\<lparr>m_data = \<lparr>m_buffer = Dangling, m_capacity = 6\<rparr>, m_size = 4\<rparr>, 1),
      [CopyConstructed 7, CopyConstructed 1, Destroyed 1, Destroyed (- 2), Destroyed 3]) \<and>
   \<not> valid \<lparr>m_data = \<lparr>m_buffer = (Dangling :: int ptr), m_capacity = 6\<rparr>, m_size = 4\<rparr> \<and>
   Vector_dtor \<lparr>m_data = \<lparr>m_buffer = (Dangling :: int ptr), m_capacity = 6\<rparr>, m_size = 4\<rparr> = None"
  by code_simp

section \<open>Insertion followed by removal\<close>

text \<open>
  Claim C5 says that, for every vector, every position \<open>p\<close> with \<open>0 \<le> p \<le> Size\<close> and
  every value \<open>x\<close>, the insertion of \<open>x\<close> at \<open>p\<close> followed by the removal at \<open>p\<close> gives a
  vector with the size and the element values of the original. Take the element type
  and the valid vector \<open>[1, -2, 3]\<close> of capacity 3 of the previous section, \<open>p = 1\<close> and
  an lvalue \<open>x\<close> of value 7. \<open>Insert(begin() + 1, x)\<close> returns, with a vector of size 4 and
  capacity 6 on a freed block, and \<open>Erase(begin() + 1)\<close> on that vector moves elements
  inside the freed block: it has undefined behaviour, and no vector with the elements
  \<open>[1, -2, 3]\<close> comes back. On the vector \<open>[1, 2, 3]\<close> of the same capacity, on which no
  copy throws, the same two calls return and give back \<open>[1, 2, 3]\<close>, with capacity 6.
\<close>

theorem Insert_then_Erase_after_swallowed_exception:
  "valid (vector_of [1, - 2, 3 :: int] 3) \<and>
   Size (vector_of [1, - 2, 3 :: int] 3) = 3 \<and>
   Insert T_throwing 1 (Object 7) (vector_of [1, - 2, 3] 3) =
     (Returns (\<lparr>m_data = \<lparr>m_buffer = Dangling, m_capacity = 6\<rparr>, m_size = 4\<rparr>, 1),
      [CopyConstructed 7, CopyConstructed 1, Destroyed 1, Destroyed (- 2), Destroyed 3]) \<and>
   Erase T_throwing 1 \<lparr>m_data = \<lparr>m_buffer = (Dangling :: int ptr), m_capacity = 6\<rparr>, m_size = 4\<rparr> =
     (Undefined, []) \<and>
   Insert T_throwing 1 (Object 7) (vector_of [1, 2, 3] 3) =
     (Returns (vector_of [1, 7, 2, 3] 6, 1),
      [CopyConstructed 7, CopyConstructed 1, CopyConstructed 2, CopyConstructed 3,
       Destroyed 1, Destroyed 2, Destroyed 3]) \<and>
   Erase T_throwing 1 (vector_of [1, 7, 2, 3] 6) =
     (Returns (vector_of [1, 2, 3] 6, 1), [MoveAssigned 2, MoveAssigned 3, Destroyed 0])"
  by code_simp

section \<open>Move assignment and the invariant\<close>

text \<open>
  Claim C9 says that \<open>0 \<le> Size \<le> Capacity\<close> holds, with the live elements in the slots
  \<open>[0, Size)\<close>, after every public operation on a vector reached from a
  default-constructed one. The move assignment swaps the storage and resets the size of
  the source, but leaves the size of the target as it was: after three appends to \<open>v\<close>
  and one to \<open>w\<close>, \<open>v = std::move(w)\<close> leaves \<open>v\<close> with size 3 on \<open>w\<close>'s block of
  capacity 1, and \<open>v[2]\<close> passes the assertion of \<open>Vector::operator[]\<close> and fails that of
  \<open>RawMemory::operator[]\<close>.
\<close>

theorem move_assign_breaks_invariant:
  "append_all T_int [InPlace 1, InPlace 2, InPlace 3] Vector_default =
     (Returns (vector_of [1, 2, 3] 4),
      [Constructed 1,
       Constructed 2, MoveConstructed 1, Destroyed 1,
       Constructed 3, MoveConstructed 1, MoveConstructed 2, Destroyed 1, Destroyed 2]) \<and>
   append_all T_int [InPlace 5] Vector_default = (Returns (vector_of [5] 1), [Constructed 5]) \<and>
   valid (vector_of [1, 2, 3 :: int] 4) \<and> valid (vector_of [5 :: int] 1) \<and>
   move_assign 0 1 (\<lambda>a. if a = 0 then vector_of [1, 2, 3 :: int] 4 else vector_of [5] 1) 0 =
     \<lparr>m_data = \<lparr>m_buffer = Block [Obj 5], m_capacity = 1\<rparr>, m_size = 3\<rparr> \<and>
   Size \<lparr>m_data = \<lparr>m_buffer = Block [Obj (5 :: int)], m_capacity = 1\<rparr>, m_size = 3\<rparr> = 3 \<and>
   Capacity \<lparr>m_data = \<lparr>m_buffer = Block [Obj (5 :: int)], m_capacity = 1\<rparr>, m_size = 3\<rparr> = 1 \<and>
   \<not> valid \<lparr>m_data = \<lparr>m_buffer = Block [Obj (5 :: int)], m_capacity = 1\<rparr>, m_size = 3\<rparr> \<and>
   subscript \<lparr>m_data = \<lparr>m_buffer = Block [Obj (5 :: int)], m_capacity = 1\<rparr>, m_size = 3\<rparr> 2 = None"
  by code_simp

section \<open>Arguments that refer to the vector, and capacities too large for \<open>size_t\<close>\<close>

text \<open>
  \<open>v.Insert(v.begin(), v[2])\<close> on the vector \<open>[1, 2, 3]\<close> of capacity 4 does not
  reallocate: the tail is shifted first, and the argument, a reference to the slot 2, is
  read afterwards, when that slot holds the value 2. On the vector of capacity 3 the
  insertion reallocates, and the argument is read before the transfer. The removal at
  the same position gives back \<open>[1, 2, 3]\<close>.
\<close>

lemma Insert_of_an_element:
  "Insert T_int 0 (Element 2) (vector_of [1, 2, 3] 4) =
     (Returns (vector_of [2, 1, 2, 3] 4, 0),
      [MoveConstructed 3, MoveAssigned 2, MoveAssigned 1, CopyConstructed 2,
       MoveAssigned 2, Destroyed 2]) \<and>
   Insert T_int 0 (Element 2) (vector_of [1, 2, 3] 3) =
     (Returns (vector_of [3, 1, 2, 3] 6, 0),
      [CopyConstructed 3, MoveConstructed 1, MoveConstructed 2, MoveConstructed 3,
       Destroyed 1, Destroyed 2, Destroyed 3]) \<and>
   PushBack T_int (Element 0) (vector_of [1, 2, 3] 3) =
     (Returns (vector_of [1, 2, 3, 1] 6),
      [CopyConstructed 1, MoveConstructed 1, MoveConstructed 2, MoveConstructed 3,
       Destroyed 1, Destroyed 2, Destroyed 3]) \<and>
   Erase T_int 0 (vector_of [2, 1, 2, 3] 4) =
     (Returns (vector_of [1, 2, 3] 4, 0),
      [MoveAssigned 1, MoveAssigned 2, MoveAssigned 3, Destroyed 3])"
  by code_simp

text \<open>
  \<open>Reserve(2^62)\<close> on a \<open>Vector<int>\<close>: the byte count \<open>2^62 * 4\<close> wraps to 0, \<open>operator
  new(0)\<close> returns a block that holds no element, and the capacity recorded is \<open>2^62\<close>.
  With elements to transfer, the first of them is constructed outside the block.
\<close>

lemma Reserve_wrapped_byte_count:
  "Reserve T_int (2 ^ 62) (vector_of [1, 2, 3] 4) = (Undefined, []) \<and>
   Reserve T_int (2 ^ 62) Vector_default =
     (Returns \<lparr>m_data = \<lparr>m_buffer = Block [], m_capacity = 2 ^ 62\<rparr>, m_size = 0\<rparr>, []) \<and>
   \<not> valid \<lparr>m_data = \<lparr>m_buffer = Block ([] :: int slot list), m_capacity = 2 ^ 62\<rparr>,
              m_size = 0\<rparr>"
  by code_simp

end
